(* ===== verification/Quest_Prelude.thy ===== *)
theory Quest_Prelude
  imports Main "HOL-Library.Word"
begin

text \<open>
  The shared vocabulary of the development: the C integer types as words, the error
  numbers, the outcome of a C routine that may stop in \<open>BUG_ON\<close>, array moves, and the
  alignment macros with the facts on them that the component theories use.
\<close>

unbundle bit_operations_syntax

section \<open>Types and error numbers\<close>

type_synonym u8 = "8 word"
type_synonym u16 = "16 word"
type_synonym u32 = "32 word"
type_synonym u64 = "64 word"
type_synonym phys_addr = "64 word"

abbreviation EPERM :: int where "EPERM \<equiv> 1"
abbreviation ENOENT :: int where "ENOENT \<equiv> 2"
abbreviation E2BIG :: int where "E2BIG \<equiv> 7"
abbreviation ENOMEM :: int where "ENOMEM \<equiv> 12"
abbreviation EFAULT :: int where "EFAULT \<equiv> 14"
abbreviation EBUSY :: int where "EBUSY \<equiv> 16"
abbreviation EEXIST :: int where "EEXIST \<equiv> 17"
abbreviation EINVAL :: int where "EINVAL \<equiv> 22"
abbreviation ENOSYS :: int where "ENOSYS \<equiv> 38"
abbreviation EOPNOTSUPP :: int where "EOPNOTSUPP \<equiv> 95"

named_theorems quest_simps \<open>characteristic equations of the model's operations\<close>

section \<open>Outcomes\<close>

text \<open>
  A routine either returns a value, or does not return in a defined way (\<open>Bug\<close>: it stops for
  ever in the loop of \<open>BUG_ON\<close> of \<open>include/system.h\<close>, runs into another endless loop, or
  accesses memory outside its objects), or, for the mutually recursive routines modelled
  with a fuel argument, runs out of fuel. \<open>NoFuel\<close> never stands for a behaviour of the code: every
  theorem about a fuelled routine shows that it is not reached.
\<close>

datatype 'a outcome = Ret 'a | Bug | NoFuel

definition obind :: "'a outcome \<Rightarrow> ('a \<Rightarrow> 'b outcome) \<Rightarrow> 'b outcome" where
  "obind m f = (case m of Ret x \<Rightarrow> f x | Bug \<Rightarrow> Bug | NoFuel \<Rightarrow> NoFuel)"

lemma obind_simps [simp]:
  "obind (Ret x) f = f x"
  "obind Bug f = Bug"
  "obind NoFuel f = NoFuel"
  by (simp_all add: obind_def)

lemma obind_eq_Ret: "obind m f = Ret y \<longleftrightarrow> (\<exists>x. m = Ret x \<and> f x = Ret y)"
  by (cases m) simp_all

lemma obind_cong [fundef_cong]:
  "m = m' \<Longrightarrow> (\<And>x. m' = Ret x \<Longrightarrow> f x = g x) \<Longrightarrow> obind m f = obind m' g"
  by (cases m') simp_all

section \<open>Arrays\<close>

text \<open>
  \<open>memmove_arr dst src n xs\<close> is \<open>memmove(&xs[dst], &xs[src], n * sizeof(*xs))\<close> within
  one array.
\<close>

definition memmove_arr :: "nat \<Rightarrow> nat \<Rightarrow> nat \<Rightarrow> 'a list \<Rightarrow> 'a list" where
  "memmove_arr dst src n xs = take dst xs @ take n (drop src xs) @ drop (dst + n) xs"

lemma length_memmove_arr [simp]:
  "dst + n \<le> length xs \<Longrightarrow> src + n \<le> length xs \<Longrightarrow> length (memmove_arr dst src n xs) = length xs"
  by (simp add: memmove_arr_def)

lemma take_eq_appendD:
  "take n xs = ys @ zs \<Longrightarrow> n \<le> length xs \<Longrightarrow> xs = ys @ zs @ drop n xs"
  by (metis append_assoc append_take_drop_id)

text \<open>Opening a gap at \<open>idx\<close> and writing an element into it inserts the element.\<close>

lemma memmove_insert:
  assumes "take n xs = pre @ rest" and "idx = length pre" and "n < length xs"
  shows "take (Suc n) ((memmove_arr (Suc idx) idx (n - idx) xs)[idx := x]) = pre @ x # rest"
proof -
  have xs: "xs = pre @ rest @ drop n xs"
    using assms take_eq_appendD [of n xs pre rest] by simp
  have n: "n = length pre + length rest"
    using assms by (metis length_append length_take less_or_eq_imp_le min.absorb2)
  obtain d ds where d: "drop n xs = d # ds"
    using assms(3) by (metis Cons_nth_drop_Suc)
  have xs': "xs = pre @ rest @ d # ds"
    using xs d by simp
  have mv: "memmove_arr (Suc idx) idx (n - idx) xs
      = take (Suc (length pre)) (pre @ rest @ d # ds) @ rest @ ds"
    unfolding memmove_arr_def using n by (simp add: xs' assms(2))
  have "(take (Suc (length pre)) (pre @ rest @ d # ds) @ rest @ ds)[length pre := x]
      = pre @ x # rest @ ds"
    by (cases rest) (simp_all add: list_update_append)
  then show ?thesis
    using mv n assms(2) by simp
qed

text \<open>Closing the gap left by the element at \<open>idx\<close> deletes it.\<close>

lemma memmove_delete:
  assumes "take n xs = pre @ r # rest" and "idx = length pre" and "n \<le> length xs"
  shows "take (n - 1) (memmove_arr idx (Suc idx) (n - Suc idx) xs) = pre @ rest"
proof -
  have xs: "xs = pre @ (r # rest) @ drop n xs"
    using assms take_eq_appendD [of n xs pre "r # rest"] by simp
  have n: "n = Suc (length pre + length rest)"
    using assms by (metis add_Suc_right length_Cons length_append length_take min.absorb2)
  have "memmove_arr idx (Suc idx) (n - Suc idx) xs
      = take (length pre) xs @ take (length rest) (drop (Suc (length pre)) xs)
        @ drop (length pre + length rest) xs"
    unfolding memmove_arr_def using n assms(2) by simp
  also have "take (length pre) xs = pre"
    by (subst xs) simp
  also have "take (length rest) (drop (Suc (length pre)) xs) = rest"
    by (subst xs) simp
  finally show ?thesis
    using n by simp
qed

section \<open>Alignment\<close>

abbreviation PAGE_SHIFT :: nat where "PAGE_SHIFT \<equiv> 12"
abbreviation PAGE_SIZE :: u64 where "PAGE_SIZE \<equiv> 4096"

definition round_up :: "u64 \<Rightarrow> u64 \<Rightarrow> u64" where
  "round_up x y = ((x - 1) OR (y - 1)) + 1"

definition round_down :: "u64 \<Rightarrow> u64 \<Rightarrow> u64" where
  "round_down x y = x AND NOT (y - 1)"

definition ALIGN :: "u64 \<Rightarrow> u64 \<Rightarrow> u64" where
  "ALIGN x a = (x + (a - 1)) AND NOT (a - 1)"

definition PAGE_ALIGN :: "u64 \<Rightarrow> u64" where
  "PAGE_ALIGN x = ALIGN x PAGE_SIZE"

definition IS_ALIGNED :: "u64 \<Rightarrow> u64 \<Rightarrow> bool" where
  "IS_ALIGNED x a \<longleftrightarrow> x AND (a - 1) = 0"

lemma round_down_le [simp]: "round_down x y \<le> x"
  by (simp add: round_down_def word_and_le2)

lemma and_not_and [simp]: "(x AND NOT m) AND m = (0 :: 'a::len word)"
  by (simp add: and.assoc)

lemma round_down_aligned [simp]: "IS_ALIGNED (round_down x y) y"
  by (simp add: IS_ALIGNED_def round_down_def)

lemma ALIGN_aligned [simp]: "IS_ALIGNED (ALIGN x a) a"
  by (simp add: IS_ALIGNED_def ALIGN_def)

text \<open>Rounding to a power of two.\<close>

lemma round_up_ge:
  assumes "round_up x align \<noteq> 0"
  shows "x \<le> round_up x align"
proof (cases "x = 0")
  case False
  let ?y = "(x - 1) OR (align - 1)"
  have 1: "x - 1 \<le> ?y" by (rule le_word_or2)
  have "?y + 1 \<noteq> 0" using assms by (simp add: round_up_def)
  with 1 False have "x \<le> ?y + 1" by uint_arith
  then show ?thesis by (simp add: round_up_def)
qed simp

lemma pow2_minus_1: "(2 ^ k :: u64) - 1 = mask k"
  by (simp add: mask_eq_exp_minus_1)

lemma IS_ALIGNED_pow2: "IS_ALIGNED x (2 ^ k) \<longleftrightarrow> take_bit k x = 0"
  by (simp add: IS_ALIGNED_def pow2_minus_1 take_bit_eq_mask)

lemma aligned_unat: "IS_ALIGNED x (2 ^ k) \<longleftrightarrow> unat x mod 2 ^ k = 0"
proof -
  have "unat (take_bit k x) = unat x mod 2 ^ k"
    unfolding unsigned_take_bit_eq by (rule take_bit_eq_mod)
  then show ?thesis by (metis IS_ALIGNED_pow2 unat_0 unat_eq_zero)
qed

lemma round_up_aligned:
  assumes "k < 64"
  shows "IS_ALIGNED (round_up x (2 ^ k)) (2 ^ k)"
proof -
  let ?A = "(x - 1) OR mask k"
  have "take_bit k ?A = mask k"
    by (rule bit_word_eqI) (auto simp: bit_simps)
  then have "unat (take_bit k ?A) = unat (mask k :: u64)" by (rule arg_cong)
  moreover have "unat (take_bit k ?A) = unat ?A mod 2 ^ k"
    unfolding unsigned_take_bit_eq by (rule take_bit_eq_mod)
  moreover have "unat (mask k :: u64) = 2 ^ k - 1"
  proof -
    have "(2 ^ k :: nat) < 2 ^ 64" by (rule power_strict_increasing) (use assms in simp_all)
    then have "unat (2 ^ k :: u64) = 2 ^ k"
      using unat_of_nat [of "2 ^ k", where 'a = 64] by simp
    then show ?thesis using assms by (simp add: mask_eq_exp_minus_1 unat_minus_one)
  qed
  ultimately have "unat ?A mod 2 ^ k = 2 ^ k - 1" by simp
  then have "Suc (unat ?A mod 2 ^ k) = 2 ^ k" using one_le_power [of "2::nat" k] by linarith
  then have "Suc (unat ?A) mod 2 ^ k = 0" by (simp add: mod_Suc)
  moreover have "(2 ^ k :: nat) dvd 2 ^ 64" by (rule le_imp_power_dvd) (use assms in simp)
  then have "unat (?A + 1) mod 2 ^ k = Suc (unat ?A) mod 2 ^ k"
    by (simp add: unat_word_ariths mod_mod_cancel)
  ultimately show ?thesis by (simp add: aligned_unat round_up_def pow2_minus_1)
qed

lemma unat_round_down: "unat (round_down y (2 ^ k)) = unat y - unat y mod 2 ^ k"
proof -
  have "y AND NOT (mask k) = y - (y AND mask k)"
    by (subst disjunctive_diff) (auto simp: bit_simps intro!: bit_word_eqI)
  moreover have "y AND mask k \<le> y" by (rule word_and_le2)
  moreover have "unat (y AND mask k) = unat y mod 2 ^ k"
    unfolding take_bit_eq_mask [symmetric] unsigned_take_bit_eq by (rule take_bit_eq_mod)
  ultimately show ?thesis
    by (simp add: round_down_def pow2_minus_1 unat_sub)
qed

lemma round_down_greatest:
  assumes "IS_ALIGNED c (2 ^ k)" and "c \<le> y"
  shows "c \<le> round_down y (2 ^ k)"
proof -
  have c: "unat c mod 2 ^ k = 0" using assms(1) by (simp add: aligned_unat)
  have "unat c \<le> unat y" using assms(2) by (simp add: word_le_nat_alt)
  then have "unat c div 2 ^ k \<le> unat y div 2 ^ k" by (rule div_le_mono)
  then have "unat c div 2 ^ k * 2 ^ k \<le> unat y div 2 ^ k * 2 ^ k" by simp
  then have "unat c \<le> unat y - unat y mod 2 ^ k"
    using c by (metis div_mod_decomp add.right_neutral add_diff_cancel_right')
  then show ?thesis by (simp add: word_le_nat_alt unat_round_down)
qed

end
