(* ===== verification/Memblock_Regions.thy ===== *)
theory Memblock_Regions
  imports Quest_Prelude
begin

text \<open>
  The region arrays of the early physical memory allocator: \<open>struct memblock_region\<close> and
  \<open>struct memblock_type\<close> of \<open>include/linux_modify/memblock.h\<close>, and the array routines of
  \<open>src/mm/memblock.c\<close> that need no allocation: insertion, removal, the isolation loop,
  the merge loop and the insertion pass of \<open>memblock_add_range\<close>.

  An array is a list of \<open>mt_max\<close> regions whose first \<open>mt_cnt\<close> entries are in use; every
  routine works on the array by index and \<open>memmove\<close>, as the code does. The specification
  is the partial map from addresses to the attributes (node and flags) of the region that
  holds them, \<open>attr_at\<close>. Addresses are 64-bit words; the arithmetic of the code is kept
  on words, so a region ends at \<open>rg_base + rg_size\<close> modulo \<open>2 ^ 64\<close>. Array indices and
  counts are natural numbers.
\<close>

section \<open>Data\<close>

record memblock_region =
  rg_base :: phys_addr
  rg_size :: phys_addr
  rg_flags :: u32
  rg_nid :: int

text \<open>Where \<open>type->regions\<close> points to: one of the two static arrays or an allocated one.\<close>

datatype regions_ptr = Memory_Init_Regions | Reserved_Init_Regions | Allocated phys_addr

record memblock_type =
  mt_cnt :: nat
  mt_max :: nat
  mt_total_size :: phys_addr
  mt_regions :: "memblock_region list"
  mt_ptr :: regions_ptr
  mt_name :: string

abbreviation NUMA_NO_NODE :: int where "NUMA_NO_NODE \<equiv> -1"
abbreviation MAX_NUMNODES :: int where "MAX_NUMNODES \<equiv> 16"
abbreviation PHYS_ADDR_MAX :: u64 where "PHYS_ADDR_MAX \<equiv> - 1"

abbreviation MEMBLOCK_NONE :: u32 where "MEMBLOCK_NONE \<equiv> 0x0"
abbreviation MEMBLOCK_HOTPLUG :: u32 where "MEMBLOCK_HOTPLUG \<equiv> 0x1"
abbreviation MEMBLOCK_MIRROR :: u32 where "MEMBLOCK_MIRROR \<equiv> 0x2"
abbreviation MEMBLOCK_NOMAP :: u32 where "MEMBLOCK_NOMAP \<equiv> 0x4"
abbreviation MEMBLOCK_DRIVER_MANAGED :: u32 where "MEMBLOCK_DRIVER_MANAGED \<equiv> 0x8"
abbreviation MEMBLOCK_RSRV_NOINIT :: u32 where "MEMBLOCK_RSRV_NOINIT \<equiv> 0x10"
abbreviation MEMBLOCK_RSRV_KERN :: u32 where "MEMBLOCK_RSRV_KERN \<equiv> 0x20"
abbreviation MEMBLOCK_KHO_SCRATCH :: u32 where "MEMBLOCK_KHO_SCRATCH \<equiv> 0x40"

definition zero_region :: memblock_region where
  "zero_region = \<lparr>rg_base = 0, rg_size = 0, rg_flags = 0, rg_nid = 0\<rparr>"

section \<open>The array routines\<close>

definition memblock_cap_size :: "phys_addr \<Rightarrow> phys_addr \<Rightarrow> phys_addr" where
  "memblock_cap_size base size' = min size' (PHYS_ADDR_MAX - base)"

definition memblock_insert_region ::
  "memblock_type \<Rightarrow> nat \<Rightarrow> phys_addr \<Rightarrow> phys_addr \<Rightarrow> int \<Rightarrow> u32 \<Rightarrow> memblock_type outcome" where
  "memblock_insert_region t idx base size' nid flags =
    (if mt_cnt t \<ge> mt_max t then Bug
     else Ret (t\<lparr>mt_regions :=
            (memmove_arr (Suc idx) idx (mt_cnt t - idx) (mt_regions t))
              [idx := \<lparr>rg_base = base, rg_size = size', rg_flags = flags, rg_nid = nid\<rparr>],
            mt_cnt := Suc (mt_cnt t),
            mt_total_size := mt_total_size t + size'\<rparr>))"

definition memblock_remove_region :: "memblock_type \<Rightarrow> nat \<Rightarrow> memblock_type" where
  "memblock_remove_region t r =
    (let t' = t\<lparr>mt_total_size := mt_total_size t - rg_size (mt_regions t ! r),
                mt_regions := memmove_arr r (Suc r) (mt_cnt t - Suc r) (mt_regions t),
                mt_cnt := mt_cnt t - 1\<rparr>
     in if mt_cnt t' = 0
        then t'\<lparr>mt_regions := (mt_regions t')
               [0 := \<lparr>rg_base = 0, rg_size = 0, rg_flags = 0, rg_nid = MAX_NUMNODES\<rparr>]\<rparr>
        else t')"

text \<open>
  The loop of \<open>memblock_isolate_range\<close>. Splitting a region from above makes the code
  visit the same index again, so the loop is bounded by a fuel argument; the caller gives
  \<open>cnt + 6\<close>, which is shown to be enough.
\<close>

fun memblock_isolate_loop ::
  "nat \<Rightarrow> phys_addr \<Rightarrow> phys_addr \<Rightarrow> memblock_type \<Rightarrow> nat \<Rightarrow> nat \<Rightarrow> nat
    \<Rightarrow> (memblock_type \<times> nat \<times> nat) outcome" where
  "memblock_isolate_loop 0 base end t idx start_rgn end_rgn = NoFuel"
| "memblock_isolate_loop (Suc n) base end t idx start_rgn end_rgn =
    (if idx < mt_cnt t then
       let rgn = mt_regions t ! idx; rbase = rg_base rgn; rend = rbase + rg_size rgn in
       if rbase \<ge> end then Ret (t, start_rgn, end_rgn)
       else if rend \<le> base then memblock_isolate_loop n base end t (Suc idx) start_rgn end_rgn
       else if rbase < base then
         obind (memblock_insert_region
             (t\<lparr>mt_regions := (mt_regions t)
                  [idx := rgn\<lparr>rg_base := base, rg_size := rg_size rgn - (base - rbase)\<rparr>],
                mt_total_size := mt_total_size t - (base - rbase)\<rparr>)
             idx rbase (base - rbase) (rg_nid rgn) (rg_flags rgn))
           (\<lambda>t'. memblock_isolate_loop n base end t' (Suc idx) start_rgn end_rgn)
       else if rend > end then
         obind (memblock_insert_region
             (t\<lparr>mt_regions := (mt_regions t)
                  [idx := rgn\<lparr>rg_base := end, rg_size := rg_size rgn - (end - rbase)\<rparr>],
                mt_total_size := mt_total_size t - (end - rbase)\<rparr>)
             idx rbase (end - rbase) (rg_nid rgn) (rg_flags rgn))
           (\<lambda>t'. memblock_isolate_loop n base end t' idx start_rgn end_rgn)
       else memblock_isolate_loop n base end t (Suc idx)
              (if end_rgn = 0 then idx else start_rgn) (Suc idx)
     else Ret (t, start_rgn, end_rgn))"

text \<open>The removal loop of \<open>memblock_remove_range\<close>: indices \<open>end_rgn - 1\<close> down to \<open>start_rgn\<close>.\<close>

fun memblock_remove_loop :: "memblock_type \<Rightarrow> nat \<Rightarrow> nat \<Rightarrow> memblock_type" where
  "memblock_remove_loop t start_rgn 0 = t"
| "memblock_remove_loop t start_rgn (Suc i) =
    (if i \<ge> start_rgn then memblock_remove_loop (memblock_remove_region t i) start_rgn i else t)"

definition mergeable :: "memblock_region \<Rightarrow> memblock_region \<Rightarrow> bool" where
  "mergeable this next \<longleftrightarrow>
    \<not> (rg_base this + rg_size this \<noteq> rg_base next \<or> rg_nid this \<noteq> rg_nid next
        \<or> rg_flags this \<noteq> rg_flags next)"

function memblock_merge_loop :: "memblock_type \<Rightarrow> nat \<Rightarrow> nat \<Rightarrow> memblock_type outcome" where
  "memblock_merge_loop t i end_rgn =
    (if i < end_rgn then
       let this = mt_regions t ! i; next = mt_regions t ! Suc i in
       if \<not> mergeable this next then
         (if rg_base this + rg_size this > rg_base next then Bug
          else memblock_merge_loop t (Suc i) end_rgn)
       else memblock_merge_loop
              (t\<lparr>mt_regions := memmove_arr (Suc i) (i + 2) (mt_cnt t - (i + 2))
                   ((mt_regions t)[i := this\<lparr>rg_size := rg_size this + rg_size next\<rparr>]),
                 mt_cnt := mt_cnt t - 1\<rparr>)
              i (end_rgn - 1)
     else Ret t)"
  by pat_completeness auto
termination
  by (relation "measure (\<lambda>(t, i, end_rgn). end_rgn - i)") auto

declare memblock_merge_loop.simps [simp del]

definition memblock_merge_regions :: "memblock_type \<Rightarrow> nat \<Rightarrow> nat \<Rightarrow> memblock_type outcome" where
  "memblock_merge_regions t start_rgn end_rgn =
    memblock_merge_loop t (if start_rgn \<noteq> 0 then start_rgn - 1 else 0)
      (min end_rgn (mt_cnt t - 1))"

text \<open>
  One pass of \<open>memblock_add_range\<close> over the array, executed with \<open>ins\<close> false to count
  the regions that are missing and with \<open>ins\<close> true to insert them. The results are the
  array, the count \<open>nr_new\<close> and the index range \<open>start_rgn\<close>, \<open>end_rgn\<close> (both \<open>-1\<close> when
  nothing was inserted).
\<close>

function memblock_add_loop ::
  "bool \<Rightarrow> phys_addr \<Rightarrow> int \<Rightarrow> u32 \<Rightarrow> memblock_type \<Rightarrow> nat \<Rightarrow> phys_addr \<Rightarrow> nat \<Rightarrow> int \<Rightarrow> int
    \<Rightarrow> (memblock_type \<times> nat \<times> phys_addr \<times> nat \<times> int \<times> int) outcome" where
  "memblock_add_loop ins end nid flags t idx base nr_new start_rgn end_rgn =
    (if idx < mt_cnt t then
       let rgn = mt_regions t ! idx; rbase = rg_base rgn; rend = rbase + rg_size rgn in
       if rbase \<ge> end then Ret (t, idx, base, nr_new, start_rgn, end_rgn)
       else if rend \<le> base then
         memblock_add_loop ins end nid flags t (Suc idx) base nr_new start_rgn end_rgn
       else if rbase > base then
         (if ins then
            obind (memblock_insert_region t idx base (rbase - base) nid flags)
              (\<lambda>t'. memblock_add_loop ins end nid flags t' (idx + 2) (min rend end) (Suc nr_new)
                      (if start_rgn = -1 then int idx else start_rgn) (int idx + 1))
          else memblock_add_loop ins end nid flags t (Suc idx) (min rend end) (Suc nr_new)
                 start_rgn end_rgn)
       else memblock_add_loop ins end nid flags t (Suc idx) (min rend end) nr_new
              start_rgn end_rgn
     else Ret (t, idx, base, nr_new, start_rgn, end_rgn))"
  by pat_completeness auto
termination
  by (relation "measure (\<lambda>(ins, e, nid, fl, t, idx, rest). mt_cnt t - idx)")
    (auto simp: memblock_insert_region_def split: if_splits)

declare memblock_add_loop.simps [simp del]

definition memblock_add_pass ::
  "bool \<Rightarrow> phys_addr \<Rightarrow> phys_addr \<Rightarrow> int \<Rightarrow> u32 \<Rightarrow> memblock_type
    \<Rightarrow> (memblock_type \<times> nat \<times> int \<times> int) outcome" where
  "memblock_add_pass ins obase end nid flags t =
    obind (memblock_add_loop ins end nid flags t 0 obase 0 (-1) (-1))
      (\<lambda>(t', idx, base, nr_new, start_rgn, end_rgn).
        if base < end then
          (if ins then
             obind (memblock_insert_region t' idx base (end - base) nid flags)
               (\<lambda>t''. Ret (t'', Suc nr_new, (if start_rgn = -1 then int idx else start_rgn), int idx + 1))
           else Ret (t', Suc nr_new, start_rgn, end_rgn))
        else Ret (t', nr_new, start_rgn, end_rgn))"

end
