(* ===== verification/Memblock_Region_Lemmas.thy ===== *)
theory Memblock_Region_Lemmas
  imports Memblock_Regions
begin

text \<open>
  The region arrays refine a partial map from addresses to attributes. The invariant
  \<open>mt_wf\<close> says that the used entries are non-empty, sorted and disjoint, that the count
  and the total size agree with them, and that an empty array shows a zero size in its
  first entry, the test \<open>memblock_add_range\<close> makes.
\<close>

section \<open>Abstraction and invariant\<close>

definition rg_end :: "memblock_region \<Rightarrow> phys_addr" where
  "rg_end r = rg_base r + rg_size r"

definition rg_has :: "memblock_region \<Rightarrow> phys_addr \<Rightarrow> bool" where
  "rg_has r a \<longleftrightarrow> rg_base r \<le> a \<and> a < rg_end r"

definition rg_attr :: "memblock_region \<Rightarrow> int \<times> u32" where
  "rg_attr r = (rg_nid r, rg_flags r)"

fun attr_at :: "memblock_region list \<Rightarrow> phys_addr \<Rightarrow> (int \<times> u32) option" where
  "attr_at [] a = None"
| "attr_at (r # rs) a = (if rg_has r a then Some (rg_attr r) else attr_at rs a)"

fun rchain :: "phys_addr \<Rightarrow> memblock_region list \<Rightarrow> bool" where
  "rchain lo [] = True"
| "rchain lo (r # rs) \<longleftrightarrow> lo \<le> rg_base r \<and> rg_base r < rg_end r \<and> rchain (rg_end r) rs"

fun minimal :: "memblock_region list \<Rightarrow> bool" where
  "minimal (a # b # rs) \<longleftrightarrow> \<not> mergeable a b \<and> minimal (b # rs)"
| "minimal rs = True"

definition used :: "memblock_type \<Rightarrow> memblock_region list" where
  "used t = take (mt_cnt t) (mt_regions t)"

definition mt_shape :: "memblock_type \<Rightarrow> bool" where
  "mt_shape t \<longleftrightarrow> mt_cnt t \<le> mt_max t \<and> length (mt_regions t) = mt_max t
     \<and> mt_total_size t = sum_list (map rg_size (used t))"

definition mt_wf :: "memblock_type \<Rightarrow> bool" where
  "mt_wf t \<longleftrightarrow> mt_shape t \<and> rchain 0 (used t) \<and> 0 < mt_max t
     \<and> (mt_cnt t = 0 \<longrightarrow> rg_size (mt_regions t ! 0) = 0)"

definition mt_attr :: "memblock_type \<Rightarrow> phys_addr \<Rightarrow> (int \<times> u32) option" where
  "mt_attr t = attr_at (used t)"

definition same_array :: "memblock_type \<Rightarrow> memblock_type \<Rightarrow> bool" where
  "same_array t t' \<longleftrightarrow> mt_max t' = mt_max t \<and> mt_ptr t' = mt_ptr t \<and> mt_name t' = mt_name t"

lemma same_array_refl [simp]: "same_array t t"
  by (simp add: same_array_def)

lemma same_array_trans [trans]: "same_array a b \<Longrightarrow> same_array b c \<Longrightarrow> same_array a c"
  by (simp add: same_array_def)

lemma length_used: "mt_shape t \<Longrightarrow> length (used t) = mt_cnt t"
  by (simp add: used_def mt_shape_def)

lemma used_nth: "mt_shape t \<Longrightarrow> i < mt_cnt t \<Longrightarrow> mt_regions t ! i = used t ! i"
  by (simp add: used_def)

lemma nth_used_split:
  "mt_shape t \<Longrightarrow> used t = pre @ r # rest \<Longrightarrow> idx = length pre \<Longrightarrow>
     idx < mt_cnt t \<and> mt_regions t ! idx = r"
  using length_used [of t] used_nth [of t idx] by simp

lemma rchain_mono: "rchain lo rs \<Longrightarrow> lo' \<le> lo \<Longrightarrow> rchain lo' rs"
  by (cases rs) auto

lemma rchain_append:
  "rchain lo (xs @ ys) \<longleftrightarrow> rchain lo xs \<and> rchain (if xs = [] then lo else rg_end (last xs)) ys"
  by (induction xs arbitrary: lo) auto

lemma rchain_attr_below: "rchain lo rs \<Longrightarrow> a < lo \<Longrightarrow> attr_at rs a = None"
proof (induction rs arbitrary: lo)
  case (Cons r rs)
  then have "a < rg_base r" and "a < rg_end r" by auto
  with Cons show ?case by (auto simp: rg_has_def)
qed simp

lemma attr_at_append:
  "attr_at (xs @ ys) a = (case attr_at xs a of None \<Rightarrow> attr_at ys a | Some v \<Rightarrow> Some v)"
  by (induction xs) auto

lemma attr_at_None_iff: "attr_at rs a = None \<longleftrightarrow> (\<forall>r\<in>set rs. \<not> rg_has r a)"
  by (induction rs) auto

lemma rchain_bounds:
  "rchain lo rs \<Longrightarrow> r \<in> set rs \<Longrightarrow> lo \<le> rg_base r \<and> rg_base r < rg_end r"
proof (induction rs arbitrary: lo)
  case (Cons x rs)
  then show ?case by (fastforce intro: order.trans)
qed simp

section \<open>Insertion and removal at an index\<close>

definition new_region :: "phys_addr \<Rightarrow> phys_addr \<Rightarrow> int \<Rightarrow> u32 \<Rightarrow> memblock_region" where
  "new_region b e nid flags = \<lparr>rg_base = b, rg_size = e - b, rg_flags = flags, rg_nid = nid\<rparr>"

lemma new_region_simps [simp]:
  "rg_base (new_region b e nid fl) = b"
  "rg_end (new_region b e nid fl) = e"
  "rg_size (new_region b e nid fl) = e - b"
  "rg_attr (new_region b e nid fl) = (nid, fl)"
  "rg_has (new_region b e nid fl) a \<longleftrightarrow> b \<le> a \<and> a < e"
  by (simp_all add: new_region_def rg_end_def rg_attr_def rg_has_def)

lemma insert_region_ok:
  assumes "mt_shape t" and "used t = pre @ rest" and "idx = length pre" and "mt_cnt t < mt_max t"
  obtains t' where "memblock_insert_region t idx b s nid fl = Ret t'"
    and "used t' = pre @ \<lparr>rg_base = b, rg_size = s, rg_flags = fl, rg_nid = nid\<rparr> # rest"
    and "mt_shape t'" and "same_array t t'" and "mt_cnt t' = Suc (mt_cnt t)"
proof -
  let ?r = "\<lparr>rg_base = b, rg_size = s, rg_flags = fl, rg_nid = nid\<rparr>"
  let ?t' = "t\<lparr>mt_regions := (memmove_arr (Suc idx) idx (mt_cnt t - idx) (mt_regions t))[idx := ?r],
              mt_cnt := Suc (mt_cnt t), mt_total_size := mt_total_size t + s\<rparr>"
  have idx: "idx \<le> mt_cnt t" and len: "length (mt_regions t) = mt_max t"
    using assms length_used [of t] by (simp_all add: mt_shape_def)
  have u: "used ?t' = pre @ ?r # rest"
    using memmove_insert [of "mt_cnt t" "mt_regions t" pre rest idx] assms
    by (simp add: used_def mt_shape_def)
  have "mt_shape ?t'"
    using assms idx len u by (simp add: mt_shape_def ac_simps)
  with u assms(4) show ?thesis
    by (intro that [of ?t']) (simp_all add: memblock_insert_region_def same_array_def)
qed

lemma remove_region_ok:
  assumes "mt_shape t" and "used t = pre @ r # rest" and "idx = length pre"
  shows "used (memblock_remove_region t idx) = pre @ rest"
    and "mt_shape (memblock_remove_region t idx)"
    and "same_array t (memblock_remove_region t idx)"
    and "pre @ rest = [] \<Longrightarrow> rg_size (mt_regions (memblock_remove_region t idx) ! 0) = 0"
proof -
  have i: "idx < mt_cnt t" and r: "mt_regions t ! idx = r"
    using nth_used_split [OF assms] by simp_all
  have c: "mt_cnt t = Suc (length pre + length rest)"
    using length_used [OF assms(1)] assms(2) by simp
  have len: "length (mt_regions t) = mt_max t" "mt_cnt t \<le> mt_max t"
    using assms(1) by (simp_all add: mt_shape_def)
  have u: "take (mt_cnt t - 1) (memmove_arr idx (Suc idx) (mt_cnt t - Suc idx) (mt_regions t)) = pre @ rest"
    using memmove_delete [of "mt_cnt t" "mt_regions t" pre r rest idx] assms len by (simp add: used_def)
  show u': "used (memblock_remove_region t idx) = pre @ rest"
    using u c by (simp add: memblock_remove_region_def Let_def used_def)
  have ml: "length (memmove_arr idx (Suc idx) (mt_cnt t - Suc idx) (mt_regions t)) = mt_max t"
    using i len by simp
  have "mt_total_size t - rg_size r = sum_list (map rg_size (pre @ rest))"
    using assms(1,2) by (simp add: mt_shape_def algebra_simps)
  moreover have "mt_cnt (memblock_remove_region t idx) = mt_cnt t - 1"
    and "mt_max (memblock_remove_region t idx) = mt_max t"
    and "mt_total_size (memblock_remove_region t idx) = mt_total_size t - rg_size r"
    by (simp_all add: memblock_remove_region_def Let_def r)
  moreover have "length (mt_regions (memblock_remove_region t idx)) = mt_max t"
    using i len by (simp add: memblock_remove_region_def Let_def)
  ultimately show "mt_shape (memblock_remove_region t idx)"
    using u' len by (simp add: mt_shape_def)
  show "same_array t (memblock_remove_region t idx)"
    by (simp add: same_array_def memblock_remove_region_def Let_def)
  show "rg_size (mt_regions (memblock_remove_region t idx) ! 0) = 0" if "pre @ rest = []"
    using that c ml len by (simp add: memblock_remove_region_def Let_def)
qed

section \<open>The insertion pass\<close>

text \<open>
  \<open>add_walk\<close> is the loop of \<open>memblock_add_range\<close> on lists: the regions it has passed
  (with the inserted ones), the start of what is still uncovered, and the rest.
\<close>

fun add_walk :: "phys_addr \<Rightarrow> int \<Rightarrow> u32 \<Rightarrow> phys_addr \<Rightarrow> memblock_region list
    \<Rightarrow> memblock_region list \<times> phys_addr \<times> memblock_region list" where
  "add_walk e nid fl b [] = ([], b, [])"
| "add_walk e nid fl b (r # rs) =
    (if rg_base r \<ge> e then ([], b, r # rs)
     else if rg_end r \<le> b then (case add_walk e nid fl b rs of (d, b', rem) \<Rightarrow> (r # d, b', rem))
     else (case add_walk e nid fl (min (rg_end r) e) rs of (d, b', rem) \<Rightarrow>
             ((if rg_base r > b then [new_region b (rg_base r) nid fl] else []) @ r # d, b', rem)))"

fun walk_need :: "phys_addr \<Rightarrow> phys_addr \<Rightarrow> memblock_region list \<Rightarrow> nat" where
  "walk_need e b [] = 0"
| "walk_need e b (r # rs) =
    (if rg_base r \<ge> e then 0
     else if rg_end r \<le> b then walk_need e b rs
     else (if rg_base r > b then 1 else 0) + walk_need e (min (rg_end r) e) rs)"

definition add_list :: "phys_addr \<Rightarrow> int \<Rightarrow> u32 \<Rightarrow> phys_addr \<Rightarrow> memblock_region list
    \<Rightarrow> memblock_region list" where
  "add_list e nid fl b rs =
    (case add_walk e nid fl b rs of (d, b', rem) \<Rightarrow>
       d @ (if b' < e then [new_region b' e nid fl] else []) @ rem)"

definition add_need :: "phys_addr \<Rightarrow> phys_addr \<Rightarrow> memblock_region list \<Rightarrow> nat" where
  "add_need e b rs =
    walk_need e b rs + (if fst (snd (add_walk e 0 0 b rs)) < e then 1 else 0)"

lemma add_walk_indep:
  "snd (add_walk e nid fl b rs) = snd (add_walk e 0 0 b rs)"
  by (induction rs arbitrary: b) (auto split: prod.splits simp: prod_eq_iff)

lemma walk_need_le: "walk_need e b rs \<le> length rs"
  by (induction rs arbitrary: b) (auto intro: le_SucI)

lemma add_need_le: "add_need e b rs \<le> Suc (length rs)"
  using walk_need_le [of e b rs] by (simp add: add_need_def)

text \<open>
  \<open>track orig cur s en\<close>: the current list differs from the original one only between
  the indices \<open>s\<close> and \<open>en\<close>, which is what the merge loop is told.
\<close>

definition track :: "'a list \<Rightarrow> 'a list \<Rightarrow> int \<Rightarrow> int \<Rightarrow> bool" where
  "track orig cur s en \<longleftrightarrow>
     (s = -1 \<and> en = -1 \<and> cur = orig) \<or>
     (\<exists>P Q0 Q R. orig = P @ Q0 @ R \<and> cur = P @ Q @ R \<and> s = int (length P)
        \<and> en = int (length P + length Q))"

lemma track_refl [simp]: "track xs xs (-1) (-1)"
  by (simp add: track_def)

lemma track_insert:
  assumes "track orig (A @ B) s en" and "en \<le> int (length A)"
  shows "track orig (A @ x # B) (if s = -1 then int (length A) else s) (int (length A) + 1)"
proof (cases "s = -1")
  case True
  with assms(1) have "orig = A @ [] @ B" by (auto simp: track_def)
  then show ?thesis
    unfolding track_def using True
    by (intro disjI2 exI [of _ A] exI [of _ "[]"] exI [of _ "[x]"] exI [of _ B]) simp
next
  case False
  then obtain P Q0 Q R where o: "orig = P @ Q0 @ R" and c: "A @ B = P @ Q @ R"
    and s: "s = int (length P)" and en: "en = int (length P + length Q)"
    using assms(1) by (auto simp: track_def)
  have "length (P @ Q) \<le> length A" using en assms(2) by simp
  moreover from c have "A @ B = (P @ Q) @ R" by simp
  then obtain us where "A = (P @ Q) @ us \<and> us @ B = R \<or> A @ us = P @ Q \<and> B = us @ R"
    unfolding append_eq_append_conv2 by blast
  ultimately obtain R1 where A: "A = P @ Q @ R1" and R: "R = R1 @ B"
  proof (elim disjE conjE)
    assume "length (P @ Q) \<le> length A" and "A @ us = P @ Q" and "B = us @ R"
    then have "us = []" by (metis add_le_same_cancel1 le_zero_eq length_0_conv length_append)
    with \<open>A @ us = P @ Q\<close> \<open>B = us @ R\<close> that [of "[]"] show thesis by simp
  qed (use that in simp)
  show ?thesis
    unfolding track_def using False o A R s
    by (intro disjI2 exI [of _ P] exI [of _ "Q0 @ R1"] exI [of _ "Q @ R1 @ [x]"] exI [of _ B]) simp
qed

end
