(* ===== verification/Memblock_Isolate.thy ===== *)
theory Memblock_Isolate
  imports Memblock_Region_Lemmas
begin

text \<open>
  The loop of \<open>memblock_isolate_range\<close> splits the regions at both ends of the range and
  returns the indices of the regions between them; the loop of \<open>memblock_remove_range\<close>
  then deletes exactly these. On lists this is cutting at an address
  (\<open>cut_below\<close>, \<open>cut_above\<close>), whose effect on the attribute map is a restriction.
\<close>

section \<open>Cutting a list of regions at an address\<close>

definition sub_region :: "memblock_region \<Rightarrow> phys_addr \<Rightarrow> phys_addr \<Rightarrow> memblock_region" where
  "sub_region r b e = r\<lparr>rg_base := b, rg_size := e - b\<rparr>"

lemma sub_region_simps [simp]:
  "rg_base (sub_region r b e) = b" "rg_end (sub_region r b e) = e" "rg_size (sub_region r b e) = e - b"
  "rg_attr (sub_region r b e) = rg_attr r" "rg_nid (sub_region r b e) = rg_nid r"
  "rg_flags (sub_region r b e) = rg_flags r"
  "rg_has (sub_region r b e) a \<longleftrightarrow> b \<le> a \<and> a < e"
  by (simp_all add: sub_region_def rg_end_def rg_attr_def rg_has_def)

lemma sub_region_eq_record:
  "\<lparr>rg_base = b, rg_size = e - b, rg_flags = rg_flags r, rg_nid = rg_nid r\<rparr> = sub_region r b e"
  by (simp add: sub_region_def)

fun cut_below :: "phys_addr \<Rightarrow> memblock_region list \<Rightarrow> memblock_region list" where
  "cut_below b [] = []"
| "cut_below b (r # rs) =
    (if rg_end r \<le> b then r # cut_below b rs
     else if rg_base r < b then sub_region r (rg_base r) b # cut_below b rs
     else cut_below b rs)"

fun cut_above :: "phys_addr \<Rightarrow> memblock_region list \<Rightarrow> memblock_region list" where
  "cut_above e [] = []"
| "cut_above e (r # rs) =
    (if e \<le> rg_base r then r # cut_above e rs
     else if e < rg_end r then sub_region r e (rg_end r) # cut_above e rs
     else cut_above e rs)"

lemma attr_at_cut_below:
  "rchain lo rs \<Longrightarrow> attr_at (cut_below b rs) a = (if a < b then attr_at rs a else None)"
  by (induction rs arbitrary: lo) (auto simp: rg_has_def)

lemma attr_at_cut_above:
  "rchain lo rs \<Longrightarrow> attr_at (cut_above e rs) a = (if e \<le> a then attr_at rs a else None)"
  by (induction rs arbitrary: lo) (auto simp: rg_has_def)

lemma rchain_cut_below:
  "rchain lo rs \<Longrightarrow> rchain b ys \<Longrightarrow> rchain (min lo b) (cut_below b rs @ ys)"
proof (induction rs arbitrary: lo)
  case Nil
  then show ?case by (auto intro: rchain_mono)
next
  case (Cons r rs)
  then have IH: "rchain (min (rg_end r) b) (cut_below b rs @ ys)" by simp
  then show ?case using Cons.prems
    by (auto simp: min_def split: if_splits intro: rchain_mono)
qed

lemma rchain_cut_above: "rchain lo rs \<Longrightarrow> rchain (max lo e) (cut_above e rs)"
proof (induction rs arbitrary: lo)
  case (Cons r rs)
  then have IH: "rchain (max (rg_end r) e) (cut_above e rs)" by simp
  then show ?case using Cons.prems
    by (auto simp: max_def split: if_splits intro: rchain_mono)
qed simp

lemma cut_below_above_id: "rchain e rs \<Longrightarrow> cut_below e rs = [] \<and> cut_above e rs = rs"
proof -
  have "rchain lo rs \<Longrightarrow> e \<le> lo \<Longrightarrow> cut_below e rs = [] \<and> cut_above e rs = rs" for lo
  proof (induction rs arbitrary: lo)
    case (Cons r rs)
    then have "e \<le> rg_base r" "e < rg_end r" by auto
    with Cons.IH [of "rg_end r"] Cons.prems show ?case by auto
  qed simp
  then show "rchain e rs \<Longrightarrow> ?thesis" by blast
qed

section \<open>The isolation loop\<close>

text \<open>Splitting the region at an index: shrink it from below and insert its lower part.\<close>

lemma split_region_ok:
  assumes "mt_shape t" and "used t = pre @ r # rest" and "idx = length pre" and "mt_cnt t < mt_max t"
  obtains t' where
    "memblock_insert_region
       (t\<lparr>mt_regions := (mt_regions t)[idx := r\<lparr>rg_base := m, rg_size := rg_size r - (m - rg_base r)\<rparr>],
          mt_total_size := mt_total_size t - (m - rg_base r)\<rparr>)
       idx (rg_base r) (m - rg_base r) (rg_nid r) (rg_flags r) = Ret t'"
    and "used t' = pre @ sub_region r (rg_base r) m # sub_region r m (rg_end r) # rest"
    and "mt_shape t'" and "same_array t t'" and "mt_cnt t' = Suc (mt_cnt t)"
proof -
  let ?r = "sub_region r m (rg_end r)"
  have r: "r\<lparr>rg_base := m, rg_size := rg_size r - (m - rg_base r)\<rparr> = ?r"
    by (simp add: sub_region_def rg_end_def algebra_simps)
  let ?t = "t\<lparr>mt_regions := (mt_regions t)[idx := ?r], mt_total_size := mt_total_size t - (m - rg_base r)\<rparr>"
  have u: "used ?t = pre @ ?r # rest"
    using assms by (simp add: used_def take_update_swap)
  have "mt_total_size t - (m - rg_base r) = sum_list (map rg_size (pre @ ?r # rest))"
    using assms(1,2) by (simp add: mt_shape_def rg_end_def algebra_simps)
  then have sh: "mt_shape ?t" using assms(1) u by (simp add: mt_shape_def)
  show ?thesis
    using insert_region_ok [OF sh u assms(3), of "rg_base r" "m - rg_base r" "rg_nid r" "rg_flags r"]
      assms(4) that unfolding r sub_region_eq_record by (auto simp: same_array_def)
qed

text \<open>One iteration of the loop, by the position of the region.\<close>

lemma isolate_stop:
  "idx < mt_cnt t \<Longrightarrow> mt_regions t ! idx = r \<Longrightarrow> e \<le> rg_base r
    \<Longrightarrow> memblock_isolate_loop (Suc n) b e t idx s en = Ret (t, s, en)"
  by (simp add: Let_def)

lemma isolate_skip:
  "idx < mt_cnt t \<Longrightarrow> mt_regions t ! idx = r \<Longrightarrow> \<not> e \<le> rg_base r \<Longrightarrow> rg_end r \<le> b
    \<Longrightarrow> memblock_isolate_loop (Suc n) b e t idx s en = memblock_isolate_loop n b e t (Suc idx) s en"
  by (simp add: Let_def rg_end_def)

lemma isolate_inside:
  "idx < mt_cnt t \<Longrightarrow> mt_regions t ! idx = r \<Longrightarrow> \<not> e \<le> rg_base r \<Longrightarrow> \<not> rg_end r \<le> b
    \<Longrightarrow> \<not> rg_base r < b \<Longrightarrow> \<not> e < rg_end r
    \<Longrightarrow> memblock_isolate_loop (Suc n) b e t idx s en
      = memblock_isolate_loop n b e t (Suc idx) (if en = 0 then idx else s) (Suc idx)"
  by (simp add: Let_def rg_end_def)

lemma isolate_cut_low:
  assumes "mt_shape t" and "used t = pre @ r # rest" and "idx = length pre" and "mt_cnt t < mt_max t"
    and "\<not> e \<le> rg_base r" and "\<not> rg_end r \<le> b" and "rg_base r < b"
  obtains t' where
    "memblock_isolate_loop (Suc n) b e t idx s en = memblock_isolate_loop n b e t' (Suc idx) s en"
    and "used t' = pre @ sub_region r (rg_base r) b # sub_region r b (rg_end r) # rest"
    and "mt_shape t'" and "same_array t t'" and "mt_cnt t' = Suc (mt_cnt t)"
proof -
  have i: "idx < mt_cnt t" "mt_regions t ! idx = r" using nth_used_split [OF assms(1-3)] by simp_all
  show ?thesis
  proof (rule split_region_ok [OF assms(1-4), of b], rule that)
    fix t'
    assume *: "memblock_insert_region
       (t\<lparr>mt_regions := (mt_regions t)[idx := r\<lparr>rg_base := b, rg_size := rg_size r - (b - rg_base r)\<rparr>],
          mt_total_size := mt_total_size t - (b - rg_base r)\<rparr>)
       idx (rg_base r) (b - rg_base r) (rg_nid r) (rg_flags r) = Ret t'"
    show "memblock_isolate_loop (Suc n) b e t idx s en = memblock_isolate_loop n b e t' (Suc idx) s en"
      using i assms(5-) by (simp add: Let_def rg_end_def [symmetric] *)
  qed
qed

lemma isolate_cut_high:
  assumes "mt_shape t" and "used t = pre @ r # rest" and "idx = length pre" and "mt_cnt t < mt_max t"
    and "\<not> e \<le> rg_base r" and "\<not> rg_end r \<le> b" and "\<not> rg_base r < b" and "e < rg_end r"
  obtains t' where
    "memblock_isolate_loop (Suc n) b e t idx s en = memblock_isolate_loop n b e t' idx s en"
    and "used t' = pre @ sub_region r (rg_base r) e # sub_region r e (rg_end r) # rest"
    and "mt_shape t'" and "same_array t t'" and "mt_cnt t' = Suc (mt_cnt t)"
proof -
  have i: "idx < mt_cnt t" "mt_regions t ! idx = r" using nth_used_split [OF assms(1-3)] by simp_all
  show ?thesis
  proof (rule split_region_ok [OF assms(1-4), of e], rule that)
    fix t'
    assume *: "memblock_insert_region
       (t\<lparr>mt_regions := (mt_regions t)[idx := r\<lparr>rg_base := e, rg_size := rg_size r - (e - rg_base r)\<rparr>],
          mt_total_size := mt_total_size t - (e - rg_base r)\<rparr>)
       idx (rg_base r) (e - rg_base r) (rg_nid r) (rg_flags r) = Ret t'"
    show "memblock_isolate_loop (Suc n) b e t idx s en = memblock_isolate_loop n b e t' idx s en"
      using i assms(5-) by (simp add: Let_def rg_end_def [symmetric] *)
  qed
qed

lemma isolate_end:
  "\<not> idx < mt_cnt t \<Longrightarrow> memblock_isolate_loop (Suc n) b e t idx s en = Ret (t, s, en)"
  by simp

declare memblock_isolate_loop.simps [simp del]

text \<open>The indices \<open>start_rgn\<close> and \<open>end_rgn\<close> that delimit the isolated regions \<open>M\<close>.\<close>

definition mid_range :: "'a list \<Rightarrow> 'a list \<Rightarrow> nat \<times> nat" where
  "mid_range L M = (if M = [] then (0, 0) else (length L, length L + length M))"

lemma isolate_loop_mid:
  assumes "mt_shape t" and "used t = L @ M @ rs" and "rchain lo rs" and "b \<le> lo" and "b < e"
    and "mt_cnt t < mt_max t" and "length rs + 3 \<le> n" and "mid_range L M = (s, en)"
  shows "\<exists>t' s' en'. memblock_isolate_loop n b e t (length L + length M) s en = Ret (t', s', en')
    \<and> used t' = L @ (M @ cut_below e rs) @ cut_above e rs \<and> mid_range L (M @ cut_below e rs) = (s', en')
    \<and> mt_shape t' \<and> same_array t t'"
  using assms
proof (induction rs arbitrary: M n s en lo)
  case Nil
  then obtain n' where "n = Suc n'" by (cases n) auto
  moreover have "\<not> length L + length M < mt_cnt t" using Nil length_used [of t] by simp
  ultimately show ?case using Nil by (simp add: isolate_end)
next
  case (Cons r rs)
  obtain n' where n: "n = Suc (Suc (Suc n'))" "length rs + 1 \<le> n'"
    using Cons.prems(7) by (intro that [of "n - 3"]) auto
  have i: "length L + length M < mt_cnt t" "mt_regions t ! (length L + length M) = r"
    using nth_used_split [of t "L @ M" r rs "length L + length M"] Cons.prems by auto
  have r: "b \<le> rg_base r" "rg_base r < rg_end r" "\<not> rg_end r \<le> b" "\<not> rg_base r < b"
    "rchain (rg_end r) rs" using Cons.prems by auto
  have ends: "(if en = 0 then length L + length M else s) = length L" 
    using Cons.prems(8) by (auto simp: mid_range_def split: if_splits)
  consider (stop) "rg_base r \<ge> e" | (inside) "rg_base r < e" "\<not> e < rg_end r"
    | (cut) "rg_base r < e" "e < rg_end r" by fastforce
  then show ?case
  proof cases
    case stop
    have "cut_below e (r # rs) = [] \<and> cut_above e (r # rs) = r # rs"
      by (rule cut_below_above_id) (use stop r in auto)
    moreover have "memblock_isolate_loop n b e t (length L + length M) s en = Ret (t, s, en)"
      using stop i by (simp add: n isolate_stop)
    ultimately show ?thesis using Cons.prems by simp
  next
    case inside
    have "\<exists>t' s' en'. memblock_isolate_loop (Suc (Suc n')) b e t (length L + length (M @ [r])) (length L)
          (length L + length (M @ [r])) = Ret (t', s', en')
        \<and> used t' = L @ ((M @ [r]) @ cut_below e rs) @ cut_above e rs
        \<and> mid_range L ((M @ [r]) @ cut_below e rs) = (s', en') \<and> mt_shape t' \<and> same_array t t'"
      by (rule Cons.IH [OF _ _ r(5)]) (use Cons.prems n r in \<open>auto simp: mid_range_def\<close>)
    moreover have q: "\<not> e \<le> rg_base r" "\<not> e < rg_end r" "rg_end r \<le> e" using inside by auto
    ultimately show ?thesis
      using ends isolate_inside [OF i q(1) r(3,4) q(2), of "Suc (Suc n')" s en] by (simp add: n(1))
  next
    case cut
    have u: "used t = (L @ M) @ r # rs" using Cons.prems by simp
    have q: "\<not> e \<le> rg_base r" "\<not> rg_end r \<le> e" using cut by auto
    obtain t1 where t1: "memblock_isolate_loop n b e t (length L + length M) s en
        = memblock_isolate_loop (Suc (Suc n')) b e t1 (length L + length M) s en"
      "used t1 = (L @ M) @ sub_region r (rg_base r) e # sub_region r e (rg_end r) # rs"
      "mt_shape t1" "same_array t t1" "mt_cnt t1 = Suc (mt_cnt t)"
      by (rule isolate_cut_high [OF Cons.prems(1) u _ Cons.prems(6) q(1) r(3,4) cut(2),
            of "length L + length M" "Suc (Suc n')" s en, folded n(1)]) simp
    have i1: "length L + length M < mt_cnt t1" "mt_regions t1 ! (length L + length M) = sub_region r (rg_base r) e"
      using nth_used_split [OF t1(3) t1(2)] by auto
    have i2: "Suc (length L + length M) < mt_cnt t1"
      "mt_regions t1 ! Suc (length L + length M) = sub_region r e (rg_end r)"
      using nth_used_split [OF t1(3), of "L @ M @ [sub_region r (rg_base r) e]"] t1(2) by auto
    have "\<not> e \<le> b" using Cons.prems(5) by simp
    then have "memblock_isolate_loop n b e t (length L + length M) s en
        = Ret (t1, length L, Suc (length L + length M))"
      using q r(4) t1(1) ends isolate_inside [OF i1, of e b "Suc n'" s en]
        isolate_stop [OF i2, of e n' b] by simp
    moreover have "cut_below e rs = [] \<and> cut_above e rs = rs"
      by (rule cut_below_above_id) (use cut r in \<open>auto intro: rchain_mono\<close>)
    ultimately show ?thesis using t1 cut q by (simp add: mid_range_def)
  qed
qed

lemma isolate_loop_low:
  assumes "mt_shape t" and "used t = L @ rs" and "rchain lo rs" and "b < e"
    and "mt_cnt t + 2 \<le> mt_max t" and "length rs + 5 \<le> n"
  shows "\<exists>t' s' en'. memblock_isolate_loop n b e t (length L) 0 0 = Ret (t', s', en')
    \<and> used t' = (L @ cut_below b rs) @ cut_below e (cut_above b rs) @ cut_above e (cut_above b rs)
    \<and> mid_range (L @ cut_below b rs) (cut_below e (cut_above b rs)) = (s', en')
    \<and> mt_shape t' \<and> same_array t t'"
  using assms
proof (induction rs arbitrary: L n lo)
  case Nil
  then obtain n' where "n = Suc n'" by (cases n) auto
  moreover have "\<not> length L < mt_cnt t" using Nil length_used [of t] by simp
  ultimately show ?case using Nil by (simp add: isolate_end mid_range_def)
next
  case (Cons r rs)
  obtain n' where n: "n = Suc n'" "length rs + 5 \<le> n'"
    using Cons.prems(6) by (cases n) auto
  have i: "length L < mt_cnt t" "mt_regions t ! length L = r"
    using nth_used_split [of t L r rs] Cons.prems by auto
  have r: "rg_base r < rg_end r" "rchain (rg_end r) rs" using Cons.prems by auto
  consider (low) "rg_end r \<le> b" | (cut) "rg_base r < b" "b < rg_end r" | (above) "b \<le> rg_base r"
    by fastforce
  then show ?case
  proof cases
    case low
    then have "\<not> rg_base r \<ge> e" "\<not> b \<le> rg_base r" "\<not> b < rg_end r" using r Cons.prems(4) by auto
    moreover have "\<exists>t' s' en'. memblock_isolate_loop n' b e t (length (L @ [r])) 0 0 = Ret (t', s', en')
      \<and> used t' = ((L @ [r]) @ cut_below b rs) @ cut_below e (cut_above b rs) @ cut_above e (cut_above b rs)
      \<and> mid_range ((L @ [r]) @ cut_below b rs) (cut_below e (cut_above b rs)) = (s', en')
      \<and> mt_shape t' \<and> same_array t t'"
      by (rule Cons.IH) (use Cons.prems n r in auto)
    ultimately show ?thesis using low isolate_skip [OF i, of e b n' 0 0] by (simp add: n(1))
  next
    case above
    have "cut_below b (r # rs) = [] \<and> cut_above b (r # rs) = r # rs"
      by (rule cut_below_above_id) (use above r in auto)
    moreover have "\<exists>t' s' en'. memblock_isolate_loop n b e t (length L + length ([] :: memblock_region list)) 0 0 = Ret (t', s', en')
      \<and> used t' = L @ ([] @ cut_below e (r # rs)) @ cut_above e (r # rs)
      \<and> mid_range L ([] @ cut_below e (r # rs)) = (s', en') \<and> mt_shape t' \<and> same_array t t'"
      by (rule isolate_loop_mid [where lo = "rg_base r"])
        (use Cons.prems above n in \<open>auto simp: mid_range_def\<close>)
    ultimately show ?thesis by simp
  next
    case cut
    have nc: "\<not> rg_base r \<ge> e" "\<not> b \<le> rg_base r" "\<not> rg_end r \<le> b" using cut r Cons.prems(4) by auto
    obtain t1 where t1: "memblock_isolate_loop n b e t (length L) 0 0
        = memblock_isolate_loop n' b e t1 (Suc (length L)) 0 0"
      "used t1 = L @ sub_region r (rg_base r) b # sub_region r b (rg_end r) # rs"
      "mt_shape t1" "same_array t t1" "mt_cnt t1 = Suc (mt_cnt t)"
      using isolate_cut_low [OF Cons.prems(1,2) refl, of e b n' 0 0] Cons.prems(5) nc cut
      unfolding n(1) by auto
    let ?L = "L @ [sub_region r (rg_base r) b]" and ?rs = "sub_region r b (rg_end r) # rs"
    have c: "cut_below b rs = [] \<and> cut_above b rs = rs"
      by (rule cut_below_above_id) (use cut r in \<open>auto intro: rchain_mono\<close>)
    have "\<exists>t' s' en'. memblock_isolate_loop n' b e t1 (length ?L + length ([] :: memblock_region list)) 0 0 = Ret (t', s', en')
      \<and> used t' = ?L @ ([] @ cut_below e ?rs) @ cut_above e ?rs
      \<and> mid_range ?L ([] @ cut_below e ?rs) = (s', en') \<and> mt_shape t' \<and> same_array t1 t'"
      by (rule isolate_loop_mid [where lo = b])
        (use Cons.prems t1 cut n r in \<open>auto simp: mid_range_def same_array_def\<close>)
    then show ?thesis using cut c t1 nc by (auto simp: same_array_def)
  qed
qed

section \<open>The removal loop\<close>

lemma remove_loop_ok:
  assumes "mt_shape t" and "used t = L @ M @ R"
    and "L @ M @ R = [] \<longrightarrow> rg_size (mt_regions t ! 0) = 0"
  shows "used (memblock_remove_loop t (length L) (length L + length M)) = L @ R
    \<and> mt_shape (memblock_remove_loop t (length L) (length L + length M))
    \<and> same_array t (memblock_remove_loop t (length L) (length L + length M))
    \<and> (L @ R = [] \<longrightarrow> rg_size (mt_regions (memblock_remove_loop t (length L) (length L + length M)) ! 0) = 0)"
  using assms
proof (induction M arbitrary: t rule: rev_induct)
  case Nil
  then show ?case by (cases "length L") auto
next
  case (snoc m M)
  let ?t = "memblock_remove_region t (length L + length M)"
  note rm = remove_region_ok [OF snoc.prems(1), of "L @ M" m R "length L + length M"]
  have "used ?t = L @ M @ R" "mt_shape ?t" "same_array t ?t"
    "L @ M @ R = [] \<longrightarrow> rg_size (mt_regions ?t ! 0) = 0"
    using rm snoc.prems by auto
  with snoc.IH [of ?t] show ?case by (auto intro: same_array_trans)
qed

end
