(* ===== verification/Memblock_Add.thy ===== *)
theory Memblock_Add
  imports Memblock_Region_Lemmas
begin

text \<open>
  The two passes and the merge loop of \<open>memblock_add_range\<close> refine functions on lists of
  regions: the counting pass returns exactly the number of regions the inserting pass
  needs, the inserting pass covers what was not covered before and nothing else
  (\<open>attr_at_add_list\<close>), and the merge loop changes neither the covered addresses nor
  their attributes and restores minimality (\<open>merge_list_minimal_context\<close>).
\<close>

section \<open>The passes refine the walk over the list\<close>

lemma add_loop_count:
  assumes "mt_shape t" and "used t = pre @ rest" and "idx = length pre"
  shows "\<exists>idx'. memblock_add_loop False e nid fl t idx b nr s en
    = Ret (t, idx', fst (snd (add_walk e nid fl b rest)), nr + walk_need e b rest, s, en)"
  using assms
proof (induction rest arbitrary: pre idx b nr)
  case Nil
  then have "\<not> idx < mt_cnt t" using length_used [of t] by simp
  then show ?case by (simp add: memblock_add_loop.simps [of False e nid fl t idx])
next
  case (Cons r rest)
  have i: "idx < mt_cnt t" "mt_regions t ! idx = r"
    using nth_used_split [OF Cons.prems] by simp_all
  have IH: "\<exists>idx'. memblock_add_loop False e nid fl t (Suc idx) b' nr' s en
    = Ret (t, idx', fst (snd (add_walk e nid fl b' rest)), nr' + walk_need e b' rest, s, en)" for b' nr'
    using Cons.IH [of "pre @ [r]" "Suc idx" b' nr'] Cons.prems by simp
  show ?case
    using i IH [of b nr] IH [of "min (rg_end r) e" nr] IH [of "min (rg_end r) e" "Suc nr"]
    by (subst memblock_add_loop.simps)
      (auto simp: Let_def rg_end_def [symmetric] split: prod.splits)
qed

lemma add_loop_insert:
  assumes "mt_shape t" and "used t = pre @ rest" and "idx = length pre"
    and "mt_cnt t + walk_need e b rest \<le> mt_max t"
    and "track orig (used t) s en" and "en \<le> int idx" and "s = -1 \<longleftrightarrow> nr = 0"
    and "add_walk e nid fl b rest = (d, b', rem)"
  shows "\<exists>t' s' en'. memblock_add_loop True e nid fl t idx b nr s en
      = Ret (t', length pre + length d, b', nr + walk_need e b rest, s', en')
    \<and> used t' = pre @ d @ rem \<and> mt_shape t' \<and> same_array t t'
    \<and> track orig (used t') s' en' \<and> en' \<le> int (length pre + length d)
    \<and> (s' = -1 \<longleftrightarrow> nr + walk_need e b rest = 0)
    \<and> mt_cnt t' = mt_cnt t + walk_need e b rest"
  using assms
proof (induction rest arbitrary: t pre idx b nr s en d)
  case Nil
  then have "\<not> idx < mt_cnt t" using length_used [of t] by simp
  then have "memblock_add_loop True e nid fl t idx b nr s en = Ret (t, idx, b, nr, s, en)"
    by (simp add: memblock_add_loop.simps)
  with Nil show ?case by (auto simp: same_array_refl)
next
  case (Cons r rest)
  have i: "idx < mt_cnt t" "mt_regions t ! idx = r"
    using nth_used_split [OF Cons.prems(1-3)] by simp_all
  note loop = memblock_add_loop.simps [of True e nid fl t idx b nr s en]
  consider (stop) "rg_base r \<ge> e" | (skip) "\<not> rg_base r \<ge> e" "rg_end r \<le> b"
    | (ins) "\<not> rg_base r \<ge> e" "\<not> rg_end r \<le> b" "rg_base r > b"
    | (over) "\<not> rg_base r \<ge> e" "\<not> rg_end r \<le> b" "\<not> rg_base r > b" by blast
  then show ?case
  proof cases
    case stop
    then have "memblock_add_loop True e nid fl t idx b nr s en = Ret (t, idx, b, nr, s, en)"
      using i by (simp add: loop Let_def)
    with Cons.prems stop show ?thesis by auto
  next
    case skip
    obtain d' where d': "add_walk e nid fl b rest = (d', b', rem)" "d = r # d'"
      using Cons.prems(8) skip by (auto split: prod.splits)
    have "\<exists>t' s' en'. memblock_add_loop True e nid fl t (Suc idx) b nr s en
      = Ret (t', length (pre @ [r]) + length d', b', nr + walk_need e b rest, s', en')
      \<and> used t' = (pre @ [r]) @ d' @ rem \<and> mt_shape t' \<and> same_array t t'
      \<and> track orig (used t') s' en' \<and> en' \<le> int (length (pre @ [r]) + length d')
      \<and> (s' = -1 \<longleftrightarrow> nr + walk_need e b rest = 0)
      \<and> mt_cnt t' = mt_cnt t + walk_need e b rest"
      by (rule Cons.IH) (use Cons.prems skip d' in auto)
    with skip i d' show ?thesis by (simp add: loop Let_def rg_end_def)
  next
    case over
    obtain d' where d': "add_walk e nid fl (min (rg_end r) e) rest = (d', b', rem)" "d = r # d'"
      using Cons.prems(8) over by (auto split: prod.splits)
    have "\<exists>t' s' en'. memblock_add_loop True e nid fl t (Suc idx) (min (rg_end r) e) nr s en
      = Ret (t', length (pre @ [r]) + length d', b', nr + walk_need e (min (rg_end r) e) rest, s', en')
      \<and> used t' = (pre @ [r]) @ d' @ rem \<and> mt_shape t' \<and> same_array t t'
      \<and> track orig (used t') s' en' \<and> en' \<le> int (length (pre @ [r]) + length d')
      \<and> (s' = -1 \<longleftrightarrow> nr + walk_need e (min (rg_end r) e) rest = 0)
      \<and> mt_cnt t' = mt_cnt t + walk_need e (min (rg_end r) e) rest"
      by (rule Cons.IH) (use Cons.prems over d' in auto)
    with over i d' show ?thesis by (simp add: loop Let_def rg_end_def)
  next
    case ins
    obtain d' where d': "add_walk e nid fl (min (rg_end r) e) rest = (d', b', rem)"
      "d = new_region b (rg_base r) nid fl # r # d'"
      using Cons.prems(8) ins by (auto split: prod.splits)
    have room: "mt_cnt t < mt_max t" using Cons.prems(4) ins by simp
    obtain t1 where t1: "memblock_insert_region t idx b (rg_base r - b) nid fl = Ret t1"
      "used t1 = pre @ new_region b (rg_base r) nid fl # r # rest" "mt_shape t1" "same_array t t1"
      "mt_cnt t1 = Suc (mt_cnt t)"
      using insert_region_ok [OF Cons.prems(1-3) room, of b "rg_base r - b" nid fl]
      unfolding new_region_def by metis
    define s1 where "s1 = (if s = -1 then int idx else s)"
    have s1: "s1 \<noteq> -1" by (simp add: s1_def)
    have "track orig (pre @ r # rest) s en" "en \<le> int (length pre)" using Cons.prems by simp_all
    from track_insert [OF this, of "new_region b (rg_base r) nid fl"]
    have tr: "track orig (used t1) s1 (int idx + 1)" by (simp only: s1_def t1(2) Cons.prems(3))
    let ?pre = "pre @ [new_region b (rg_base r) nid fl, r]"
    have "\<exists>t' s' en'. memblock_add_loop True e nid fl t1 (idx + 2) (min (rg_end r) e) (Suc nr) s1 (int idx + 1)
      = Ret (t', length ?pre + length d', b', Suc nr + walk_need e (min (rg_end r) e) rest, s', en')
      \<and> used t' = ?pre @ d' @ rem \<and> mt_shape t' \<and> same_array t1 t'
      \<and> track orig (used t') s' en' \<and> en' \<le> int (length ?pre + length d')
      \<and> (s' = -1 \<longleftrightarrow> Suc nr + walk_need e (min (rg_end r) e) rest = 0)
      \<and> mt_cnt t' = mt_cnt t1 + walk_need e (min (rg_end r) e) rest"
      by (rule Cons.IH) (use Cons.prems ins d' t1 tr s1 in \<open>auto simp: same_array_def\<close>)
    with ins i d' t1 s1_def show ?thesis
      by (auto simp: loop Let_def rg_end_def same_array_def)
  qed
qed

lemma add_pass_count:
  assumes "mt_shape t"
  shows "memblock_add_pass False b e nid fl t = Ret (t, add_need e b (used t), -1, -1)"
proof -
  obtain idx' where "memblock_add_loop False e nid fl t 0 b 0 (-1) (-1)
    = Ret (t, idx', fst (snd (add_walk e nid fl b (used t))), walk_need e b (used t), -1, -1)"
    using add_loop_count [OF assms, of "[]" "used t" 0 e nid fl b 0 "-1" "-1"] by auto
  then show ?thesis
    by (simp add: memblock_add_pass_def add_need_def add_walk_indep [of e nid fl])
qed

lemma add_pass_insert:
  assumes "mt_shape t" and "mt_cnt t + add_need e b (used t) \<le> mt_max t"
  shows "\<exists>t' s en. memblock_add_pass True b e nid fl t = Ret (t', add_need e b (used t), s, en)
    \<and> used t' = add_list e nid fl b (used t) \<and> mt_shape t' \<and> same_array t t'
    \<and> track (used t) (used t') s en \<and> (s = -1 \<longleftrightarrow> add_need e b (used t) = 0)"
proof -
  obtain d b' rem where w: "add_walk e nid fl b (used t) = (d, b', rem)"
    by (cases "add_walk e nid fl b (used t)")
  have b': "fst (snd (add_walk e 0 0 b (used t))) = b'"
    by (metis add_walk_indep fst_conv snd_conv w)
  have "mt_cnt t + walk_need e b (used t) \<le> mt_max t"
    using assms(2) by (simp add: add_need_def)
  then obtain t1 s en where l: "memblock_add_loop True e nid fl t 0 b 0 (-1) (-1)
      = Ret (t1, length d, b', walk_need e b (used t), s, en)"
    and t1: "used t1 = d @ rem" "mt_shape t1" "same_array t t1"
    and tr: "track (used t) (used t1) s en" "en \<le> int (length d)"
      "s = -1 \<longleftrightarrow> walk_need e b (used t) = 0"
    and c: "mt_cnt t1 = mt_cnt t + walk_need e b (used t)"
    using add_loop_insert [OF assms(1), of "[]" "used t" 0 e b "used t" "-1" "-1" 0 nid fl d b' rem] w
    by auto
  show ?thesis
  proof (cases "b' < e")
    case False
    with l t1 tr w b' show ?thesis
      by (simp add: memblock_add_pass_def add_list_def add_need_def)
  next
    case True
    have room: "mt_cnt t1 < mt_max t1"
      using assms(2) c t1(3) True b' by (simp add: add_need_def same_array_def)
    obtain t2 where t2: "memblock_insert_region t1 (length d) b' (e - b') nid fl = Ret t2"
      "used t2 = d @ new_region b' e nid fl # rem" "mt_shape t2" "same_array t1 t2"
      using insert_region_ok [OF t1(2,1) refl room, of b' "e - b'" nid fl]
      unfolding new_region_def by metis
    have "track (used t) (used t2) (if s = -1 then int (length d) else s) (int (length d) + 1)"
      using track_insert [of "used t" d rem s en "new_region b' e nid fl"] tr t1(1) t2(2) by simp
    with l t1 t2 w b' True show ?thesis
      by (auto simp: memblock_add_pass_def add_list_def add_need_def intro: same_array_trans)
  qed
qed

section \<open>What the walk computes\<close>

text \<open>The range \<open>[b, e)\<close> gets the attribute \<open>v\<close> where the map has none yet.\<close>

definition add_attr :: "phys_addr \<Rightarrow> phys_addr \<Rightarrow> 'v \<Rightarrow> (phys_addr \<Rightarrow> 'v option) \<Rightarrow> phys_addr \<Rightarrow> 'v option" where
  "add_attr b e v m a = (case m a of Some w \<Rightarrow> Some w | None \<Rightarrow> if b \<le> a \<and> a < e then Some v else None)"

lemma add_list_Nil: "add_list e nid fl b [] = (if b < e then [new_region b e nid fl] else [])"
  by (simp add: add_list_def)

lemma add_list_Cons:
  "add_list e nid fl b (r # rs) =
    (if rg_base r \<ge> e then (if b < e then [new_region b e nid fl] else []) @ r # rs
     else if rg_end r \<le> b then r # add_list e nid fl b rs
     else (if rg_base r > b then [new_region b (rg_base r) nid fl] else [])
       @ r # add_list e nid fl (min (rg_end r) e) rs)"
  by (auto simp: add_list_def split: prod.splits)

lemma attr_at_add_list:
  "rchain lo rs \<Longrightarrow> b \<le> e \<Longrightarrow> attr_at (add_list e nid fl b rs) a = add_attr b e (nid, fl) (attr_at rs) a"
proof (induction rs arbitrary: lo b)
  case Nil
  then show ?case by (auto simp: add_list_Nil add_attr_def)
next
  case (Cons r rs)
  have chain: "rchain (rg_end r) rs" and ne: "rg_base r < rg_end r"
    using Cons.prems by simp_all
  have IH: "attr_at (add_list e nid fl b' rs) a = add_attr b' e (nid, fl) (attr_at rs) a"
    if "b' \<le> e" for b' using Cons.IH [OF chain that] .
  have below: "attr_at (r # rs) a = None" if "a < rg_base r"
    using rchain_attr_below [of "rg_base r" "r # rs" a] chain ne that by simp
  show ?case
  proof (cases "rg_base r \<ge> e")
    case True
    have none: "attr_at (r # rs) a = None" if "a < e"
      by (rule below) (use that True in \<open>simp add: less_le_trans\<close>)
    show ?thesis
    proof (cases "a < e")
      case True
      with none [OF True] \<open>e \<le> rg_base r\<close> show ?thesis
        by (auto simp: add_list_Cons add_attr_def attr_at_append)
    next
      case False
      with \<open>e \<le> rg_base r\<close> show ?thesis
        by (simp add: add_list_Cons add_attr_def attr_at_append split: option.splits)
    qed
  next
    case False
    define m where "m = min (rg_end r) e"
    have step: "add_list e nid fl b (r # rs) = (if rg_end r \<le> b then r # add_list e nid fl b rs
        else (if rg_base r > b then [new_region b (rg_base r) nid fl] else []) @ r # add_list e nid fl m rs)"
      using False by (simp add: add_list_Cons m_def)
    have IHm: "attr_at (add_list e nid fl m rs) a = add_attr m e (nid, fl) (attr_at rs) a"
      by (rule IH) (simp add: m_def)
    consider (skip) "rg_end r \<le> b" | (low) "b < rg_end r" "a < rg_base r"
      | (here) "b < rg_end r" "rg_has r a" | (high) "b < rg_end r" "rg_end r \<le> a"
      unfolding rg_has_def using not_le by blast
    then show ?thesis
    proof cases
      case skip
      then have "rg_has r a \<Longrightarrow> \<not> b \<le> a" by (auto simp: rg_has_def)
      with False skip IH [of b] Cons.prems show ?thesis
        by (auto simp: step add_attr_def)
    next
      case low
      have "\<not> rg_has r a" using low by (auto simp: rg_has_def)
      moreover have "attr_at rs a = None" using below [OF low(2)] calculation by simp
      moreover have "a < m" using low(2) ne False by (simp add: not_le m_def) (meson less_trans)
      ultimately have n: "\<not> rg_has r a" "attr_at rs a = None" "\<not> m \<le> a" "\<not> rg_end r \<le> b"
        using low(1) by (simp_all add: not_le)
      then show ?thesis using False low IHm
        by (auto simp: step add_attr_def)
    next
      case here
      then have "\<not> a < rg_base r" by (auto simp: rg_has_def)
      with False here show ?thesis by (simp add: step add_attr_def)
    next
      case high
      then have "\<not> rg_has r a" "\<not> a < rg_base r" "b \<le> a" "m \<le> a" "\<not> rg_end r \<le> b"
        using ne by (auto simp: rg_has_def min_le_iff_disj m_def)
      then show ?thesis using False high IHm
        by (simp add: step add_attr_def)
    qed
  qed
qed

lemma rchain_add_list:
  "rchain lo rs \<Longrightarrow> lo \<le> b \<or> b = e \<Longrightarrow> b \<le> e \<Longrightarrow> rchain lo (add_list e nid fl b rs)"
proof (induction rs arbitrary: lo b)
  case (Cons r rs)
  then show ?case by (auto simp: add_list_Cons min_def)
qed (auto simp: add_list_Nil)

section \<open>Merging\<close>

text \<open>The merge loop on lists.\<close>

definition merge_two :: "memblock_region \<Rightarrow> memblock_region \<Rightarrow> memblock_region" where
  "merge_two x y = x\<lparr>rg_size := rg_size x + rg_size y\<rparr>"

fun merge_list :: "nat \<Rightarrow> memblock_region list \<Rightarrow> memblock_region list" where
  "merge_list (Suc n) (x # y # ys) =
    (if mergeable x y then merge_list n (merge_two x y # ys) else x # merge_list n (y # ys))"
| "merge_list n rs = rs"

lemma merge_list_0 [simp]: "merge_list 0 rs = rs"
  by (cases rs) auto

lemma merge_two_simps [simp]:
  "rg_base (merge_two x y) = rg_base x" "rg_nid (merge_two x y) = rg_nid x"
  "rg_flags (merge_two x y) = rg_flags x" "rg_attr (merge_two x y) = rg_attr x"
  by (simp_all add: merge_two_def rg_attr_def)

lemma mergeable_iff: "mergeable x y \<longleftrightarrow> rg_end x = rg_base y \<and> rg_attr x = rg_attr y"
  by (auto simp: mergeable_def rg_end_def rg_attr_def)

lemma rg_end_merge_two: "mergeable x y \<Longrightarrow> rg_end (merge_two x y) = rg_end y"
  by (auto simp: mergeable_def rg_end_def merge_two_def algebra_simps)

lemma rchain_merge_list: "rchain lo rs \<Longrightarrow> rchain lo (merge_list n rs)"
proof (induction n rs arbitrary: lo rule: merge_list.induct)
  case (1 n x y ys)
  then show ?case by (auto simp: rg_end_merge_two mergeable_iff)
qed auto

lemma attr_at_merge_list: "rchain lo rs \<Longrightarrow> attr_at (merge_list n rs) = attr_at rs"
proof (induction n rs arbitrary: lo rule: merge_list.induct)
  case (1 n x y ys)
  show ?case
  proof (cases "mergeable x y")
    case True
    with 1 have "rchain lo (merge_two x y # ys)"
      by (auto simp: rg_end_merge_two mergeable_iff)
    from 1(1) [OF True this] have "attr_at (merge_list (Suc n) (x # y # ys)) = attr_at (merge_two x y # ys)"
      using True by (simp only: merge_list.simps if_True)
    also have "\<dots> = attr_at (x # y # ys)"
      using True 1(3) by (auto simp: fun_eq_iff rg_has_def rg_end_merge_two mergeable_iff)
    finally show ?thesis .
  next
    case False
    with 1(2) [OF False, of "rg_end x"] 1(3) show ?thesis by (auto simp: fun_eq_iff)
  qed
qed auto

lemma merge_list_hd:
  "rs \<noteq> [] \<Longrightarrow> merge_list n rs \<noteq> [] \<and> rg_base (hd (merge_list n rs)) = rg_base (hd rs)
    \<and> rg_attr (hd (merge_list n rs)) = rg_attr (hd rs)"
  by (induction n rs rule: merge_list.induct) auto

lemma minimal_Cons: "minimal (x # xs) \<longleftrightarrow> (xs = [] \<or> \<not> mergeable x (hd xs)) \<and> minimal xs"
  by (cases xs) auto

lemma minimal_appendD: "minimal (xs @ ys) \<Longrightarrow> minimal xs \<and> minimal ys"
  by (induction xs) (auto simp: minimal_Cons)

lemma minimal_append_cong:
  "minimal (pre @ [x]) \<Longrightarrow> minimal (y # ys) \<Longrightarrow> rg_base x = rg_base y \<Longrightarrow> rg_attr x = rg_attr y
    \<Longrightarrow> minimal (pre @ y # ys)"
proof (induction pre)
  case (Cons p pre)
  then show ?case by (cases pre) (auto simp: minimal_Cons mergeable_iff)
qed simp

lemma minimal_merge_list: "minimal (drop n rs) \<Longrightarrow> minimal (merge_list n rs)"
proof (induction n rs rule: merge_list.induct)
  case (1 n x y ys)
  show ?case
  proof (cases "mergeable x y")
    case True
    then have "minimal (drop n (merge_two x y # ys))"
      using 1(3) by (cases n) (auto simp: minimal_Cons mergeable_iff rg_end_merge_two)
    with True 1 show ?thesis by simp
  next
    case False
    with 1(2,3) merge_list_hd [of "y # ys" n] show ?thesis
      by (auto simp: minimal_Cons mergeable_iff)
  qed
qed auto

lemma merge_list_minimal_context:
  assumes "minimal (P @ Q0 @ R)" and "rs = (if P = [] then [] else [last P]) @ Q @ R"
    and "drop n rs = R \<or> length rs \<le> Suc n"
  shows "minimal (butlast P @ merge_list n rs)"
proof -
  have R: "minimal R" and P: "minimal P" using assms(1) by (auto dest: minimal_appendD)
  have "length (drop n rs) \<le> 1 \<Longrightarrow> minimal (drop n rs)"
    by (cases "drop n rs" rule: minimal.cases) auto
  with R assms(3) have "minimal (drop n rs)" by auto
  then have m: "minimal (merge_list n rs)" by (rule minimal_merge_list)
  show ?thesis
  proof (cases "P = []")
    case False
    then have "minimal (butlast P @ [last P])" using P by simp
    moreover have "merge_list n rs \<noteq> []" "rg_base (hd (merge_list n rs)) = rg_base (last P)"
      "rg_attr (hd (merge_list n rs)) = rg_attr (last P)"
      using merge_list_hd [of rs n] assms(2) False by simp_all
    ultimately show ?thesis
      using minimal_append_cong [of "butlast P" "last P" "hd (merge_list n rs)" "tl (merge_list n rs)"] m
      by simp
  qed (use m in simp)
qed

lemma merge_loop_ok:
  assumes "mt_shape t" and "used t = pre @ rs" and "i = length pre" and "rchain lo rs"
    and "n = 0 \<or> n < length rs"
  shows "\<exists>t'. memblock_merge_loop t i (i + n) = Ret t' \<and> used t' = pre @ merge_list n rs
    \<and> mt_shape t' \<and> same_array t t'"
  using assms
proof (induction n rs arbitrary: t pre i lo rule: merge_list.induct)
  case (1 n x y ys)
  have i: "i < mt_cnt t" "mt_regions t ! i = x" "mt_regions t ! Suc i = y" "Suc i < mt_cnt t"
    using nth_used_split [of t pre x "y # ys" i] nth_used_split [of t "pre @ [x]" y ys "Suc i"] 1 by auto
  have loop: "memblock_merge_loop t i (Suc (i + n)) =
      (if \<not> mergeable x y then
         if rg_end x > rg_base y then Bug else memblock_merge_loop t (Suc i) (Suc (i + n))
       else memblock_merge_loop (t\<lparr>mt_regions := memmove_arr (Suc i) (i + 2) (mt_cnt t - (i + 2))
                   ((mt_regions t)[i := x\<lparr>rg_size := rg_size x + rg_size y\<rparr>]),
                 mt_cnt := mt_cnt t - 1\<rparr>) i (i + n))"
    using i by (subst memblock_merge_loop.simps) (simp add: Let_def rg_end_def)
  show ?case
  proof (cases "mergeable x y")
    case False
    have "\<exists>t'. memblock_merge_loop t (Suc i) (Suc i + n) = Ret t' \<and> used t' = (pre @ [x]) @ merge_list n (y # ys)
        \<and> mt_shape t' \<and> same_array t t'"
      using 1(2) [OF False 1(3), of "pre @ [x]" "Suc i" "rg_end x"] 1(4-) by auto
    moreover have "\<not> rg_end x > rg_base y" using 1(6) by auto
    ultimately show ?thesis using False by (simp add: loop)
  next
    case True
    let ?t = "t\<lparr>mt_regions := memmove_arr (Suc i) (i + 2) (mt_cnt t - (i + 2))
                   ((mt_regions t)[i := x\<lparr>rg_size := rg_size x + rg_size y\<rparr>]),
                 mt_cnt := mt_cnt t - 1\<rparr>"
    have len: "length (mt_regions t) = mt_max t" "mt_cnt t \<le> mt_max t"
      using 1(3) by (simp_all add: mt_shape_def)
    have "take (mt_cnt t) ((mt_regions t)[i := merge_two x y]) = (used t)[i := merge_two x y]"
      by (simp add: used_def take_update_swap)
    also have "\<dots> = (pre @ [merge_two x y]) @ y # ys" using 1(4,5) by simp
    finally have u: "used ?t = pre @ merge_two x y # ys"
      using memmove_delete [of "mt_cnt t" "(mt_regions t)[i := merge_two x y]" "pre @ [merge_two x y]" y ys "Suc i"] 1 len
      by (simp add: used_def merge_two_def)
    have "mt_total_size t = sum_list (map rg_size (pre @ merge_two x y # ys))"
      using 1(3,4) by (simp add: mt_shape_def merge_two_def algebra_simps)
    then have sh: "mt_shape ?t" using u i len by (simp add: mt_shape_def)
    have "rchain lo (merge_two x y # ys)" using 1(6) True by (auto simp: rg_end_merge_two mergeable_iff)
    then have "\<exists>t'. memblock_merge_loop ?t i (i + n) = Ret t' \<and> used t' = pre @ merge_list n (merge_two x y # ys)
        \<and> mt_shape t' \<and> same_array ?t t'"
      using 1(1) [OF True sh u 1(5)] 1(7) by auto
    with True show ?thesis by (simp add: loop same_array_def)
  qed
qed (auto simp: memblock_merge_loop.simps)

end
