(* ===== verification/Memblock_Iter.thy ===== *)
theory Memblock_Iter
  imports Memblock_Isolate Memblock_Add
begin

text \<open>
  The allocator's state and the iterators over free memory: \<open>should_skip_region\<close>,
  \<open>__next_mem_range\<close> and \<open>__next_mem_range_rev\<close> with their packed 64-bit cursor, and the
  search functions \<open>__memblock_find_range_bottom_up\<close>, \<open>__memblock_find_range_top_down\<close>,
  \<open>memblock_find_in_range_node\<close> and \<open>memblock_find_in_range\<close> of \<open>src/mm/memblock.c\<close>.

  The cursor holds two signed 32-bit indices. The \<open>for_each\<close> macros loop until the cursor
  becomes \<open>ULLONG_MAX\<close>; the loops of the search functions carry fuel, which the callers set
  to one more than the number of ranges two arrays can give.
\<close>

unbundle bit_operations_syntax

section \<open>State\<close>

record memblock =
  mb_bottom_up :: bool
  mb_current_limit :: phys_addr
  mb_memory :: memblock_type
  mb_reserved :: memblock_type

record memblock_env = memblock +
  system_has_some_mirror :: bool
  memblock_can_resize :: bool
  memblock_memory_in_slab :: bool
  memblock_reserved_in_slab :: bool

text \<open>A pointer \<open>struct memblock_type *\<close> is one of the two arrays of the state.\<close>

datatype mb_sel = MB_memory | MB_reserved

fun get_type :: "mb_sel \<Rightarrow> 'a memblock_scheme \<Rightarrow> memblock_type" where
  "get_type MB_memory mb = mb_memory mb"
| "get_type MB_reserved mb = mb_reserved mb"

fun set_type :: "mb_sel \<Rightarrow> memblock_type \<Rightarrow> 'a memblock_scheme \<Rightarrow> 'a memblock_scheme" where
  "set_type MB_memory t mb = mb\<lparr>mb_memory := t\<rparr>"
| "set_type MB_reserved t mb = mb\<lparr>mb_reserved := t\<rparr>"

abbreviation INIT_MEMBLOCK_REGIONS :: nat where "INIT_MEMBLOCK_REGIONS \<equiv> 128"
abbreviation MEMBLOCK_ALLOC_ANYWHERE :: phys_addr where "MEMBLOCK_ALLOC_ANYWHERE \<equiv> -1"
abbreviation MEMBLOCK_ALLOC_ACCESSIBLE :: phys_addr where "MEMBLOCK_ALLOC_ACCESSIBLE \<equiv> 0"
abbreviation MEMBLOCK_ALLOC_NOLEAKTRACE :: phys_addr where "MEMBLOCK_ALLOC_NOLEAKTRACE \<equiv> 1"

text \<open>The statically initialised \<open>struct memblock\<close> and the flags beside it.\<close>

definition memblock_init :: memblock_env where
  "memblock_init =
    \<lparr>mb_bottom_up = False, mb_current_limit = MEMBLOCK_ALLOC_ANYWHERE,
     mb_memory = \<lparr>mt_cnt = 0, mt_max = INIT_MEMBLOCK_REGIONS, mt_total_size = 0,
       mt_regions = replicate INIT_MEMBLOCK_REGIONS zero_region,
       mt_ptr = Memory_Init_Regions, mt_name = ''memory''\<rparr>,
     mb_reserved = \<lparr>mt_cnt = 0, mt_max = INIT_MEMBLOCK_REGIONS, mt_total_size = 0,
       mt_regions = replicate INIT_MEMBLOCK_REGIONS zero_region,
       mt_ptr = Reserved_Init_Regions, mt_name = ''reserved''\<rparr>,
     system_has_some_mirror = False, memblock_can_resize = True,
     memblock_memory_in_slab = False, memblock_reserved_in_slab = False\<rparr>"

definition memblock_allow_resize :: "memblock_env \<Rightarrow> memblock_env" where
  "memblock_allow_resize mb = mb\<lparr>memblock_can_resize := True\<rparr>"

section \<open>Selecting regions\<close>

definition numa_valid_node :: "int \<Rightarrow> bool" where
  "numa_valid_node nid \<longleftrightarrow> nid \<ge> 0 \<and> nid < MAX_NUMNODES"

definition memblock_is_hotpluggable :: "memblock_region \<Rightarrow> bool" where
  "memblock_is_hotpluggable m \<longleftrightarrow> rg_flags m AND MEMBLOCK_HOTPLUG \<noteq> 0"

definition memblock_is_mirror :: "memblock_region \<Rightarrow> bool" where
  "memblock_is_mirror m \<longleftrightarrow> rg_flags m AND MEMBLOCK_MIRROR \<noteq> 0"

definition memblock_is_nomap :: "memblock_region \<Rightarrow> bool" where
  "memblock_is_nomap m \<longleftrightarrow> rg_flags m AND MEMBLOCK_NOMAP \<noteq> 0"

definition memblock_is_reserved_noinit :: "memblock_region \<Rightarrow> bool" where
  "memblock_is_reserved_noinit m \<longleftrightarrow> rg_flags m AND MEMBLOCK_RSRV_NOINIT \<noteq> 0"

definition memblock_is_driver_managed :: "memblock_region \<Rightarrow> bool" where
  "memblock_is_driver_managed m \<longleftrightarrow> rg_flags m AND MEMBLOCK_DRIVER_MANAGED \<noteq> 0"

definition memblock_is_kho_scratch :: "memblock_region \<Rightarrow> bool" where
  "memblock_is_kho_scratch m \<longleftrightarrow> rg_flags m AND MEMBLOCK_KHO_SCRATCH \<noteq> 0"

definition choose_memblock_flags :: "memblock_env \<Rightarrow> u32" where
  "choose_memblock_flags mb = (if system_has_some_mirror mb then MEMBLOCK_MIRROR else MEMBLOCK_NONE)"

definition should_skip_region :: "mb_sel \<Rightarrow> memblock_region \<Rightarrow> int \<Rightarrow> u32 \<Rightarrow> bool" where
  "should_skip_region type m nid flags =
    (if type \<noteq> MB_memory then False
     else if numa_valid_node nid \<and> nid \<noteq> rg_nid m then True
     else if flags AND MEMBLOCK_MIRROR \<noteq> 0 \<and> \<not> memblock_is_mirror m then True
     else if flags AND MEMBLOCK_NOMAP = 0 \<and> memblock_is_nomap m then True
     else if flags AND MEMBLOCK_DRIVER_MANAGED = 0 \<and> memblock_is_driver_managed m then True
     else if flags AND MEMBLOCK_KHO_SCRATCH \<noteq> 0 \<and> \<not> memblock_is_kho_scratch m then True
     else False)"

section \<open>The packed cursor\<close>

abbreviation ULLONG_MAX :: u64 where "ULLONG_MAX \<equiv> -1"

definition cursor_a :: "u64 \<Rightarrow> int" where
  "cursor_a idx = sint (ucast (idx AND 0xffffffff) :: u32)"

definition cursor_b :: "u64 \<Rightarrow> int" where
  "cursor_b idx = sint (ucast (drop_bit 32 idx) :: u32)"

definition pack_cursor :: "int \<Rightarrow> int \<Rightarrow> u64" where
  "pack_cursor idx_a idx_b = ucast (word_of_int idx_a :: u32) OR push_bit 32 (word_of_int idx_b :: u64)"

text \<open>The area before region \<open>idx_b\<close> of the excluding array.\<close>

definition gap_start :: "memblock_type \<Rightarrow> int \<Rightarrow> phys_addr" where
  "gap_start tb idx_b =
    (if idx_b \<noteq> 0
     then rg_base (mt_regions tb ! nat (idx_b - 1)) + rg_size (mt_regions tb ! nat (idx_b - 1))
     else 0)"

definition gap_end :: "memblock_type \<Rightarrow> int \<Rightarrow> phys_addr" where
  "gap_end tb idx_b =
    (if idx_b < int (mt_cnt tb) then rg_base (mt_regions tb ! nat idx_b) else PHYS_ADDR_MAX)"

text \<open>
  The inner loops: scan the gaps from \<open>idx_b\<close> on for one that meets \<open>[m_start, m_end)\<close>. The
  result is the final index and, if the loop returned from the function, the range and
  whether it is the region that ends first (forward) or starts last (backward).
\<close>

function next_scan ::
  "memblock_type \<Rightarrow> phys_addr \<Rightarrow> phys_addr \<Rightarrow> int \<Rightarrow> int \<times> (phys_addr \<times> phys_addr \<times> bool) option" where
  "next_scan tb m_start m_end idx_b =
    (if 0 \<le> idx_b \<and> idx_b < int (mt_cnt tb) + 1 then
       let r_start = gap_start tb idx_b; r_end = gap_end tb idx_b in
       if r_start \<ge> m_end then (idx_b, None)
       else if m_start < r_end then (idx_b, Some (max m_start r_start, min m_end r_end, m_end \<le> r_end))
       else next_scan tb m_start m_end (idx_b + 1)
     else (idx_b, None))"
  by pat_completeness auto
termination
  by (relation "measure (\<lambda>(tb, ms, me, i). nat (int (mt_cnt tb) + 1 - i))") auto

declare next_scan.simps [simp del]

function next_scan_rev ::
  "memblock_type \<Rightarrow> phys_addr \<Rightarrow> phys_addr \<Rightarrow> int \<Rightarrow> int \<times> (phys_addr \<times> phys_addr \<times> bool) option" where
  "next_scan_rev tb m_start m_end idx_b =
    (if idx_b \<ge> 0 then
       let r_start = gap_start tb idx_b; r_end = gap_end tb idx_b in
       if r_end \<le> m_start then (idx_b, None)
       else if m_end > r_start then (idx_b, Some (max m_start r_start, min m_end r_end, m_start \<ge> r_start))
       else next_scan_rev tb m_start m_end (idx_b - 1)
     else (idx_b, None))"
  by pat_completeness auto
termination
  by (relation "measure (\<lambda>(tb, ms, me, i). nat (i + 1))") auto

declare next_scan_rev.simps [simp del]

section \<open>The iterators\<close>

text \<open>
  Both return the new cursor and, unless the iteration is over, the out parameters
  \<open>out_start\<close>, \<open>out_end\<close>, \<open>out_nid\<close>. The comparison \<open>idx_a < type_a->cnt\<close> is between an
  \<open>int\<close> and an \<open>unsigned long\<close>: it fails for a negative index.
\<close>

function next_mem_range_loop ::
  "memblock_env \<Rightarrow> int \<Rightarrow> u32 \<Rightarrow> mb_sel \<Rightarrow> mb_sel option \<Rightarrow> int \<Rightarrow> int
    \<Rightarrow> u64 \<times> (phys_addr \<times> phys_addr \<times> int) option" where
  "next_mem_range_loop mb nid flags type_a type_b idx_a idx_b =
    (if 0 \<le> idx_a \<and> idx_a < int (mt_cnt (get_type type_a mb)) then
       let m = mt_regions (get_type type_a mb) ! nat idx_a;
           m_start = rg_base m; m_end = rg_base m + rg_size m; m_nid = rg_nid m in
       if should_skip_region type_a m nid flags then
         next_mem_range_loop mb nid flags type_a type_b (idx_a + 1) idx_b
       else (case type_b of
           None \<Rightarrow> (pack_cursor (idx_a + 1) idx_b, Some (m_start, m_end, m_nid))
         | Some sb \<Rightarrow>
             (case next_scan (get_type sb mb) m_start m_end idx_b of
                (idx_b', Some (out_start, out_end, a_first)) \<Rightarrow>
                  (if a_first then pack_cursor (idx_a + 1) idx_b' else pack_cursor idx_a (idx_b' + 1),
                   Some (out_start, out_end, m_nid))
              | (idx_b', None) \<Rightarrow>
                  next_mem_range_loop mb nid flags type_a type_b (idx_a + 1) idx_b'))
     else (ULLONG_MAX, None))"
  by pat_completeness auto
termination
  by (relation "measure (\<lambda>(mb, nid, fl, a, b, i, j). nat (int (mt_cnt (get_type a mb)) - i))") auto

declare next_mem_range_loop.simps [simp del]

definition next_mem_range ::
  "memblock_env \<Rightarrow> u64 \<Rightarrow> int \<Rightarrow> u32 \<Rightarrow> mb_sel \<Rightarrow> mb_sel option
    \<Rightarrow> u64 \<times> (phys_addr \<times> phys_addr \<times> int) option" where
  "next_mem_range mb idx nid flags type_a type_b =
    next_mem_range_loop mb nid flags type_a type_b (cursor_a idx) (cursor_b idx)"

function next_mem_range_rev_loop ::
  "memblock_env \<Rightarrow> int \<Rightarrow> u32 \<Rightarrow> mb_sel \<Rightarrow> mb_sel option \<Rightarrow> int \<Rightarrow> int
    \<Rightarrow> u64 \<times> (phys_addr \<times> phys_addr \<times> int) option" where
  "next_mem_range_rev_loop mb nid flags type_a type_b idx_a idx_b =
    (if idx_a \<ge> 0 then
       let m = mt_regions (get_type type_a mb) ! nat idx_a;
           m_start = rg_base m; m_end = rg_base m + rg_size m; m_nid = rg_nid m in
       if should_skip_region type_a m nid flags then
         next_mem_range_rev_loop mb nid flags type_a type_b (idx_a - 1) idx_b
       else (case type_b of
           None \<Rightarrow> (pack_cursor (idx_a - 1) idx_b, Some (m_start, m_end, m_nid))
         | Some sb \<Rightarrow>
             (case next_scan_rev (get_type sb mb) m_start m_end idx_b of
                (idx_b', Some (out_start, out_end, a_last)) \<Rightarrow>
                  (if a_last then pack_cursor (idx_a - 1) idx_b' else pack_cursor idx_a (idx_b' - 1),
                   Some (out_start, out_end, m_nid))
              | (idx_b', None) \<Rightarrow>
                  next_mem_range_rev_loop mb nid flags type_a type_b (idx_a - 1) idx_b'))
     else (ULLONG_MAX, None))"
  by pat_completeness auto
termination
  by (relation "measure (\<lambda>(mb, nid, fl, a, b, i, j). nat (i + 1))") auto

declare next_mem_range_rev_loop.simps [simp del]

definition next_mem_range_rev ::
  "memblock_env \<Rightarrow> u64 \<Rightarrow> int \<Rightarrow> u32 \<Rightarrow> mb_sel \<Rightarrow> mb_sel option
    \<Rightarrow> u64 \<times> (phys_addr \<times> phys_addr \<times> int) option" where
  "next_mem_range_rev mb idx nid flags type_a type_b =
    (if idx = ULLONG_MAX
     then next_mem_range_rev_loop mb nid flags type_a type_b (int (mt_cnt (get_type type_a mb)) - 1)
            (case type_b of None \<Rightarrow> 0 | Some sb \<Rightarrow> int (mt_cnt (get_type sb mb)))
     else next_mem_range_rev_loop mb nid flags type_a type_b (cursor_a idx) (cursor_b idx))"

section \<open>Searching for a free area\<close>

definition clamp :: "phys_addr \<Rightarrow> phys_addr \<Rightarrow> phys_addr \<Rightarrow> phys_addr" where
  "clamp val lo hi = (if val \<ge> hi then hi else if val \<le> lo then lo else val)"

text \<open>
  The \<open>for_each_free_mem_range\<close> and \<open>for_each_free_mem_range_reverse\<close> loops of the two
  search functions; \<open>i\<close> is the cursor before the call of the iterator.
\<close>

fun find_range_bottom_up_loop ::
  "nat \<Rightarrow> memblock_env \<Rightarrow> u64 \<Rightarrow> phys_addr \<Rightarrow> phys_addr \<Rightarrow> phys_addr \<Rightarrow> phys_addr \<Rightarrow> int \<Rightarrow> u32
    \<Rightarrow> phys_addr outcome" where
  "find_range_bottom_up_loop 0 mb i start end size' align nid flags = NoFuel"
| "find_range_bottom_up_loop (Suc n) mb i start end size' align nid flags =
    (case next_mem_range mb i nid flags MB_memory (Some MB_reserved) of
       (i', None) \<Rightarrow> Ret 0
     | (i', Some (this_start0, this_end0, _)) \<Rightarrow>
         if i' = ULLONG_MAX then Ret 0
         else
           let this_start = clamp this_start0 start end; this_end = clamp this_end0 start end;
               cand = round_up this_start align in
           if cand < this_end \<and> this_end - cand \<ge> size' then Ret cand
           else find_range_bottom_up_loop n mb i' start end size' align nid flags)"

definition memblock_find_range_bottom_up ::
  "memblock_env \<Rightarrow> phys_addr \<Rightarrow> phys_addr \<Rightarrow> phys_addr \<Rightarrow> phys_addr \<Rightarrow> int \<Rightarrow> u32 \<Rightarrow> phys_addr outcome" where
  "memblock_find_range_bottom_up mb start end size' align nid flags =
    find_range_bottom_up_loop (mt_cnt (mb_memory mb) + mt_cnt (mb_reserved mb) + 3)
      mb 0 start end size' align nid flags"

fun find_range_top_down_loop ::
  "nat \<Rightarrow> memblock_env \<Rightarrow> u64 \<Rightarrow> phys_addr \<Rightarrow> phys_addr \<Rightarrow> phys_addr \<Rightarrow> phys_addr \<Rightarrow> int \<Rightarrow> u32
    \<Rightarrow> phys_addr outcome" where
  "find_range_top_down_loop 0 mb i start end size' align nid flags = NoFuel"
| "find_range_top_down_loop (Suc n) mb i start end size' align nid flags =
    (case next_mem_range_rev mb i nid flags MB_memory (Some MB_reserved) of
       (i', None) \<Rightarrow> Ret 0
     | (i', Some (this_start0, this_end0, _)) \<Rightarrow>
         if i' = ULLONG_MAX then Ret 0
         else
           let this_start = clamp this_start0 start end; this_end = clamp this_end0 start end in
           if this_end < size' then find_range_top_down_loop n mb i' start end size' align nid flags
           else
             let cand = round_down (this_end - size') align in
             if cand \<ge> this_start then Ret cand
             else find_range_top_down_loop n mb i' start end size' align nid flags)"

definition memblock_find_range_top_down ::
  "memblock_env \<Rightarrow> phys_addr \<Rightarrow> phys_addr \<Rightarrow> phys_addr \<Rightarrow> phys_addr \<Rightarrow> int \<Rightarrow> u32 \<Rightarrow> phys_addr outcome" where
  "memblock_find_range_top_down mb start end size' align nid flags =
    find_range_top_down_loop (mt_cnt (mb_memory mb) + mt_cnt (mb_reserved mb) + 3)
      mb ULLONG_MAX start end size' align nid flags"

definition memblock_find_in_range_node ::
  "memblock_env \<Rightarrow> phys_addr \<Rightarrow> phys_addr \<Rightarrow> phys_addr \<Rightarrow> phys_addr \<Rightarrow> int \<Rightarrow> u32 \<Rightarrow> phys_addr outcome" where
  "memblock_find_in_range_node mb size' align start end nid flags =
    (let end1 = (if end = MEMBLOCK_ALLOC_ACCESSIBLE \<or> end = MEMBLOCK_ALLOC_NOLEAKTRACE
                 then mb_current_limit mb else end);
         start2 = max start PAGE_SIZE;
         end2 = max start2 end1 in
     if mb_bottom_up mb then memblock_find_range_bottom_up mb start2 end2 size' align nid flags
     else memblock_find_range_top_down mb start2 end2 size' align nid flags)"

definition memblock_find_in_range ::
  "memblock_env \<Rightarrow> phys_addr \<Rightarrow> phys_addr \<Rightarrow> phys_addr \<Rightarrow> phys_addr \<Rightarrow> phys_addr outcome" where
  "memblock_find_in_range mb start end size' align =
    (let flags = choose_memblock_flags mb in
     obind (memblock_find_in_range_node mb size' align start end NUMA_NO_NODE flags)
       (\<lambda>ret. if ret = 0 \<and> flags AND MEMBLOCK_MIRROR \<noteq> 0
          then memblock_find_in_range_node mb size' align start end NUMA_NO_NODE
                 (flags AND NOT MEMBLOCK_MIRROR)
          else Ret ret))"

section \<open>The loops over free memory\<close>

text \<open>The ranges a \<open>for_each_free_mem_range\<close> loop visits, from cursor \<open>i\<close> on.\<close>

fun for_each_free_mem_range :: "nat \<Rightarrow> memblock_env \<Rightarrow> u64 \<Rightarrow> int \<Rightarrow> u32
    \<Rightarrow> (phys_addr \<times> phys_addr \<times> int) list outcome" where
  "for_each_free_mem_range 0 mb i nid flags = NoFuel"
| "for_each_free_mem_range (Suc n) mb i nid flags =
    (case next_mem_range mb i nid flags MB_memory (Some MB_reserved) of
       (i', None) \<Rightarrow> Ret []
     | (i', Some r) \<Rightarrow>
         if i' = ULLONG_MAX then Ret []
         else obind (for_each_free_mem_range n mb i' nid flags) (\<lambda>rs. Ret (r # rs)))"

fun for_each_free_mem_range_reverse :: "nat \<Rightarrow> memblock_env \<Rightarrow> u64 \<Rightarrow> int \<Rightarrow> u32
    \<Rightarrow> (phys_addr \<times> phys_addr \<times> int) list outcome" where
  "for_each_free_mem_range_reverse 0 mb i nid flags = NoFuel"
| "for_each_free_mem_range_reverse (Suc n) mb i nid flags =
    (case next_mem_range_rev mb i nid flags MB_memory (Some MB_reserved) of
       (i', None) \<Rightarrow> Ret []
     | (i', Some r) \<Rightarrow>
         if i' = ULLONG_MAX then Ret []
         else obind (for_each_free_mem_range_reverse n mb i' nid flags) (\<lambda>rs. Ret (r # rs)))"

end
