(* ===== verification/Memblock_Find.thy ===== *)
theory Memblock_Find
  imports Memblock_Iter
begin

text \<open>
  The iterators over free memory enumerate exactly the intersections of the selected
  memory regions with the gaps between reserved regions (\<open>isect_sound\<close>,
  \<open>isect_complete\<close> and their mirror images); the packed cursor survives packing
  (\<open>cursor_pack\<close>) and never equals the end marker while ranges are left. The searches
  therefore return (their fuel is enough), what they return is free, aligned and in
  bounds, and the top-down search returns the highest such block.
\<close>

unbundle bit_operations_syntax

section \<open>Gaps between reserved regions\<close>

type_synonym range = "phys_addr \<times> phys_addr"

fun gaps_of :: "phys_addr \<Rightarrow> memblock_region list \<Rightarrow> range list" where
  "gaps_of lo [] = [(lo, PHYS_ADDR_MAX)]"
| "gaps_of lo (r # rs) = (lo, rg_base r) # gaps_of (rg_end r) rs"

lemma length_gaps_of [simp]: "length (gaps_of lo rs) = Suc (length rs)"
  by (induction rs arbitrary: lo) auto

lemma gaps_of_nth:
  "j \<le> length rs \<Longrightarrow> gaps_of lo rs ! j =
    (if j = 0 then lo else rg_end (rs ! (j - 1)), if j < length rs then rg_base (rs ! j) else PHYS_ADDR_MAX)"
proof (induction rs arbitrary: lo j)
  case (Cons r rs)
  then show ?case by (cases j) (auto simp: nth_Cons')
qed simp

lemma gap_nth:
  assumes "mt_shape tb" and "j \<le> mt_cnt tb"
  shows "gaps_of 0 (used tb) ! j = (gap_start tb (int j), gap_end tb (int j))"
proof -
  have "j > 0 \<Longrightarrow> nat (int j - 1) = j - 1" by simp
  moreover have "j > 0 \<Longrightarrow> mt_regions tb ! (j - 1) = used tb ! (j - 1)"
    using assms used_nth [of tb "j - 1"] by simp
  moreover have "j < mt_cnt tb \<Longrightarrow> mt_regions tb ! j = used tb ! j"
    using assms used_nth [of tb j] by simp
  ultimately show ?thesis using assms
    by (auto simp: gaps_of_nth length_used gap_start_def gap_end_def rg_end_def)
qed

lemma drop_gaps:
  assumes "mt_shape tb" and "j \<le> mt_cnt tb"
  shows "drop j (gaps_of 0 (used tb)) = (gap_start tb (int j), gap_end tb (int j)) # drop (Suc j) (gaps_of 0 (used tb))"
  using assms gap_nth [OF assms] by (simp add: Cons_nth_drop_Suc [symmetric] length_used)

section \<open>The forward iterator\<close>

text \<open>The lockstep walk of \<open>__next_mem_range\<close> on lists of regions and gaps.\<close>

fun isect :: "(memblock_region \<Rightarrow> bool) \<Rightarrow> memblock_region list \<Rightarrow> range list
    \<Rightarrow> (phys_addr \<times> phys_addr \<times> int) list" where
  "isect sk [] gs = []"
| "isect sk (m # ms) [] = isect sk ms []"
| "isect sk (m # ms) ((rs, re) # gs) =
    (if sk m \<or> rs \<ge> rg_end m then isect sk ms ((rs, re) # gs)
     else if rg_base m < re then
       (max (rg_base m) rs, min (rg_end m) re, rg_nid m)
         # (if rg_end m \<le> re then isect sk ms ((rs, re) # gs) else isect sk (m # ms) gs)
     else isect sk (m # ms) gs)"

lemma next_scan_isect:
  assumes "mt_shape tb" and "b \<le> Suc (mt_cnt tb)" and "\<not> sk m" and "G = gaps_of 0 (used tb)"
  shows "\<exists>b' r. next_scan tb (rg_base m) (rg_end m) (int b) = (int b', r) \<and> b' \<le> Suc (mt_cnt tb) \<and>
    (case r of None \<Rightarrow> isect sk (m # ms) (drop b G) = isect sk ms (drop b' G)
     | Some (s, e, f) \<Rightarrow> b' \<le> mt_cnt tb \<and> isect sk (m # ms) (drop b G) = (s, e, rg_nid m) #
         (if f then isect sk ms (drop b' G) else isect sk (m # ms) (drop (Suc b') G)))"
  using assms(2)
proof (induction "Suc (mt_cnt tb) - b" arbitrary: b)
  case 0
  then have "b = Suc (mt_cnt tb)" by simp
  moreover have "drop (Suc (mt_cnt tb)) G = []" using assms(1,4) by (simp add: length_used)
  ultimately show ?case by (subst next_scan.simps) (auto intro!: exI [of _ b])
next
  case (Suc k)
  then have b: "b \<le> mt_cnt tb" by simp
  have IH: "\<exists>b' r. next_scan tb (rg_base m) (rg_end m) (int b + 1) = (int b', r) \<and> b' \<le> Suc (mt_cnt tb) \<and>
    (case r of None \<Rightarrow> isect sk (m # ms) (drop (Suc b) G) = isect sk ms (drop b' G)
     | Some (s, e, f) \<Rightarrow> b' \<le> mt_cnt tb \<and> isect sk (m # ms) (drop (Suc b) G) = (s, e, rg_nid m) #
         (if f then isect sk ms (drop b' G) else isect sk (m # ms) (drop (Suc b') G)))"
    using Suc(1) [of "Suc b"] Suc(2) b by (simp add: add.commute)
  note d = drop_gaps [OF assms(1) b, folded assms(4)]
  have c: "0 \<le> int b \<and> int b < int (mt_cnt tb) + 1" using b by simp
  show ?case
  proof (cases "rg_end m \<le> gap_start tb (int b)")
    case True
    then have "next_scan tb (rg_base m) (rg_end m) (int b) = (int b, None)"
      using c by (subst next_scan.simps) (simp add: Let_def)
    with True b assms(3) show ?thesis by (auto simp: d)
  next
    case False
    show ?thesis
    proof (cases "rg_base m < gap_end tb (int b)")
      case True
      with False have "next_scan tb (rg_base m) (rg_end m) (int b) = (int b,
          Some (max (rg_base m) (gap_start tb (int b)), min (rg_end m) (gap_end tb (int b)),
                rg_end m \<le> gap_end tb (int b)))"
        using c by (subst next_scan.simps) (simp add: Let_def)
      with True False b assms(3) show ?thesis by (auto simp: d)
    next
      case f: False
      have "next_scan tb (rg_base m) (rg_end m) (int b) = next_scan tb (rg_base m) (rg_end m) (int b + 1)"
        using False f c by (subst next_scan.simps) (simp add: Let_def)
      moreover have "isect sk (m # ms) (drop b G) = isect sk (m # ms) (drop (Suc b) G)"
        using False f assms(3) by (simp add: d)
      ultimately show ?thesis using IH by (simp only:)
    qed
  qed
qed

text \<open>Both arrays are well formed and their indices fit the signed halves of the cursor.\<close>

definition wf_iter :: "memblock_env \<Rightarrow> bool" where
  "wf_iter mb \<longleftrightarrow> mt_wf (mb_memory mb) \<and> mt_wf (mb_reserved mb)
     \<and> mt_cnt (mb_memory mb) + 2 \<le> 2 ^ 31 \<and> mt_cnt (mb_reserved mb) + 2 \<le> 2 ^ 31"

definition free_ranges :: "memblock_env \<Rightarrow> int \<Rightarrow> u32 \<Rightarrow> nat \<Rightarrow> nat \<Rightarrow> (phys_addr \<times> phys_addr \<times> int) list" where
  "free_ranges mb nid fl a b = isect (\<lambda>m. should_skip_region MB_memory m nid fl)
     (drop a (used (mb_memory mb))) (drop b (gaps_of 0 (used (mb_reserved mb))))"

lemma next_loop_isect:
  assumes "mt_shape (mb_memory mb)" "mt_shape (mb_reserved mb)"
    and "a \<le> mt_cnt (mb_memory mb)" and "b \<le> Suc (mt_cnt (mb_reserved mb))"
  shows "case free_ranges mb nid fl a b of
     [] \<Rightarrow> next_mem_range_loop mb nid fl MB_memory (Some MB_reserved) (int a) (int b) = (ULLONG_MAX, None)
   | r # rest \<Rightarrow> (\<exists>a' b'. next_mem_range_loop mb nid fl MB_memory (Some MB_reserved) (int a) (int b)
          = (pack_cursor (int a') (int b'), Some r)
        \<and> free_ranges mb nid fl a' b' = rest
        \<and> a' \<le> mt_cnt (mb_memory mb) \<and> b' \<le> Suc (mt_cnt (mb_reserved mb)))"
  using assms(3,4)
proof (induction "mt_cnt (mb_memory mb) - a" arbitrary: a b)
  case 0
  then have "a = mt_cnt (mb_memory mb)" by simp
  then have "free_ranges mb nid fl a b = []" by (simp add: free_ranges_def length_used assms(1))
  moreover have "next_mem_range_loop mb nid fl MB_memory (Some MB_reserved) (int a) (int b) = (ULLONG_MAX, None)"
    using \<open>a = _\<close> by (subst next_mem_range_loop.simps) simp
  ultimately show ?case by simp
next
  case (Suc k)
  then have a: "a < mt_cnt (mb_memory mb)" by simp
  define m where "m = mt_regions (mb_memory mb) ! a"
  let ?sk = "\<lambda>m. should_skip_region MB_memory m nid fl"
  let ?G = "gaps_of 0 (used (mb_reserved mb))"
  have d: "drop a (used (mb_memory mb)) = m # drop (Suc a) (used (mb_memory mb))"
    using a assms(1) used_nth [OF assms(1) a] by (simp add: m_def Cons_nth_drop_Suc length_used)
  have "k = mt_cnt (mb_memory mb) - Suc a" "Suc a \<le> mt_cnt (mb_memory mb)" using Suc(2) a by simp_all
  note IH = Suc(1) [OF this]
  have i: "0 \<le> int a \<and> int a < int (mt_cnt (get_type MB_memory mb))" "nat (int a) = a" using a by simp_all
  have loop: "next_mem_range_loop mb nid fl MB_memory (Some MB_reserved) (int a) (int b) =
    (if ?sk m then next_mem_range_loop mb nid fl MB_memory (Some MB_reserved) (int a + 1) (int b)
     else (case next_scan (mb_reserved mb) (rg_base m) (rg_end m) (int b) of
                (idx_b', Some (out_start, out_end, a_first)) \<Rightarrow>
                  (if a_first then pack_cursor (int a + 1) idx_b' else pack_cursor (int a) (idx_b' + 1),
                   Some (out_start, out_end, rg_nid m))
              | (idx_b', None) \<Rightarrow>
                  next_mem_range_loop mb nid fl MB_memory (Some MB_reserved) (int a + 1) idx_b'))"
    using i by (subst next_mem_range_loop.simps) (simp add: Let_def m_def rg_end_def)
  have one: "int a + 1 = int (Suc a)" by simp
  note loop = loop [unfolded one]
  show ?case
  proof (cases "?sk m")
    case True
    then have "free_ranges mb nid fl a b = free_ranges mb nid fl (Suc a) b"
      by (cases "drop b ?G") (auto simp: free_ranges_def d)
    moreover have "next_mem_range_loop mb nid fl MB_memory (Some MB_reserved) (int a) (int b)
        = next_mem_range_loop mb nid fl MB_memory (Some MB_reserved) (int (Suc a)) (int b)"
      by (simp only: loop True if_True)
    ultimately show ?thesis using IH [OF Suc(4)] by (simp only:)
  next
    case False
    obtain b' r where s: "next_scan (mb_reserved mb) (rg_base m) (rg_end m) (int b) = (int b', r)"
      "b' \<le> Suc (mt_cnt (mb_reserved mb))"
      "case r of None \<Rightarrow> free_ranges mb nid fl a b = free_ranges mb nid fl (Suc a) b'
       | Some (s, e, f) \<Rightarrow> b' \<le> mt_cnt (mb_reserved mb) \<and> free_ranges mb nid fl a b = (s, e, rg_nid m) #
         (if f then free_ranges mb nid fl (Suc a) b' else free_ranges mb nid fl a (Suc b'))"
      using next_scan_isect [of "mb_reserved mb" b ?sk m ?G "drop (Suc a) (used (mb_memory mb))",
          OF assms(2) Suc(4) False refl]
      unfolding free_ranges_def d by blast
    show ?thesis
    proof (cases r)
      case None
      then have "next_mem_range_loop mb nid fl MB_memory (Some MB_reserved) (int a) (int b)
        = next_mem_range_loop mb nid fl MB_memory (Some MB_reserved) (int (Suc a)) (int b')"
        using s(1) False by (simp only: loop prod.case option.case if_False)
      moreover have "free_ranges mb nid fl a b = free_ranges mb nid fl (Suc a) b'" using s(3) None by simp
      ultimately show ?thesis using IH [OF s(2)] by (simp only:)
    next
      case (Some x)
      obtain s0 e0 f where x: "x = (s0, e0, f)" by (cases x)
      have "int b' + 1 = int (Suc b')" by simp
      then have l: "next_mem_range_loop mb nid fl MB_memory (Some MB_reserved) (int a) (int b) =
         (if f then pack_cursor (int (Suc a)) (int b') else pack_cursor (int a) (int (Suc b')), Some (s0, e0, rg_nid m))"
        using s(1) Some x False by (simp only: loop prod.case option.case if_False)
      have fr: "b' \<le> mt_cnt (mb_reserved mb)" "free_ranges mb nid fl a b = (s0, e0, rg_nid m) #
         (if f then free_ranges mb nid fl (Suc a) b' else free_ranges mb nid fl a (Suc b'))"
        using s(3) Some x by simp_all
      show ?thesis
      proof (cases f)
        case True
        then show ?thesis using fr a s(2) unfolding l
          by (simp del: of_nat_Suc) (rule exI [of _ "Suc a"], rule exI [of _ b'], simp)
      next
        case False
        then show ?thesis using fr a unfolding l
          by (simp del: of_nat_Suc) (rule exI [of _ a], rule exI [of _ "Suc b'"], simp)
      qed
    qed
  qed
qed

section \<open>The packed cursor and the searches\<close>

lemma sint_word_of_int32:
  assumes "- (2 ^ 31) \<le> a" and "a < 2 ^ 31"
  shows "sint (word_of_int a :: u32) = a"
proof -
  have "sint (word_of_int a :: u32) = signed_take_bit 31 a" by (simp add: sint_sbintrunc')
  also have "\<dots> = a" by (rule signed_take_bit_int_eq_self) (use assms in simp_all)
  finally show ?thesis .
qed

lemma cursor_pack:
  assumes "- (2 ^ 31) \<le> a" "a < 2 ^ 31" "- (2 ^ 31) \<le> b" "b < 2 ^ 31"
  shows "cursor_a (pack_cursor a b) = a" and "cursor_b (pack_cursor a b) = b"
proof -
  have m: "(0xffffffff :: u64) = mask 32" by (simp add: mask_eq_exp_minus_1)
  have "(ucast (pack_cursor a b AND 0xffffffff) :: u32) = word_of_int a"
    unfolding pack_cursor_def m by (rule bit_word_eqI) (auto simp: bit_simps)
  then show "cursor_a (pack_cursor a b) = a"
    unfolding cursor_a_def using sint_word_of_int32 [OF assms(1,2)] by (simp only:)
  have "(ucast (drop_bit 32 (pack_cursor a b)) :: u32) = word_of_int b"
    unfolding pack_cursor_def by (rule bit_word_eqI) (auto simp: bit_simps)
  then show "cursor_b (pack_cursor a b) = b"
    unfolding cursor_b_def using sint_word_of_int32 [OF assms(3,4)] by (simp only:)
qed

lemma cursor_minus_1: "cursor_a ULLONG_MAX = -1" "cursor_b ULLONG_MAX = -1"
proof -
  have "(ucast (mask 32 :: u64) :: u32) = -1" by (rule bit_word_eqI) (simp add: bit_simps)
  then show "cursor_a ULLONG_MAX = -1" "cursor_b ULLONG_MAX = -1"
    by (simp_all add: cursor_a_def cursor_b_def mask_eq_exp_minus_1)
qed

lemma pack_not_end:
  assumes "- (2 ^ 31) \<le> a" "a < 2 ^ 31" "- (2 ^ 31) \<le> b" "b < 2 ^ 31" "0 \<le> a \<or> 0 \<le> b"
  shows "pack_cursor a b \<noteq> ULLONG_MAX"
  using cursor_pack [OF assms(1-4)] assms(5) cursor_minus_1 by auto

lemma pack_0: "pack_cursor 0 0 = 0"
  by (simp add: pack_cursor_def)

lemma length_isect: "length (isect sk ms gs) \<le> length ms + length gs"
  by (induction sk ms gs rule: isect.induct) auto

fun search_up :: "phys_addr \<Rightarrow> phys_addr \<Rightarrow> phys_addr \<Rightarrow> phys_addr
    \<Rightarrow> (phys_addr \<times> phys_addr \<times> int) list \<Rightarrow> phys_addr" where
  "search_up start end size' align [] = 0"
| "search_up start end size' align ((s, e, x) # rest) =
    (let cand = round_up (clamp s start end) align; this_end = clamp e start end in
     if cand < this_end \<and> this_end - cand \<ge> size' then cand
     else search_up start end size' align rest)"

fun search_down :: "phys_addr \<Rightarrow> phys_addr \<Rightarrow> phys_addr \<Rightarrow> phys_addr
    \<Rightarrow> (phys_addr \<times> phys_addr \<times> int) list \<Rightarrow> phys_addr" where
  "search_down start end size' align [] = 0"
| "search_down start end size' align ((s, e, x) # rest) =
    (let this_end = clamp e start end in
     if size' \<le> this_end \<and> clamp s start end \<le> round_down (this_end - size') align
     then round_down (this_end - size') align
     else search_down start end size' align rest)"

lemma find_bottom_up_search:
  assumes "wf_iter mb" and "a \<le> mt_cnt (mb_memory mb)" and "b \<le> Suc (mt_cnt (mb_reserved mb))"
    and "length (free_ranges mb nid fl a b) < n"
  shows "find_range_bottom_up_loop n mb (pack_cursor (int a) (int b)) start end size' align nid fl
    = Ret (search_up start end size' align (free_ranges mb nid fl a b))"
  using assms(2-)
proof (induction n arbitrary: a b)
  case (Suc n)
  have sh: "mt_shape (mb_memory mb)" "mt_shape (mb_reserved mb)"
    using assms(1) by (simp_all add: wf_iter_def mt_wf_def)
  have bnd: "- (2 ^ 31) \<le> int a'" "int a' < 2 ^ 31" "- (2 ^ 31) \<le> int b'" "int b' < 2 ^ 31"
    if "a' \<le> mt_cnt (mb_memory mb)" "b' \<le> Suc (mt_cnt (mb_reserved mb))" for a' b'
    using that assms(1) by (simp_all add: wf_iter_def)
  have nx: "next_mem_range mb (pack_cursor (int a) (int b)) nid fl MB_memory (Some MB_reserved)
      = next_mem_range_loop mb nid fl MB_memory (Some MB_reserved) (int a) (int b)"
    using cursor_pack [OF bnd [OF Suc.prems(1,2)]] by (simp add: next_mem_range_def)
  note step = next_loop_isect [OF sh Suc.prems(1,2), of nid fl]
  show ?case
  proof (cases "free_ranges mb nid fl a b")
    case Nil
    with step nx show ?thesis by simp
  next
    case (Cons r rest)
    then obtain a' b' where l: "next_mem_range_loop mb nid fl MB_memory (Some MB_reserved) (int a) (int b)
          = (pack_cursor (int a') (int b'), Some r)" "free_ranges mb nid fl a' b' = rest"
        "a' \<le> mt_cnt (mb_memory mb)" "b' \<le> Suc (mt_cnt (mb_reserved mb))"
      using step by auto
    have ne: "pack_cursor (int a') (int b') \<noteq> ULLONG_MAX"
      by (rule pack_not_end [OF bnd [OF l(3,4)]]) simp
    have IH: "find_range_bottom_up_loop n mb (pack_cursor (int a') (int b')) start end size' align nid fl
      = Ret (search_up start end size' align rest)"
      using Suc.IH [OF l(3,4)] l(2) Suc.prems(3) Cons by simp
    obtain s e x where "r = (s, e, x)" by (cases r)
    then show ?thesis using Cons nx l(1) ne IH by (simp add: Let_def)
  qed
qed simp

lemma find_bottom_up:
  assumes "wf_iter mb"
  shows "memblock_find_range_bottom_up mb start end size' align nid fl
    = Ret (search_up start end size' align (free_ranges mb nid fl 0 0))"
proof -
  have "mt_shape (mb_memory mb)" "mt_shape (mb_reserved mb)"
    using assms by (simp_all add: wf_iter_def mt_wf_def)
  then have "length (free_ranges mb nid fl 0 0) < mt_cnt (mb_memory mb) + mt_cnt (mb_reserved mb) + 3"
    using length_isect [of "\<lambda>m. should_skip_region MB_memory m nid fl" "used (mb_memory mb)"
        "gaps_of 0 (used (mb_reserved mb))"] by (simp add: free_ranges_def length_used)
  from find_bottom_up_search [OF assms _ _ this, of start "end" size' align]
  show ?thesis by (simp add: memblock_find_range_bottom_up_def pack_0)
qed

section \<open>The backward iterator\<close>

fun isect_rev :: "(memblock_region \<Rightarrow> bool) \<Rightarrow> memblock_region list \<Rightarrow> range list
    \<Rightarrow> (phys_addr \<times> phys_addr \<times> int) list" where
  "isect_rev sk [] gs = []"
| "isect_rev sk (m # ms) [] = isect_rev sk ms []"
| "isect_rev sk (m # ms) ((rs, re) # gs) =
    (if sk m \<or> re \<le> rg_base m then isect_rev sk ms ((rs, re) # gs)
     else if rs < rg_end m then
       (max (rg_base m) rs, min (rg_end m) re, rg_nid m)
         # (if rs \<le> rg_base m then isect_rev sk ms ((rs, re) # gs) else isect_rev sk (m # ms) gs)
     else isect_rev sk (m # ms) gs)"

lemma length_isect_rev: "length (isect_rev sk ms gs) \<le> length ms + length gs"
  by (induction sk ms gs rule: isect_rev.induct) auto

lemma rev_take_gaps:
  assumes "mt_shape tb" and "j \<le> mt_cnt tb"
  shows "rev (take (Suc j) (gaps_of 0 (used tb))) = (gap_start tb (int j), gap_end tb (int j)) # rev (take j (gaps_of 0 (used tb)))"
  using assms gap_nth [OF assms] by (simp add: take_Suc_conv_app_nth length_used)

text \<open>Index \<open>b - 1\<close> is the current one, so that \<open>b = 0\<close> is the end.\<close>

lemma next_scan_rev_isect:
  assumes "mt_shape tb" and "b \<le> Suc (mt_cnt tb)" and "\<not> sk m" and "G = gaps_of 0 (used tb)"
  shows "\<exists>b' r. next_scan_rev tb (rg_base m) (rg_end m) (int b - 1) = (int b' - 1, r) \<and> b' \<le> Suc (mt_cnt tb) \<and>
    (case r of None \<Rightarrow> isect_rev sk (m # ms) (rev (take b G)) = isect_rev sk ms (rev (take b' G))
     | Some (s, e, f) \<Rightarrow> 0 < b' \<and> isect_rev sk (m # ms) (rev (take b G)) = (s, e, rg_nid m) #
         (if f then isect_rev sk ms (rev (take b' G)) else isect_rev sk (m # ms) (rev (take (b' - 1) G))))"
  using assms(2)
proof (induction b)
  case 0
  then show ?case by (subst next_scan_rev.simps) (auto intro!: exI [of _ 0])
next
  case (Suc b)
  then have b: "b \<le> mt_cnt tb" by simp
  note IH = Suc.IH [OF le_SucI [OF b]]
  note d = rev_take_gaps [OF assms(1) b, folded assms(4)]
  have i: "int (Suc b) - 1 = int b" by simp
  show ?case
  proof (cases "gap_end tb (int b) \<le> rg_base m")
    case True
    then have "next_scan_rev tb (rg_base m) (rg_end m) (int b) = (int b, None)"
      by (subst next_scan_rev.simps) (simp add: Let_def)
    with True b assms(3) show ?thesis unfolding i d by (auto intro!: exI [of _ "Suc b"] simp: d)
  next
    case False
    show ?thesis
    proof (cases "gap_start tb (int b) < rg_end m")
      case True
      with False have "next_scan_rev tb (rg_base m) (rg_end m) (int b) = (int b,
          Some (max (rg_base m) (gap_start tb (int b)), min (rg_end m) (gap_end tb (int b)),
                gap_start tb (int b) \<le> rg_base m))"
        by (subst next_scan_rev.simps) (simp add: Let_def)
      with True False b assms(3) show ?thesis unfolding i d by (auto intro!: exI [of _ "Suc b"] simp: d)
    next
      case f: False
      have "next_scan_rev tb (rg_base m) (rg_end m) (int b) = next_scan_rev tb (rg_base m) (rg_end m) (int b - 1)"
        using False f by (subst next_scan_rev.simps) (simp add: Let_def)
      moreover have "isect_rev sk (m # ms) (rev (take (Suc b) G)) = isect_rev sk (m # ms) (rev (take b G))"
        using False f assms(3) by (simp add: d)
      ultimately show ?thesis unfolding i using IH by (simp only:)
    qed
  qed
qed

definition free_ranges_rev :: "memblock_env \<Rightarrow> int \<Rightarrow> u32 \<Rightarrow> nat \<Rightarrow> nat \<Rightarrow> (phys_addr \<times> phys_addr \<times> int) list" where
  "free_ranges_rev mb nid fl a b = isect_rev (\<lambda>m. should_skip_region MB_memory m nid fl)
     (rev (take a (used (mb_memory mb)))) (rev (take b (gaps_of 0 (used (mb_reserved mb)))))"

lemma next_rev_loop_isect:
  assumes "mt_shape (mb_memory mb)" "mt_shape (mb_reserved mb)"
    and "a \<le> mt_cnt (mb_memory mb)" and "b \<le> Suc (mt_cnt (mb_reserved mb))"
  shows "case free_ranges_rev mb nid fl a b of
     [] \<Rightarrow> next_mem_range_rev_loop mb nid fl MB_memory (Some MB_reserved) (int a - 1) (int b - 1) = (ULLONG_MAX, None)
   | r # rest \<Rightarrow> (\<exists>a' b'. next_mem_range_rev_loop mb nid fl MB_memory (Some MB_reserved) (int a - 1) (int b - 1)
          = (pack_cursor (int a' - 1) (int b' - 1), Some r)
        \<and> free_ranges_rev mb nid fl a' b' = rest \<and> (0 < a' \<or> 0 < b')
        \<and> a' \<le> mt_cnt (mb_memory mb) \<and> b' \<le> Suc (mt_cnt (mb_reserved mb)))"
  using assms(3,4)
proof (induction a arbitrary: b)
  case 0
  then show ?case by (subst next_mem_range_rev_loop.simps) (simp add: free_ranges_rev_def)
next
  case (Suc a)
  then have a: "a < mt_cnt (mb_memory mb)" by simp
  define m where "m = mt_regions (mb_memory mb) ! a"
  let ?sk = "\<lambda>m. should_skip_region MB_memory m nid fl"
  let ?G = "gaps_of 0 (used (mb_reserved mb))"
  have d: "rev (take (Suc a) (used (mb_memory mb))) = m # rev (take a (used (mb_memory mb)))"
    using a assms(1) used_nth [OF assms(1) a] by (simp add: m_def take_Suc_conv_app_nth length_used)
  note IH = Suc.IH [OF less_imp_le [OF a]]
  have i: "int (Suc a) - 1 = int a" by simp
  have loop: "next_mem_range_rev_loop mb nid fl MB_memory (Some MB_reserved) (int a) (int b - 1) =
    (if ?sk m then next_mem_range_rev_loop mb nid fl MB_memory (Some MB_reserved) (int a - 1) (int b - 1)
     else (case next_scan_rev (mb_reserved mb) (rg_base m) (rg_end m) (int b - 1) of
                (idx_b', Some (out_start, out_end, a_first)) \<Rightarrow>
                  (if a_first then pack_cursor (int a - 1) idx_b' else pack_cursor (int a) (idx_b' - 1),
                   Some (out_start, out_end, rg_nid m))
              | (idx_b', None) \<Rightarrow>
                  next_mem_range_rev_loop mb nid fl MB_memory (Some MB_reserved) (int a - 1) idx_b'))"
    by (subst next_mem_range_rev_loop.simps) (simp add: Let_def m_def rg_end_def)
  show ?case unfolding i
  proof (cases "?sk m")
    case True
    then have "free_ranges_rev mb nid fl (Suc a) b = free_ranges_rev mb nid fl a b"
      by (cases "rev (take b ?G)") (auto simp: free_ranges_rev_def d)
    moreover have "next_mem_range_rev_loop mb nid fl MB_memory (Some MB_reserved) (int a) (int b - 1)
        = next_mem_range_rev_loop mb nid fl MB_memory (Some MB_reserved) (int a - 1) (int b - 1)"
      by (simp only: loop True if_True)
    ultimately show "case free_ranges_rev mb nid fl (Suc a) b of
     [] \<Rightarrow> next_mem_range_rev_loop mb nid fl MB_memory (Some MB_reserved) (int a) (int b - 1) = (ULLONG_MAX, None)
   | r # rest \<Rightarrow> (\<exists>a' b'. next_mem_range_rev_loop mb nid fl MB_memory (Some MB_reserved) (int a) (int b - 1)
          = (pack_cursor (int a' - 1) (int b' - 1), Some r)
        \<and> free_ranges_rev mb nid fl a' b' = rest \<and> (0 < a' \<or> 0 < b')
        \<and> a' \<le> mt_cnt (mb_memory mb) \<and> b' \<le> Suc (mt_cnt (mb_reserved mb)))"
      using IH [OF Suc(3)] by (simp only:)
  next
    case False
    obtain b' r where s: "next_scan_rev (mb_reserved mb) (rg_base m) (rg_end m) (int b - 1) = (int b' - 1, r)"
      "b' \<le> Suc (mt_cnt (mb_reserved mb))"
      "case r of None \<Rightarrow> free_ranges_rev mb nid fl (Suc a) b = free_ranges_rev mb nid fl a b'
       | Some (s, e, f) \<Rightarrow> 0 < b' \<and> free_ranges_rev mb nid fl (Suc a) b = (s, e, rg_nid m) #
         (if f then free_ranges_rev mb nid fl a b' else free_ranges_rev mb nid fl (Suc a) (b' - 1))"
      using next_scan_rev_isect [of "mb_reserved mb" b ?sk m ?G "rev (take a (used (mb_memory mb)))",
          OF assms(2) Suc(3) False refl]
      unfolding free_ranges_rev_def d by blast
    show "case free_ranges_rev mb nid fl (Suc a) b of
     [] \<Rightarrow> next_mem_range_rev_loop mb nid fl MB_memory (Some MB_reserved) (int a) (int b - 1) = (ULLONG_MAX, None)
   | r # rest \<Rightarrow> (\<exists>a' b'. next_mem_range_rev_loop mb nid fl MB_memory (Some MB_reserved) (int a) (int b - 1)
          = (pack_cursor (int a' - 1) (int b' - 1), Some r)
        \<and> free_ranges_rev mb nid fl a' b' = rest \<and> (0 < a' \<or> 0 < b')
        \<and> a' \<le> mt_cnt (mb_memory mb) \<and> b' \<le> Suc (mt_cnt (mb_reserved mb)))"
    proof (cases r)
      case None
      then have "next_mem_range_rev_loop mb nid fl MB_memory (Some MB_reserved) (int a) (int b - 1)
        = next_mem_range_rev_loop mb nid fl MB_memory (Some MB_reserved) (int a - 1) (int b' - 1)"
        using s(1) False by (simp only: loop prod.case option.case if_False)
      moreover have "free_ranges_rev mb nid fl (Suc a) b = free_ranges_rev mb nid fl a b'" using s(3) None by simp
      ultimately show ?thesis using IH [OF s(2)] by (simp only:)
    next
      case (Some x)
      obtain s0 e0 f where x: "x = (s0, e0, f)" by (cases x)
      have l: "next_mem_range_rev_loop mb nid fl MB_memory (Some MB_reserved) (int a) (int b - 1) =
         (if f then pack_cursor (int a - 1) (int b' - 1) else pack_cursor (int a) (int b' - 1 - 1), Some (s0, e0, rg_nid m))"
        using s(1) Some x False by (simp only: loop prod.case option.case if_False)
      have fr: "0 < b'" "free_ranges_rev mb nid fl (Suc a) b = (s0, e0, rg_nid m) #
         (if f then free_ranges_rev mb nid fl a b' else free_ranges_rev mb nid fl (Suc a) (b' - 1))"
        using s(3) Some x by simp_all
      show ?thesis
      proof (cases f)
        case True
        then show ?thesis using fr a s(2) unfolding l
          by simp (rule exI [of _ a], rule exI [of _ b'], simp)
      next
        case False
        have "int b' - 1 - 1 = int (b' - 1) - 1" using fr(1) by simp
        then show ?thesis using fr a s(2) False unfolding l
          by simp (rule exI [of _ "Suc a"], rule exI [of _ "b' - 1"], simp)
      qed
    qed
  qed
qed

lemma find_top_down_search:
  assumes "wf_iter mb" and "a \<le> mt_cnt (mb_memory mb)" and "b \<le> Suc (mt_cnt (mb_reserved mb))"
    and "length (free_ranges_rev mb nid fl a b) < n"
    and "next_mem_range_rev mb i nid fl MB_memory (Some MB_reserved)
      = next_mem_range_rev_loop mb nid fl MB_memory (Some MB_reserved) (int a - 1) (int b - 1)"
  shows "find_range_top_down_loop n mb i start end size' align nid fl
    = Ret (search_down start end size' align (free_ranges_rev mb nid fl a b))"
  using assms(2-)
proof (induction n arbitrary: a b i)
  case (Suc n)
  have sh: "mt_shape (mb_memory mb)" "mt_shape (mb_reserved mb)"
    using assms(1) by (simp_all add: wf_iter_def mt_wf_def)
  have bnd: "- (2 ^ 31) \<le> int a' - 1" "int a' - 1 < 2 ^ 31" "- (2 ^ 31) \<le> int b' - 1" "int b' - 1 < 2 ^ 31"
    if "a' \<le> mt_cnt (mb_memory mb)" "b' \<le> Suc (mt_cnt (mb_reserved mb))" for a' b'
    using that assms(1) by (simp_all add: wf_iter_def)
  note step = next_rev_loop_isect [OF sh Suc.prems(1,2), of nid fl]
  show ?case
  proof (cases "free_ranges_rev mb nid fl a b")
    case Nil
    with step Suc.prems(4) show ?thesis by simp
  next
    case (Cons r rest)
    then obtain a' b' where l: "next_mem_range_rev_loop mb nid fl MB_memory (Some MB_reserved) (int a - 1) (int b - 1)
          = (pack_cursor (int a' - 1) (int b' - 1), Some r)" "free_ranges_rev mb nid fl a' b' = rest"
        "0 < a' \<or> 0 < b'" "a' \<le> mt_cnt (mb_memory mb)" "b' \<le> Suc (mt_cnt (mb_reserved mb))"
      using step by auto
    have ne: "pack_cursor (int a' - 1) (int b' - 1) \<noteq> ULLONG_MAX"
      by (rule pack_not_end [OF bnd [OF l(4,5)]]) (use l(3) in auto)
    then have "next_mem_range_rev mb (pack_cursor (int a' - 1) (int b' - 1)) nid fl MB_memory (Some MB_reserved)
      = next_mem_range_rev_loop mb nid fl MB_memory (Some MB_reserved) (int a' - 1) (int b' - 1)"
      using cursor_pack [OF bnd [OF l(4,5)]] by (simp add: next_mem_range_rev_def)
    then have IH: "find_range_top_down_loop n mb (pack_cursor (int a' - 1) (int b' - 1)) start end size' align nid fl
      = Ret (search_down start end size' align rest)"
      using Suc.IH [OF l(4,5)] l(2) Suc.prems(3) Cons by simp
    obtain s e x where "r = (s, e, x)" by (cases r)
    then show ?thesis using Cons Suc.prems(4) l(1) ne IH by (auto simp: Let_def not_le)
  qed
qed simp

lemma find_top_down:
  assumes "wf_iter mb"
  shows "memblock_find_range_top_down mb start end size' align nid fl
    = Ret (search_down start end size' align
        (free_ranges_rev mb nid fl (mt_cnt (mb_memory mb)) (Suc (mt_cnt (mb_reserved mb)))))"
proof -
  have "mt_shape (mb_memory mb)" "mt_shape (mb_reserved mb)"
    using assms by (simp_all add: wf_iter_def mt_wf_def)
  then have "length (free_ranges_rev mb nid fl (mt_cnt (mb_memory mb)) (Suc (mt_cnt (mb_reserved mb))))
      < mt_cnt (mb_memory mb) + mt_cnt (mb_reserved mb) + 3"
    using length_isect_rev [of "\<lambda>m. should_skip_region MB_memory m nid fl" "rev (used (mb_memory mb))"
        "rev (gaps_of 0 (used (mb_reserved mb)))"] by (simp add: free_ranges_rev_def length_used)
  from find_top_down_search [OF assms _ _ this, of ULLONG_MAX start "end" size' align]
  show ?thesis by (simp add: memblock_find_range_top_down_def next_mem_range_rev_def)
qed

section \<open>Soundness, completeness and order of the walks\<close>

definition rsorted :: "memblock_region list \<Rightarrow> bool" where
  "rsorted ms \<longleftrightarrow> sorted_wrt (\<lambda>x y. rg_end x \<le> rg_base y) ms \<and> (\<forall>m\<in>set ms. rg_base m < rg_end m)"

definition gsorted :: "range list \<Rightarrow> bool" where
  "gsorted gs \<longleftrightarrow> sorted_wrt (\<lambda>x y. snd x \<le> fst y) gs \<and> (\<forall>g\<in>set gs. fst g \<le> snd g)"

lemma rchain_rsorted: "rchain lo rs \<Longrightarrow> rsorted rs"
proof (induction rs arbitrary: lo)
  case (Cons r rs)
  then have "\<forall>y\<in>set rs. rg_end r \<le> rg_base y" using rchain_bounds [of "rg_end r" rs] by auto
  with Cons show ?case by (auto simp: rsorted_def)
qed (simp add: rsorted_def)

lemma gaps_of_bounds: "rchain lo rs \<Longrightarrow> g \<in> set (gaps_of lo rs) \<Longrightarrow> lo \<le> fst g \<and> fst g \<le> snd g"
proof (induction rs arbitrary: lo)
  case (Cons r rs)
  then show ?case by (fastforce intro: order.trans)
qed simp

lemma gaps_of_gsorted: "rchain lo rs \<Longrightarrow> gsorted (gaps_of lo rs)"
proof (induction rs arbitrary: lo)
  case (Cons r rs)
  then have "\<forall>y\<in>set (gaps_of (rg_end r) rs). rg_base r \<le> fst y"
    using gaps_of_bounds [of "rg_end r" rs] by (auto intro: order.trans less_imp_le)
  with Cons show ?case by (auto simp: gsorted_def)
qed (simp add: gsorted_def)

lemma in_gap_iff:
  "rchain lo rs \<Longrightarrow> (\<exists>g\<in>set (gaps_of lo rs). fst g \<le> x \<and> x < snd g) \<longleftrightarrow> lo \<le> x \<and> x < PHYS_ADDR_MAX \<and> attr_at rs x = None"
proof (induction rs arbitrary: lo)
  case (Cons r rs)
  then have r: "lo \<le> rg_base r" "rg_base r < rg_end r" "rchain (rg_end r) rs" by simp_all
  consider (low) "x < rg_base r" | (here) "rg_has r x" | (high) "rg_end r \<le> x"
    unfolding rg_has_def using not_le by blast
  then show ?case
  proof cases
    case low
    moreover have "attr_at (r # rs) x = None"
      by (rule rchain_attr_below [of "rg_base r"]) (use r low in auto)
    moreover have "x < PHYS_ADDR_MAX" using low word_order.extremum_strict order.strict_trans2
      by (metis word_order.not_eq_extremum)
    ultimately show ?thesis using Cons.IH [OF r(3)] r by auto
  next
    case here
    then show ?thesis using Cons.IH [OF r(3)] r by (auto simp: rg_has_def)
  next
    case high
    then have "\<not> rg_has r x" "\<not> x < rg_base r" "lo \<le> x" using r by (auto simp: rg_has_def)
    with high show ?thesis using Cons.IH [OF r(3)] by auto
  qed
qed simp

lemma isect_sound:
  "(s, e, n) \<in> set (isect sk ms gs) \<Longrightarrow>
    \<exists>m\<in>set ms. \<exists>g\<in>set gs. \<not> sk m \<and> s = max (rg_base m) (fst g) \<and> e = min (rg_end m) (snd g) \<and> n = rg_nid m"
  by (induction sk ms gs rule: isect.induct) (auto split: if_splits)

lemma isect_rev_sound:
  "(s, e, n) \<in> set (isect_rev sk ms gs) \<Longrightarrow>
    \<exists>m\<in>set ms. \<exists>g\<in>set gs. \<not> sk m \<and> s = max (rg_base m) (fst g) \<and> e = min (rg_end m) (snd g) \<and> n = rg_nid m"
  by (induction sk ms gs rule: isect_rev.induct) (auto split: if_splits)

definition covers :: "(phys_addr \<times> phys_addr \<times> int) list \<Rightarrow> phys_addr \<Rightarrow> bool" where
  "covers rs x \<longleftrightarrow> (\<exists>(s, e, n)\<in>set rs. s \<le> x \<and> x < e)"

lemma covers_simps [simp]:
  "covers [] x = False" "covers ((s, e, n) # rs) x \<longleftrightarrow> (s \<le> x \<and> x < e) \<or> covers rs x"
  by (auto simp: covers_def)

lemma isect_complete:
  "rsorted ms \<Longrightarrow> gsorted gs \<Longrightarrow> m \<in> set ms \<Longrightarrow> \<not> sk m \<Longrightarrow> rg_has m x \<Longrightarrow>
    g \<in> set gs \<Longrightarrow> fst g \<le> x \<Longrightarrow> x < snd g \<Longrightarrow> covers (isect sk ms gs) x"
proof (induction sk ms gs rule: isect.induct)
  case (3 sk m0 ms rs re gs)
  have tl: "rsorted ms" "gsorted gs" using 3(5,6) by (auto simp: rsorted_def gsorted_def)
  have m0: "m \<in> set ms \<Longrightarrow> rg_end m0 \<le> x"
    using 3(5,9) by (auto simp: rsorted_def rg_has_def intro: order.trans)
  have g0: "g \<in> set gs \<Longrightarrow> re \<le> x" using 3(6,11) by (auto simp: gsorted_def intro: order.trans)
  have g1: "rs \<le> x" using 3(6,10,11) by (auto simp: gsorted_def intro: order.trans)
  have m1: "rg_base m0 \<le> x" using 3(5,7,9) by (auto simp: rsorted_def rg_has_def intro: order.trans less_imp_le)
  consider (skip) "sk m0 \<or> rs \<ge> rg_end m0" | (hit) "\<not> (sk m0 \<or> rs \<ge> rg_end m0)" "rg_base m0 < re"
    | (gap) "\<not> (sk m0 \<or> rs \<ge> rg_end m0)" "\<not> rg_base m0 < re" by blast
  then show ?case
  proof cases
    case skip
    then have "m \<noteq> m0" using 3(8,9) g1 by (auto simp: rg_has_def)
    then have "m \<in> set ms" using 3(7) by simp
    from 3(1) [OF skip tl(1) 3(6) this 3(8-)] skip show ?thesis by simp
  next
    case gap
    then have "re \<le> x" using m1 by auto
    then have "g \<in> set gs" using 3(10,12) by auto
    from 3(4) [OF gap 3(5) tl(2) 3(7-9) this 3(11-)] gap show ?thesis by simp
  next
    case hit
    show ?thesis
    proof (cases "m = m0 \<and> g = (rs, re)")
      case True
      with hit 3(9,11,12) show ?thesis by (simp add: rg_has_def)
    next
      case False
      show ?thesis
      proof (cases "rg_end m0 \<le> re")
        case True
        have "m \<in> set ms"
        proof (rule ccontr)
          assume "m \<notin> set ms"
          then have "m = m0" "g \<in> set gs" using 3(7,10) False by auto
          with g0 True 3(9) show False by (auto simp: rg_has_def)
        qed
        from 3(2) [OF hit True tl(1) 3(6) this 3(8-)] hit True show ?thesis by simp
      next
        case nle: False
        have "g \<in> set gs"
        proof (rule ccontr)
          assume "g \<notin> set gs"
          then have "g = (rs, re)" "m \<in> set ms" using 3(7,10) False by auto
          with m0 nle 3(12) show False by (auto simp: rg_has_def)
        qed
        from 3(3) [OF hit nle 3(5) tl(2) 3(7-9) this 3(11-)] hit nle show ?thesis by simp
      qed
    qed
  qed
qed auto

lemma isect_rev_complete:
  "rsorted (rev ms) \<Longrightarrow> gsorted (rev gs) \<Longrightarrow> m \<in> set ms \<Longrightarrow> \<not> sk m \<Longrightarrow> rg_has m x \<Longrightarrow>
    g \<in> set gs \<Longrightarrow> fst g \<le> x \<Longrightarrow> x < snd g \<Longrightarrow> covers (isect_rev sk ms gs) x"
proof (induction sk ms gs rule: isect_rev.induct)
  case (3 sk m0 ms rs re gs)
  have tl: "rsorted (rev ms)" "gsorted (rev gs)" using 3(5,6) by (auto simp: rsorted_def gsorted_def sorted_wrt_append)
  have m0: "m \<in> set ms \<Longrightarrow> x < rg_base m0"
    using 3(5,9) by (auto simp: rsorted_def rg_has_def sorted_wrt_append)
  have g0: "g \<in> set gs \<Longrightarrow> x < rs" using 3(6,12) by (auto simp: gsorted_def sorted_wrt_append)
  have g1: "x < re" using 3(6,10,12) g0 by (auto simp: gsorted_def)
  have m1: "x < rg_end m0" using 3(5,7,9) m0 by (auto simp: rsorted_def rg_has_def)
  consider (skip) "sk m0 \<or> re \<le> rg_base m0" | (hit) "\<not> (sk m0 \<or> re \<le> rg_base m0)" "rs < rg_end m0"
    | (gap) "\<not> (sk m0 \<or> re \<le> rg_base m0)" "\<not> rs < rg_end m0" by blast
  then show ?case
  proof cases
    case skip
    then have "m \<noteq> m0" using 3(8,9) g1 by (auto simp: rg_has_def)
    then have "m \<in> set ms" using 3(7) by simp
    from 3(1) [OF skip tl(1) 3(6) this 3(8-)] skip show ?thesis by simp
  next
    case gap
    then have "x < rs" using m1 by auto
    then have "g \<in> set gs" using 3(10,11) by auto
    from 3(4) [OF gap 3(5) tl(2) 3(7-9) this 3(11-)] gap show ?thesis by simp
  next
    case hit
    show ?thesis
    proof (cases "m = m0 \<and> g = (rs, re)")
      case True
      with hit 3(9,11,12) show ?thesis by (simp add: rg_has_def)
    next
      case False
      show ?thesis
      proof (cases "rs \<le> rg_base m0")
        case True
        have "m \<in> set ms"
        proof (rule ccontr)
          assume "m \<notin> set ms"
          then have "m = m0" "g \<in> set gs" using 3(7,10) False by auto
          with g0 True 3(9) show False by (auto simp: rg_has_def)
        qed
        from 3(2) [OF hit True tl(1) 3(6) this 3(8-)] hit True show ?thesis by simp
      next
        case nle: False
        have "g \<in> set gs"
        proof (rule ccontr)
          assume "g \<notin> set gs"
          then have "g = (rs, re)" "m \<in> set ms" using 3(7,10) False by auto
          with m0 nle 3(11) show False by (auto simp: rg_has_def)
        qed
        from 3(3) [OF hit nle 3(5) tl(2) 3(7-9) this 3(11-)] hit nle show ?thesis by simp
      qed
    qed
  qed
qed auto

text \<open>The backward iteration yields the ranges in descending order.\<close>

definition descending :: "(phys_addr \<times> phys_addr \<times> int) list \<Rightarrow> bool" where
  "descending rs \<longleftrightarrow> sorted_wrt (\<lambda>x y. fst (snd y) \<le> fst x) rs"

lemma isect_rev_descending:
  "rsorted (rev ms) \<Longrightarrow> gsorted (rev gs) \<Longrightarrow> descending (isect_rev sk ms gs)"
proof (induction sk ms gs rule: isect_rev.induct)
  case (3 sk m ms rs re gs)
  have tl: "rsorted (rev ms)" "gsorted (rev gs)" using 3(5,6) by (auto simp: rsorted_def gsorted_def sorted_wrt_append)
  have a: "e \<le> max (rg_base m) rs" if "(s, e, n) \<in> set (isect_rev sk ms ((rs, re) # gs))" for s e n
    using isect_rev_sound [OF that] 3(5)
    by (auto simp: rsorted_def sorted_wrt_append min_le_iff_disj le_max_iff_disj)
  have b: "e \<le> max (rg_base m) rs" if "(s, e, n) \<in> set (isect_rev sk (m # ms) gs)" for s e n
    using isect_rev_sound [OF that] 3(6)
    by (auto simp: gsorted_def sorted_wrt_append min_le_iff_disj le_max_iff_disj)
  show ?case using 3(1-4) 3(5,6) tl a b by (auto simp: descending_def)
qed (auto simp: descending_def rsorted_def sorted_wrt_append)

section \<open>What the searches return\<close>

lemma clamp_in:
  assumes "clamp s start end \<le> a" and "a < clamp e start end" and "start \<le> end"
  shows "s \<le> a \<and> a < e \<and> start \<le> a \<and> a < end"
  using assms by (auto simp: clamp_def split: if_splits)

lemma search_down_sound:
  "search_down start end size' align rs = r \<Longrightarrow> r \<noteq> 0 \<Longrightarrow>
    \<exists>(s, e, n)\<in>set rs. size' \<le> clamp e start end \<and> clamp s start end \<le> r
      \<and> r = round_down (clamp e start end - size') align"
  by (induction rs) (auto simp: Let_def split: if_splits)

lemma search_up_sound:
  "search_up start end size' align rs = r \<Longrightarrow> r \<noteq> 0 \<Longrightarrow>
    \<exists>(s, e, n)\<in>set rs. r = round_up (clamp s start end) align \<and> r < clamp e start end
      \<and> size' \<le> clamp e start end - r"
  by (induction rs) (auto simp: Let_def split: if_splits)

lemma search_down_greatest:
  assumes "descending rs" and "(s, e, n) \<in> set rs" and "start \<le> end"
    and "IS_ALIGNED c (2 ^ k)" and "start \<le> c" and "s \<le> c"
    and "size' \<le> min e end" and "c \<le> min e end - size'"
  shows "c \<le> search_down start end size' (2 ^ k) rs"
  using assms(1,2)
proof (induction rs)
  case (Cons x rs)
  obtain s0 e0 n0 where x: "x = (s0, e0, n0)" by (cases x)
  have ce: "c \<le> e" "c \<le> end"
  proof -
    have "M - size' \<le> M" if "size' \<le> M" for M :: phys_addr using that by uint_arith
    from this [OF assms(7)] show "c \<le> e" "c \<le> end" using assms(8) by auto
  qed
  show ?case
  proof (cases "x = (s, e, n)")
    case True
    have "clamp e start end = min e end"
    proof -
      have "start \<le> e" using ce assms(5) by simp
      then show ?thesis using assms(3) by (auto simp: clamp_def min_def)
    qed
    moreover have "clamp s start end \<le> c" using assms(5,6) ce by (auto simp: clamp_def)
    moreover have "c \<le> round_down (min e end - size') (2 ^ k)"
      by (rule round_down_greatest) (use assms in simp_all)
    ultimately show ?thesis using True assms(7) by (auto simp: Let_def)
  next
    case False
    with Cons have "(s, e, n) \<in> set rs" "descending rs" "e \<le> s0"
      by (auto simp: descending_def x)
    with Cons have IH: "c \<le> search_down start end size' (2 ^ k) rs" by simp
    have "c \<le> clamp s0 start end" using ce \<open>e \<le> s0\<close> by (auto simp: clamp_def)
    with IH show ?thesis by (auto simp: x Let_def)
  qed
qed simp

definition free_at :: "memblock_env \<Rightarrow> int \<Rightarrow> u32 \<Rightarrow> phys_addr \<Rightarrow> bool" where
  "free_at mb nid fl a \<longleftrightarrow>
    (\<exists>m\<in>set (used (mb_memory mb)). rg_has m a \<and> \<not> should_skip_region MB_memory m nid fl)
    \<and> mt_attr (mb_reserved mb) a = None"

definition find_lo :: "phys_addr \<Rightarrow> phys_addr" where
  "find_lo start = max start PAGE_SIZE"

definition find_hi :: "memblock_env \<Rightarrow> phys_addr \<Rightarrow> phys_addr \<Rightarrow> phys_addr" where
  "find_hi mb start end = max (find_lo start)
     (if end = MEMBLOCK_ALLOC_ACCESSIBLE \<or> end = MEMBLOCK_ALLOC_NOLEAKTRACE then mb_current_limit mb else end)"

lemma find_lo_hi: "find_lo start \<le> find_hi mb start end"
  by (simp add: find_hi_def)

lemma wf_iterD:
  assumes "wf_iter mb"
  shows "rchain 0 (used (mb_memory mb))" "rchain 0 (used (mb_reserved mb))"
    "mt_shape (mb_memory mb)" "mt_shape (mb_reserved mb)"
  using assms by (simp_all add: wf_iter_def mt_wf_def)

definition all_free :: "memblock_env \<Rightarrow> int \<Rightarrow> u32 \<Rightarrow> (phys_addr \<times> phys_addr \<times> int) list" where
  "all_free mb nid fl = free_ranges mb nid fl 0 0"

definition all_free_rev :: "memblock_env \<Rightarrow> int \<Rightarrow> u32 \<Rightarrow> (phys_addr \<times> phys_addr \<times> int) list" where
  "all_free_rev mb nid fl = free_ranges_rev mb nid fl (mt_cnt (mb_memory mb)) (Suc (mt_cnt (mb_reserved mb)))"

lemma find_in_range_node_eq:
  assumes "wf_iter mb"
  shows "memblock_find_in_range_node mb size' align start end nid fl = Ret
    (if mb_bottom_up mb
     then search_up (find_lo start) (find_hi mb start end) size' align (all_free mb nid fl)
     else search_down (find_lo start) (find_hi mb start end) size' align (all_free_rev mb nid fl))"
  using find_bottom_up [OF assms] find_top_down [OF assms]
  by (simp add: memblock_find_in_range_node_def Let_def find_hi_def find_lo_def all_free_def all_free_rev_def)

lemma all_free_rev_eq:
  assumes "wf_iter mb"
  shows "all_free_rev mb nid fl = isect_rev (\<lambda>m. should_skip_region MB_memory m nid fl)
     (rev (used (mb_memory mb))) (rev (gaps_of 0 (used (mb_reserved mb))))"
  using wf_iterD(3,4) [OF assms] by (simp add: all_free_rev_def free_ranges_rev_def length_used)

lemma in_range_free:
  assumes "wf_iter mb" and "m \<in> set (used (mb_memory mb))" and "\<not> should_skip_region MB_memory m nid fl"
    and "g \<in> set (gaps_of 0 (used (mb_reserved mb)))"
    and "max (rg_base m) (fst g) \<le> a" and "a < min (rg_end m) (snd g)"
  shows "free_at mb nid fl a"
proof -
  have "rg_has m a" using assms(5,6) by (simp add: rg_has_def)
  moreover have "attr_at (used (mb_reserved mb)) a = None"
    using in_gap_iff [OF wf_iterD(2) [OF assms(1)], of a] assms(4-6) by auto
  ultimately show ?thesis using assms(2,3) by (auto simp: free_at_def mt_attr_def)
qed

lemma all_free_sound:
  assumes "wf_iter mb" and "(s, e, n) \<in> set (all_free mb nid fl) \<union> set (all_free_rev mb nid fl)"
    and "s \<le> a" and "a < e"
  shows "free_at mb nid fl a"
proof -
  obtain m g where "m \<in> set (used (mb_memory mb))" "g \<in> set (gaps_of 0 (used (mb_reserved mb)))"
    "\<not> should_skip_region MB_memory m nid fl" "s = max (rg_base m) (fst g)" "e = min (rg_end m) (snd g)"
    using assms(2) isect_sound isect_rev_sound
    unfolding all_free_rev_eq [OF assms(1)] all_free_def free_ranges_def
    by (metis (no_types, lifting) Un_iff drop0 set_rev)
  with assms show ?thesis by (intro in_range_free [of mb m nid fl g a]) auto
qed

lemma find_in_range_node_sound:
  assumes "wf_iter mb" and "k < 64"
    and "memblock_find_in_range_node mb size' (2 ^ k) start end nid fl = Ret r" and "r \<noteq> 0"
  shows "IS_ALIGNED r (2 ^ k) \<and> find_lo start \<le> r \<and> size' \<le> find_hi mb start end
    \<and> r \<le> find_hi mb start end - size' \<and> (\<forall>a. r \<le> a \<longrightarrow> a - r < size' \<longrightarrow> free_at mb nid fl a)"
proof -
  let ?lo = "find_lo start" and ?hi = "find_hi mb start end"
  have lh: "?lo \<le> ?hi" by (rule find_lo_hi)
  have cl: "?lo \<le> clamp x ?lo ?hi" "clamp x ?lo ?hi \<le> ?hi" for x
    using lh by (auto simp: clamp_def)
  obtain s e n where mem: "(s, e, n) \<in> set (all_free mb nid fl) \<union> set (all_free_rev mb nid fl)"
    and r: "size' \<le> clamp e ?lo ?hi" "clamp s ?lo ?hi \<le> r" "r \<le> clamp e ?lo ?hi - size'"
    and al: "IS_ALIGNED r (2 ^ k)"
  proof (cases "mb_bottom_up mb")
    case True
    then have "search_up ?lo ?hi size' (2 ^ k) (all_free mb nid fl) = r"
      using assms(3) find_in_range_node_eq [OF assms(1)] by simp
    from search_up_sound [OF this assms(4)] obtain s e n where
      *: "(s, e, n) \<in> set (all_free mb nid fl)" "r = round_up (clamp s ?lo ?hi) (2 ^ k)"
        "r < clamp e ?lo ?hi" "size' \<le> clamp e ?lo ?hi - r" by auto
    have "size' \<le> te \<and> r \<le> te - size'" if "r < te" "size' \<le> te - r" for te
      using that by uint_arith
    with * round_up_ge [of "clamp s ?lo ?hi" "2 ^ k"] assms(2,4) show thesis
      by (intro that [of s e n]) (auto simp: round_up_aligned)
  next
    case False
    then have "search_down ?lo ?hi size' (2 ^ k) (all_free_rev mb nid fl) = r"
      using assms(3) find_in_range_node_eq [OF assms(1)] by simp
    from search_down_sound [OF this assms(4)] obtain s e n where
      "(s, e, n) \<in> set (all_free_rev mb nid fl)" "size' \<le> clamp e ?lo ?hi" "clamp s ?lo ?hi \<le> r"
      "r = round_down (clamp e ?lo ?hi - size') (2 ^ k)" by auto
    then show thesis by (intro that [of s e n]) simp_all
  qed
  define te where "te = clamp e ?lo ?hi"
  have te: "size' \<le> te" "r \<le> te - size'" "te \<le> ?hi" using r cl by (simp_all add: te_def)
  have "free_at mb nid fl a" if "r \<le> a" "a - r < size'" for a
  proof (rule all_free_sound [OF assms(1) mem])
    have "a < te" using that te(1,2) by uint_arith
    with r(2) that(1) have "clamp s ?lo ?hi \<le> a" "a < clamp e ?lo ?hi" by (auto simp: te_def)
    from clamp_in [OF this lh] show "s \<le> a" "a < e" by auto
  qed
  moreover have "size' \<le> ?hi \<and> r \<le> ?hi - size'" using te by uint_arith
  moreover have "?lo \<le> r" using cl(1) [of s] r(2) by simp
  ultimately show ?thesis using al by blast
qed

lemma find_in_range_node_returns:
  "wf_iter mb \<Longrightarrow> \<exists>r. memblock_find_in_range_node mb size' align start end nid fl = Ret r"
  by (simp add: find_in_range_node_eq)

lemma gap_ends:
  "rchain lo rs \<Longrightarrow> g \<in> set (gaps_of lo rs) \<Longrightarrow> snd g = PHYS_ADDR_MAX \<or> attr_at rs (snd g) \<noteq> None"
proof (induction rs arbitrary: lo)
  case (Cons r rs)
  then show ?case by (auto simp: rg_has_def)
qed simp

lemma rsorted_disjoint:
  "rsorted ms \<Longrightarrow> m \<in> set ms \<Longrightarrow> m' \<in> set ms \<Longrightarrow> rg_has m a \<Longrightarrow> rg_has m' a \<Longrightarrow> m = m'"
proof (induction ms)
  case (Cons x ms)
  have "rg_has x a \<Longrightarrow> y \<in> set ms \<Longrightarrow> \<not> rg_has y a" for y
    using Cons.prems(1) by (auto simp: rsorted_def rg_has_def)
  with Cons show ?case by (auto simp: rsorted_def)
qed simp

lemma gsorted_disjoint:
  "gsorted gs \<Longrightarrow> g \<in> set gs \<Longrightarrow> g' \<in> set gs \<Longrightarrow> fst g \<le> a \<Longrightarrow> a < snd g \<Longrightarrow> fst g' \<le> a \<Longrightarrow> a < snd g' \<Longrightarrow> g = g'"
proof (induction gs)
  case (Cons x gs)
  have "fst x \<le> a \<Longrightarrow> a < snd x \<Longrightarrow> y \<in> set gs \<Longrightarrow> \<not> (fst y \<le> a \<and> a < snd y)" for y
    using Cons.prems(1) by (auto simp: gsorted_def)
  with Cons show ?case by (auto simp: gsorted_def)
qed simp

lemma block_in_one_range:
  assumes "wf_iter mb" and "m \<in> set (used (mb_memory mb))" and "\<not> should_skip_region MB_memory m nid fl"
    and "c \<le> d" and "rg_base m \<le> c" and "d < rg_end m"
    and "\<forall>a. c \<le> a \<and> a \<le> d \<longrightarrow> mt_attr (mb_reserved mb) a = None"
  shows "\<exists>s e n. (s, e, n) \<in> set (all_free_rev mb nid fl) \<and> s \<le> c \<and> d < e"
proof -
  let ?M = "used (mb_memory mb)" and ?R = "used (mb_reserved mb)"
  let ?sk = "\<lambda>m. should_skip_region MB_memory m nid fl"
  have R: "rchain 0 ?R" and M: "rsorted ?M" and G: "gsorted (gaps_of 0 ?R)"
    using wf_iterD [OF assms(1)] rchain_rsorted gaps_of_gsorted by auto
  have mc: "rg_has m c" using assms(4-6) by (auto simp: rg_has_def)
  have mx: "d < PHYS_ADDR_MAX" using assms(6) by (metis word_order.not_eq_extremum word_order.extremum_strict order.strict_trans2)
  have "c < PHYS_ADDR_MAX" "attr_at ?R c = None" using mx assms(4,7) by (auto simp: mt_attr_def)
  then obtain g where g: "g \<in> set (gaps_of 0 ?R)" "fst g \<le> c" "c < snd g"
    using in_gap_iff [OF R, of c] by auto
  have dg: "d < snd g"
  proof (rule ccontr)
    assume "\<not> d < snd g"
    moreover from this have "snd g \<noteq> PHYS_ADDR_MAX" using mx by auto
    ultimately show False
      using gap_ends [OF R g(1)] assms(7) g(3) by (auto simp: mt_attr_def not_less)
  qed
  have "covers (isect_rev ?sk (rev ?M) (rev (gaps_of 0 ?R))) c"
    by (rule isect_rev_complete [of _ _ m _ _ g]) (use M G assms(2,3) mc g in auto)
  then obtain s e n where s: "(s, e, n) \<in> set (all_free_rev mb nid fl)" "s \<le> c" "c < e"
    by (auto simp: covers_def all_free_rev_eq [OF assms(1)])
  then obtain m' g' where *: "m' \<in> set ?M" "g' \<in> set (gaps_of 0 ?R)" "s = max (rg_base m') (fst g')"
    "e = min (rg_end m') (snd g')"
    using isect_rev_sound [of s e n ?sk "rev ?M" "rev (gaps_of 0 ?R)"] by (auto simp: all_free_rev_eq [OF assms(1)])
  have "m' = m" by (rule rsorted_disjoint [OF M *(1) assms(2) _ mc]) (use * s in \<open>auto simp: rg_has_def\<close>)
  moreover have "g' = g" by (rule gsorted_disjoint [OF G *(2) g(1) _ _ g(2,3)]) (use * s in auto)
  ultimately have "d < e" using * dg assms(6) by simp
  with s show ?thesis by blast
qed

lemma find_in_range_node_complete:
  assumes "wf_iter mb" and "\<not> mb_bottom_up mb"
    and "m \<in> set (used (mb_memory mb))" and "\<not> should_skip_region MB_memory m nid fl"
    and "IS_ALIGNED c (2 ^ k)" and "0 < size'" and "find_lo start \<le> c"
    and "size' \<le> find_hi mb start end" and "c \<le> find_hi mb start end - size'"
    and "\<forall>a. c \<le> a \<and> a \<le> c + (size' - 1) \<longrightarrow> rg_has m a \<and> mt_attr (mb_reserved mb) a = None"
  shows "\<exists>r. memblock_find_in_range_node mb size' (2 ^ k) start end nid fl = Ret r \<and> c \<le> r"
proof -
  let ?hi = "find_hi mb start end"
  have cd: "c \<le> c + (size' - 1)" using assms(6,8,9) by uint_arith
  have "rg_has m c" "rg_has m (c + (size' - 1))" using assms(10) cd by auto
  then obtain s e n where r: "(s, e, n) \<in> set (all_free_rev mb nid fl)" "s \<le> c" "c + (size' - 1) < e"
    using block_in_one_range [OF assms(1,3,4) cd] assms(10) by (auto simp: rg_has_def)
  have fit: "size' \<le> M \<and> c \<le> M - size'" if "c + (size' - 1) < M" for M
    using cd that assms(6) by uint_arith
  have desc: "descending (all_free_rev mb nid fl)"
    unfolding all_free_rev_eq [OF assms(1)]
    by (rule isect_rev_descending) (use wf_iterD [OF assms(1)] rchain_rsorted gaps_of_gsorted in auto)
  have "c + (size' - 1) < ?hi" using assms(6,8,9) by uint_arith
  then have "c + (size' - 1) < min e ?hi" using r(3) by simp
  from fit [OF this] have "c \<le> search_down (find_lo start) ?hi size' (2 ^ k) (all_free_rev mb nid fl)"
    by (intro search_down_greatest [OF desc r(1) find_lo_hi assms(5,7) r(2)]) auto
  then show ?thesis using assms(1,2) by (simp add: find_in_range_node_eq)
qed

end
