(* ===== verification/Memblock_Alloc.thy ===== *)
theory Memblock_Alloc
  imports Memblock_Find
begin

text \<open>
  The state-changing operations of \<open>src/mm/memblock.c\<close>: \<open>memblock_double_array\<close>,
  \<open>memblock_isolate_range\<close>, \<open>memblock_remove_range\<close>, \<open>memblock_phys_free\<close>,
  \<open>memblock_free\<close>, \<open>memblock_add_range\<close>, \<open>__memblock_reserve\<close>, \<open>memblock_add\<close>,
  \<open>memblock_alloc_range_nid\<close> and \<open>memblock_phys_alloc_range\<close>; on top of them \<open>kmalloc\<close> and
  \<open>kfree\<close> of \<open>src/mm/kmalloc.c\<close> and \<open>physmem_init\<close> of \<open>src/mm/pm.c\<close>.

  \<open>memblock_double_array\<close> reserves the new array through \<open>memblock_add_range\<close>, which may
  double again. The operations that may resize take the doubling function as an argument
  \<open>dbl\<close>; \<open>memblock_double_array\<close> recurses over its fuel, which counts nested doublings.
\<close>

unbundle bit_operations_syntax

section \<open>Virtual and physical addresses\<close>

abbreviation RAM_BASE :: u64 where "RAM_BASE \<equiv> 0x40000000"
abbreviation RAM_SIZE :: u64 where "RAM_SIZE \<equiv> 0x40000000"
abbreviation PAGE_OFFSET :: u64 where "PAGE_OFFSET \<equiv> 0xffff000000000000"
abbreviation LINER_MAP_OFFSET :: u64 where "LINER_MAP_OFFSET \<equiv> 0xfffeffffc0000000"

definition virt_to_phys :: "u64 \<Rightarrow> phys_addr" where
  "virt_to_phys x = x - LINER_MAP_OFFSET"

definition phys_to_virt :: "phys_addr \<Rightarrow> u64" where
  "phys_to_virt x = x + LINER_MAP_OFFSET"

section \<open>Operations that may resize\<close>

type_synonym resizer =
  "mb_sel \<Rightarrow> phys_addr \<Rightarrow> phys_addr \<Rightarrow> memblock_env \<Rightarrow> (memblock_env \<times> int) outcome"

text \<open>The loops \<open>while (type->cnt + need > type->max) memblock_double_array(...)\<close>.\<close>

fun grow_array :: "nat \<Rightarrow> resizer \<Rightarrow> nat \<Rightarrow> mb_sel \<Rightarrow> phys_addr \<Rightarrow> phys_addr \<Rightarrow> memblock_env
    \<Rightarrow> (memblock_env \<times> int) outcome" where
  "grow_array 0 dbl need type base size' mb = NoFuel"
| "grow_array (Suc n) dbl need type base size' mb =
    (if mt_cnt (get_type type mb) + need > mt_max (get_type type mb) then
       obind (dbl type base size' mb) (\<lambda>(mb', r).
         if r < 0 then Ret (mb', - ENOMEM) else grow_array n dbl need type base size' mb')
     else Ret (mb, 0))"

abbreviation GROW_FUEL :: nat where "GROW_FUEL \<equiv> 64"

definition isolate_range_with ::
  "resizer \<Rightarrow> mb_sel \<Rightarrow> phys_addr \<Rightarrow> phys_addr \<Rightarrow> memblock_env
    \<Rightarrow> (memblock_env \<times> int \<times> nat \<times> nat) outcome" where
  "isolate_range_with dbl type base size0 mb =
    (let size' = memblock_cap_size base size0; end = base + size' in
     if size' = 0 then Ret (mb, 0, 0, 0)
     else obind (grow_array GROW_FUEL dbl 2 type base size' mb) (\<lambda>(mb', r).
       if r \<noteq> 0 then Ret (mb', r, 0, 0)
       else
         let t = get_type type mb' in
         obind (memblock_isolate_loop (mt_cnt t + 6) base end t 0 0 0) (\<lambda>(t', start_rgn, end_rgn).
           Ret (set_type type t' mb', 0, start_rgn, end_rgn))))"

definition remove_range_with ::
  "resizer \<Rightarrow> mb_sel \<Rightarrow> phys_addr \<Rightarrow> phys_addr \<Rightarrow> memblock_env \<Rightarrow> (memblock_env \<times> int) outcome" where
  "remove_range_with dbl type base size' mb =
    obind (isolate_range_with dbl type base size' mb) (\<lambda>(mb', ret, start_rgn, end_rgn).
      if ret \<noteq> 0 then Ret (mb', ret)
      else Ret (set_type type (memblock_remove_loop (get_type type mb') start_rgn end_rgn) mb', 0))"

text \<open>
  The part of \<open>memblock_add_range\<close> executed with \<open>insert\<close> set: insert what is missing,
  then merge around the inserted entries.
\<close>

definition add_range_insert ::
  "mb_sel \<Rightarrow> phys_addr \<Rightarrow> phys_addr \<Rightarrow> int \<Rightarrow> u32 \<Rightarrow> memblock_env \<Rightarrow> (memblock_env \<times> int) outcome" where
  "add_range_insert type obase end nid flags mb =
    obind (memblock_add_pass True obase end nid flags (get_type type mb))
      (\<lambda>(t', nr_new, start_rgn, end_rgn).
        if nr_new = 0 then Ret (set_type type t' mb, 0)
        else obind (memblock_merge_regions t' (nat start_rgn) (nat end_rgn))
               (\<lambda>t''. Ret (set_type type t'' mb, 0)))"

definition add_range_with ::
  "resizer \<Rightarrow> mb_sel \<Rightarrow> phys_addr \<Rightarrow> phys_addr \<Rightarrow> int \<Rightarrow> u32 \<Rightarrow> memblock_env
    \<Rightarrow> (memblock_env \<times> int) outcome" where
  "add_range_with dbl type base size0 nid flags mb =
    (let size' = memblock_cap_size base size0; end = base + size'; t = get_type type mb in
     if size' = 0 then Ret (mb, 0)
     else if rg_size (mt_regions t ! 0) = 0 then
       Ret (set_type type
              (t\<lparr>mt_regions := (mt_regions t)
                   [0 := \<lparr>rg_base = base, rg_size = size', rg_flags = flags, rg_nid = nid\<rparr>],
                 mt_total_size := size', mt_cnt := 1\<rparr>) mb, 0)
     else if mt_cnt t * 2 + 1 \<le> mt_max t then add_range_insert type base end nid flags mb
     else obind (memblock_add_pass False base end nid flags t) (\<lambda>(t', nr_new, start_rgn, end_rgn).
       if nr_new = 0 then Ret (mb, 0)
       else obind (grow_array GROW_FUEL dbl nr_new type base size' mb) (\<lambda>(mb', r).
         if r \<noteq> 0 then Ret (mb', r)
         else add_range_insert type base end nid flags mb')))"

abbreviation REGION_BYTES :: nat where "REGION_BYTES \<equiv> 24"

text \<open>\<open>memblock_double_array\<close>; fuel 0 stands for a nesting deeper than the fuel.\<close>

fun memblock_double_array :: "nat \<Rightarrow> resizer" where
  "memblock_double_array 0 type new_area_start new_area_size mb = NoFuel"
| "memblock_double_array (Suc n) type new_area_start new_area_size mb =
    (if \<not> memblock_can_resize mb then Ret (mb, -1)
     else
       let t = get_type type mb;
           old_size = of_nat (mt_max t * REGION_BYTES) :: phys_addr;
           new_size = push_bit 1 old_size;
           old_alloc_size = PAGE_ALIGN old_size;
           new_alloc_size = PAGE_ALIGN new_size;
           area_start = (if type \<noteq> MB_reserved then 0 else new_area_start);
           area_size = (if type \<noteq> MB_reserved then 0 else new_area_size) in
       obind (memblock_find_in_range mb (area_start + area_size) (mb_current_limit mb)
                new_alloc_size PAGE_SIZE) (\<lambda>addr0.
       obind (if addr0 = 0 \<and> area_size \<noteq> 0
              then memblock_find_in_range mb 0 (min area_start (mb_current_limit mb))
                     new_alloc_size PAGE_SIZE
              else Ret addr0) (\<lambda>addr.
       if addr = 0 then Ret (mb, -1)
       else
         let mb1 = set_type type
               (t\<lparr>mt_regions := take (mt_max t) (mt_regions t) @ replicate (mt_max t) zero_region,
                  mt_ptr := Allocated addr, mt_max := mt_max t * 2\<rparr>) mb in
         obind (case mt_ptr t of
                  Allocated old \<Rightarrow>
                    if phys_to_virt old \<noteq> 0
                    then obind (remove_range_with (memblock_double_array n) MB_reserved
                                  (virt_to_phys (phys_to_virt old)) old_alloc_size mb1)
                           (\<lambda>(mb2, _). Ret mb2)
                    else Ret mb1
                | _ \<Rightarrow> Ret mb1) (\<lambda>mb2.
         obind (add_range_with (memblock_double_array n) MB_reserved addr new_alloc_size
                  NUMA_NO_NODE MEMBLOCK_RSRV_KERN mb2) (\<lambda>(mb3, r).
         if r \<noteq> 0 then Bug
         else Ret (case type of
                     MB_memory \<Rightarrow> mb3\<lparr>memblock_memory_in_slab := False\<rparr>
                   | MB_reserved \<Rightarrow> mb3\<lparr>memblock_reserved_in_slab := False\<rparr>, 0))))))"

declare memblock_double_array.simps [simp del]

abbreviation RESIZE_FUEL :: nat where "RESIZE_FUEL \<equiv> 8"

section \<open>The interface\<close>

definition memblock_isolate_range ::
  "mb_sel \<Rightarrow> phys_addr \<Rightarrow> phys_addr \<Rightarrow> memblock_env \<Rightarrow> (memblock_env \<times> int \<times> nat \<times> nat) outcome" where
  "memblock_isolate_range = isolate_range_with (memblock_double_array RESIZE_FUEL)"

definition memblock_remove_range ::
  "mb_sel \<Rightarrow> phys_addr \<Rightarrow> phys_addr \<Rightarrow> memblock_env \<Rightarrow> (memblock_env \<times> int) outcome" where
  "memblock_remove_range = remove_range_with (memblock_double_array RESIZE_FUEL)"

definition memblock_phys_free :: "phys_addr \<Rightarrow> phys_addr \<Rightarrow> memblock_env \<Rightarrow> (memblock_env \<times> int) outcome" where
  "memblock_phys_free base size' mb = memblock_remove_range MB_reserved base size' mb"

definition memblock_free :: "u64 \<Rightarrow> phys_addr \<Rightarrow> memblock_env \<Rightarrow> memblock_env outcome" where
  "memblock_free ptr size' mb =
    (if ptr \<noteq> 0 then obind (memblock_phys_free (virt_to_phys ptr) size' mb) (\<lambda>(mb', _). Ret mb')
     else Ret mb)"

definition memblock_add_range ::
  "mb_sel \<Rightarrow> phys_addr \<Rightarrow> phys_addr \<Rightarrow> int \<Rightarrow> u32 \<Rightarrow> memblock_env \<Rightarrow> (memblock_env \<times> int) outcome" where
  "memblock_add_range = add_range_with (memblock_double_array RESIZE_FUEL)"

definition memblock_reserve_flags ::
  "phys_addr \<Rightarrow> phys_addr \<Rightarrow> int \<Rightarrow> u32 \<Rightarrow> memblock_env \<Rightarrow> (memblock_env \<times> int) outcome" where
  "memblock_reserve_flags base size' nid flags mb = memblock_add_range MB_reserved base size' nid flags mb"

definition memblock_reserve :: "phys_addr \<Rightarrow> phys_addr \<Rightarrow> memblock_env \<Rightarrow> (memblock_env \<times> int) outcome" where
  "memblock_reserve base size' mb = memblock_reserve_flags base size' NUMA_NO_NODE 0 mb"

definition memblock_reserve_kern :: "phys_addr \<Rightarrow> phys_addr \<Rightarrow> memblock_env \<Rightarrow> (memblock_env \<times> int) outcome" where
  "memblock_reserve_kern base size' mb = memblock_reserve_flags base size' NUMA_NO_NODE MEMBLOCK_RSRV_KERN mb"

definition memblock_add :: "phys_addr \<Rightarrow> phys_addr \<Rightarrow> memblock_env \<Rightarrow> (memblock_env \<times> int) outcome" where
  "memblock_add base size' mb = memblock_add_range MB_memory base size' MAX_NUMNODES 0 mb"

abbreviation SMP_CACHE_BYTES :: phys_addr where "SMP_CACHE_BYTES \<equiv> 64"

text \<open>
  One round of \<open>memblock_alloc_range_nid\<close> from its label \<open>again\<close>: the address found and
  reserved, or 0.
\<close>

definition alloc_range_round ::
  "phys_addr \<Rightarrow> phys_addr \<Rightarrow> phys_addr \<Rightarrow> phys_addr \<Rightarrow> int \<Rightarrow> bool \<Rightarrow> u32 \<Rightarrow> memblock_env
    \<Rightarrow> (memblock_env \<times> phys_addr) outcome" where
  "alloc_range_round size' align start end nid exact_nid flags mb =
    obind (memblock_find_in_range_node mb size' align start end nid flags) (\<lambda>found.
    obind (if found \<noteq> 0 then memblock_reserve_flags found size' nid MEMBLOCK_RSRV_KERN mb
           else Ret (mb, -1)) (\<lambda>(mb1, r).
    if found \<noteq> 0 \<and> r = 0 then Ret (mb1, found)
    else if numa_valid_node nid \<and> \<not> exact_nid then
      obind (memblock_find_in_range_node mb1 size' align start end NUMA_NO_NODE flags) (\<lambda>found'.
      if found' \<noteq> 0 then
        obind (memblock_reserve_kern found' size' mb1) (\<lambda>(mb2, r').
          Ret (mb2, if r' = 0 then found' else 0))
      else Ret (mb1, 0))
    else Ret (mb1, 0)))"

definition memblock_alloc_range_nid ::
  "phys_addr \<Rightarrow> phys_addr \<Rightarrow> phys_addr \<Rightarrow> phys_addr \<Rightarrow> int \<Rightarrow> bool \<Rightarrow> memblock_env
    \<Rightarrow> (memblock_env \<times> phys_addr) outcome" where
  "memblock_alloc_range_nid size' align0 start end nid exact_nid mb =
    (let flags = choose_memblock_flags mb;
         align = (if align0 = 0 then SMP_CACHE_BYTES else align0) in
     obind (alloc_range_round size' align start end nid exact_nid flags mb) (\<lambda>(mb1, found).
       if found \<noteq> 0 then Ret (mb1, found)
       else if flags AND MEMBLOCK_MIRROR \<noteq> 0
       then alloc_range_round size' align start end nid exact_nid (flags AND NOT MEMBLOCK_MIRROR) mb1
       else Ret (mb1, 0)))"

definition memblock_phys_alloc_range ::
  "phys_addr \<Rightarrow> phys_addr \<Rightarrow> phys_addr \<Rightarrow> phys_addr \<Rightarrow> memblock_env
    \<Rightarrow> (memblock_env \<times> phys_addr) outcome" where
  "memblock_phys_alloc_range size' align start end mb =
    memblock_alloc_range_nid size' align start end NUMA_NO_NODE False mb"

section \<open>kmalloc and kfree\<close>

text \<open>
  The heap is the allocator, the header fields \<open>buf_size\<close> by the virtual address of their
  \<open>struct malloc_mem_region\<close> (16 bytes: \<open>buf_size\<close> and \<open>vm\<close>), and the bytes of memory.
\<close>

record kheap =
  kh_mb :: memblock_env
  kh_buf_size :: "u64 \<Rightarrow> u64"
  kh_bytes :: "u64 \<Rightarrow> u8"
  kmalloc_ready :: bool

abbreviation GFP_ZERO :: u32 where "GFP_ZERO \<equiv> 0x100"
abbreviation MEM_REGION_HDR :: u64 where "MEM_REGION_HDR \<equiv> 16"

definition kmalloc_set_ready :: "kheap \<Rightarrow> kheap" where
  "kmalloc_set_ready h = h\<lparr>kmalloc_ready := True\<rparr>"

definition kmalloc_is_ready :: "kheap \<Rightarrow> bool" where
  "kmalloc_is_ready h = kmalloc_ready h"

definition is_power_of_2 :: "u64 \<Rightarrow> bool" where
  "is_power_of_2 n \<longleftrightarrow> n \<noteq> 0 \<and> n AND (n - 1) = 0"

fun bit_length :: "nat \<Rightarrow> nat" where
  "bit_length n = (if n = 0 then 0 else Suc (bit_length (n div 2)))"

declare bit_length.simps [simp del]

definition fls :: "u32 \<Rightarrow> nat" where
  "fls x = (if x \<noteq> 0 then bit_length (unat x) else 0)"

definition size_add :: "u64 \<Rightarrow> u64 \<Rightarrow> u64" where
  "size_add a b = (if uint a + uint b \<ge> 2 ^ 64 then -1 else a + b)"

text \<open>\<open>struct_size(region, buf, size)\<close>; the size of the flexible array of bytes is \<open>size\<close>.\<close>

definition region_bytes :: "u64 \<Rightarrow> u64" where
  "region_bytes size' = size_add MEM_REGION_HDR size'"

text \<open>The size \<open>kmalloc\<close> computes: rounded up to a power of two and doubled.\<close>

definition kmalloc_size :: "u64 \<Rightarrow> u64" where
  "kmalloc_size size' =
    (let align = (if is_power_of_2 size' then size' else push_bit (fls (ucast size')) 1) in
     push_bit 1 ((size' + align - 1) AND NOT (align - 1)))"

definition kmalloc :: "u64 \<Rightarrow> u32 \<Rightarrow> kheap \<Rightarrow> (kheap \<times> u64) outcome" where
  "kmalloc size0 flags h =
    (if size0 = 0 then Ret (h, 0)
     else
       let size' = kmalloc_size size0 in
       obind (memblock_phys_alloc_range (region_bytes size') 0 0 0 (kh_mb h)) (\<lambda>(mb', pa).
         let region = phys_to_virt pa; buf = region + MEM_REGION_HDR;
             h1 = h\<lparr>kh_mb := mb', kh_buf_size := (kh_buf_size h)(region := size')\<rparr> in
         Ret (if flags AND GFP_ZERO \<noteq> 0
              then h1\<lparr>kh_bytes := (\<lambda>a. if a - buf < size' then 0 else kh_bytes h a)\<rparr>
              else h1, buf)))"

definition kfree :: "u64 \<Rightarrow> kheap \<Rightarrow> kheap outcome" where
  "kfree ptr h =
    (let region = ptr - MEM_REGION_HDR in
     obind (memblock_phys_free (virt_to_phys region) (region_bytes (kh_buf_size h region)) (kh_mb h))
       (\<lambda>(mb', _). Ret (h\<lparr>kh_mb := mb'\<rparr>)))"

definition kzalloc :: "u64 \<Rightarrow> u32 \<Rightarrow> kheap \<Rightarrow> (kheap \<times> u64) outcome" where
  "kzalloc size' flags h = kmalloc size' (flags OR GFP_ZERO) h"

definition kmalloc_array :: "u64 \<Rightarrow> u64 \<Rightarrow> u32 \<Rightarrow> kheap \<Rightarrow> (kheap \<times> u64) outcome" where
  "kmalloc_array n size' flags h =
    (if uint n * uint size' \<ge> 2 ^ 64 then Ret (h, 0) else kmalloc (n * size') flags h)"

section \<open>Physical memory at boot\<close>

text \<open>The linker symbols \<open>reserve_kimage\<close> reads are inputs of the program.\<close>

record kimage_syms =
  sym_stext :: u64
  sym_etext :: u64
  sym_start_rodata :: u64
  sym_init_begin :: u64
  sym_inittext_begin :: u64
  sym_inittext_end :: u64
  sym_initdata_begin :: u64
  sym_initdata_end :: u64
  sym_data :: u64
  sym_kimage_end :: u64
  kimage_voffset :: u64

definition reserve_all ::
  "(phys_addr \<times> phys_addr) list \<Rightarrow> memblock_env \<Rightarrow> memblock_env outcome" where
  "reserve_all rs mb = foldl (\<lambda>acc (b, n). obind acc (\<lambda>m. obind (memblock_reserve b n m) (\<lambda>(m', _). Ret m')))
     (Ret mb) rs"

definition kimage_sections :: "kimage_syms \<Rightarrow> (phys_addr \<times> phys_addr) list" where
  "kimage_sections k =
    [(sym_stext k - kimage_voffset k, sym_etext k - sym_stext k),
     (sym_start_rodata k - kimage_voffset k, sym_init_begin k - sym_start_rodata k),
     (sym_inittext_begin k - kimage_voffset k, sym_inittext_end k - sym_inittext_begin k),
     (sym_initdata_begin k - kimage_voffset k, sym_initdata_end k - sym_initdata_begin k),
     (sym_data k - kimage_voffset k, sym_kimage_end k - sym_data k)]"

definition reserve_kimage :: "kimage_syms \<Rightarrow> memblock_env \<Rightarrow> memblock_env outcome" where
  "reserve_kimage k mb = reserve_all (kimage_sections k) mb"

definition physmem_table :: "(phys_addr \<times> phys_addr) list" where
  "physmem_table = [(RAM_BASE, RAM_SIZE)]"

definition physmem_init :: "kimage_syms \<Rightarrow> memblock_env \<Rightarrow> memblock_env outcome" where
  "physmem_init k mb =
    obind (foldl (\<lambda>acc (b, n). obind acc (\<lambda>m. obind (memblock_add b n m) (\<lambda>(m', _). Ret m')))
             (Ret mb) physmem_table)
      (reserve_kimage k)"

end
