(* ===== verification/Memblock_Ops.thy ===== *)
theory Memblock_Ops
  imports Memblock_Alloc
begin

text \<open>
  \<open>memblock_add_range\<close> and \<open>memblock_remove_range\<close> on arrays with room: they return 0, keep
  the invariant \<open>mt_wf\<close> and minimality, and act on the map from addresses to attributes as
  an extension (existing attributes win) and as a restriction. The locale
  \<open>addr_store\<close> states this contract and derives what clients of the allocator rely on.
\<close>

section \<open>Selecting an array\<close>

lemma get_set_type [simp]:
  "get_type sel (set_type sel t mb) = t"
  "sel \<noteq> sel' \<Longrightarrow> get_type sel (set_type sel' t mb) = get_type sel mb"
  by (cases sel; cases sel'; simp)+

lemma set_set_type [simp]: "set_type sel t (set_type sel t' mb) = set_type sel t mb"
  by (cases sel) simp_all

lemma set_get_type [simp]: "set_type sel (get_type sel mb) mb = mb"
  by (cases sel) simp_all

section \<open>Adding a range\<close>

lemma length_add_list: "length (add_list e nid fl b rs) = length rs + add_need e b rs"
proof -
  have "length (fst (add_walk e nid fl b rs)) + length (snd (snd (add_walk e nid fl b rs)))
      = length rs + walk_need e b rs"
    by (induction rs arbitrary: b) (auto simp: case_prod_unfold)
  moreover have "fst (snd (add_walk e nid fl b rs)) = fst (snd (add_walk e 0 0 b rs))"
    by (metis add_walk_indep)
  ultimately show ?thesis by (auto simp: add_list_def add_need_def split: prod.splits)
qed

lemma length_merge_list: "length (merge_list n rs) \<le> length rs"
  by (induction n rs rule: merge_list.induct) auto

lemma add_need_free:
  assumes "rchain lo rs" and "\<forall>a. b \<le> a \<and> a < e \<longrightarrow> attr_at rs a = None" and "b < e"
  shows "add_need e b rs \<le> 1"
proof -
  have "walk_need e b rs = 0" using assms
  proof (induction rs arbitrary: lo)
    case (Cons r rs)
    have r: "rchain (rg_end r) rs" "rg_base r < rg_end r" using Cons.prems(1) by simp_all
    have "\<forall>a. b \<le> a \<and> a < e \<longrightarrow> attr_at rs a = None"
      using Cons.prems(2) by (metis attr_at.simps(2) option.distinct(1))
    from Cons.IH [OF r(1) this Cons.prems(3)] have IH: "walk_need e b rs = 0" .
    have "e \<le> rg_base r \<or> rg_end r \<le> b"
    proof (rule ccontr)
      assume *: "\<not> ?thesis"
      let ?a = "max b (rg_base r)"
      have "rg_has r ?a" "b \<le> ?a" "?a < e" using * r(2) Cons.prems(3) by (auto simp: rg_has_def)
      with Cons.prems(2) show False by (metis attr_at.simps(2) option.distinct(1))
    qed
    with IH show ?case by auto
  qed simp
  then show ?thesis by (simp add: add_need_def)
qed

lemma merge_regions_ok:
  assumes "mt_shape t" and "rchain 0 (used t)" and "track orig (used t) s en" and "s \<noteq> -1"
    and "used t \<noteq> []"
  shows "\<exists>t'. memblock_merge_regions t (nat s) (nat en) = Ret t' \<and> mt_shape t' \<and> same_array t t'
    \<and> rchain 0 (used t') \<and> used t' \<noteq> [] \<and> attr_at (used t') = attr_at (used t)
    \<and> (minimal orig \<longrightarrow> minimal (used t')) \<and> length (used t') \<le> length (used t)"
proof -
  obtain P Q0 Q R where o: "orig = P @ Q0 @ R" and c: "used t = P @ Q @ R"
    and s: "s = int (length P)" and en: "en = int (length P + length Q)"
    using assms(3,4) by (auto simp: track_def)
  define rs where "rs = (if P = [] then [] else [last P]) @ Q @ R"
  define i where "i = length P - 1"
  define n where "n = min (length P + length Q) (mt_cnt t - 1) - i"
  have u: "used t = butlast P @ rs" and i: "i = length (butlast P)"
    by (auto simp: c rs_def i_def)
  have "mt_cnt t = length (used t)" using length_used [OF assms(1)] by simp
  then have cnt: "mt_cnt t = length P + length Q + length R" "0 < mt_cnt t"
    using c assms(5) by simp_all
  have lrs: "length rs = mt_cnt t - i" by (cases P) (simp_all add: rs_def i_def cnt)
  have in': "i + n = min (length P + length Q) (mt_cnt t - 1)"
    using cnt unfolding n_def i_def by linarith
  then have "n = 0 \<or> n < length rs" using lrs cnt by linarith
  moreover define lo where "lo = (if butlast P = [] then 0 else rg_end (last (butlast P)))"
  then have lo: "rchain lo rs" and pre: "rchain 0 (butlast P)"
    using assms(2) unfolding u rchain_append by simp_all
  ultimately obtain t' where t': "memblock_merge_loop t i (i + n) = Ret t'"
    "used t' = butlast P @ merge_list n rs" "mt_shape t'" "same_array t t'"
    using merge_loop_ok [OF assms(1) u i lo, of n] by blast
  have "memblock_merge_regions t (nat s) (nat en) = Ret t'"
  proof -
    have "nat s = length P" "nat en = length P + length Q" using s en by simp_all
    moreover have "(if length P \<noteq> 0 then length P - 1 else 0) = i" by (simp add: i_def)
    ultimately show ?thesis using t'(1) unfolding memblock_merge_regions_def in' by (simp only:)
  qed
  moreover have "rchain 0 (used t')"
    using pre rchain_merge_list [OF lo, of n] unfolding t'(2) rchain_append lo_def by simp
  moreover have "length rs \<noteq> 0" using lrs cnt unfolding i_def by linarith
  then have "rs \<noteq> []" by simp
  then have "used t' \<noteq> []" using merge_list_hd [of rs n] t'(2) by simp
  moreover have "attr_at (used t') = attr_at (used t)"
    unfolding t'(2) u fun_eq_iff attr_at_append attr_at_merge_list [OF lo] by simp
  moreover have "minimal (used t')" if "minimal orig"
  proof -
    have "drop n rs = R \<or> length rs \<le> Suc n"
    proof (cases "R = []")
      case True
      then show ?thesis using in' lrs cnt i_def by auto
    next
      case False
      then have "length R \<noteq> 0" by simp
      then have "n = length rs - length R" using in' lrs cnt unfolding i_def by linarith
      then show ?thesis by (simp add: rs_def)
    qed
    then show ?thesis
      unfolding t'(2) using merge_list_minimal_context [of P Q0 R rs Q n] that o rs_def by simp
  qed
  moreover have "length (used t') \<le> length (used t)"
    using length_merge_list [of n rs] by (simp add: t'(2) u)
  ultimately show ?thesis using t'(3,4) by blast
qed

lemma add_range_insert_ok:
  assumes "mt_wf (get_type sel mb)" and "used (get_type sel mb) \<noteq> []" and "b < e"
    and "mt_cnt (get_type sel mb) + add_need e b (used (get_type sel mb)) \<le> mt_max (get_type sel mb)"
  shows "\<exists>t'. add_range_insert sel b e nid fl mb = Ret (set_type sel t' mb, 0) \<and> mt_wf t'
    \<and> same_array (get_type sel mb) t' \<and> used t' \<noteq> []
    \<and> mt_attr t' = add_attr b e (nid, fl) (mt_attr (get_type sel mb))
    \<and> (minimal (used (get_type sel mb)) \<longrightarrow> minimal (used t'))
    \<and> (add_need e b (used (get_type sel mb)) = 0 \<longrightarrow> mt_attr t' = mt_attr (get_type sel mb))
    \<and> mt_cnt t' \<le> mt_cnt (get_type sel mb) + add_need e b (used (get_type sel mb))"
proof -
  let ?t = "get_type sel mb"
  have sh: "mt_shape ?t" and ch: "rchain 0 (used ?t)" and mx: "0 < mt_max ?t"
    using assms(1) by (simp_all add: mt_wf_def)
  obtain t1 s en where p: "memblock_add_pass True b e nid fl ?t = Ret (t1, add_need e b (used ?t), s, en)"
    and u: "used t1 = add_list e nid fl b (used ?t)" and t1: "mt_shape t1" "same_array ?t t1"
    and tr: "track (used ?t) (used t1) s en" "s = -1 \<longleftrightarrow> add_need e b (used ?t) = 0"
    using add_pass_insert [OF sh assms(4)] by blast
  have ch1: "rchain 0 (used t1)" unfolding u by (rule rchain_add_list [OF ch]) (use assms(3) in auto)
  have at1: "mt_attr t1 = add_attr b e (nid, fl) (mt_attr ?t)"
    using attr_at_add_list [OF ch, of b e nid fl] assms(3) by (auto simp: mt_attr_def u fun_eq_iff)
  have len1: "length (used t1) = mt_cnt ?t + add_need e b (used ?t)"
    by (simp add: u length_add_list length_used [OF sh])
  have ne: "used t1 \<noteq> []"
  proof -
    have "track (used ?t) [] s en \<Longrightarrow> used ?t \<noteq> [] \<Longrightarrow> s \<noteq> -1" by (auto simp: track_def)
    moreover have "add_list e nid fl b (r # rs) \<noteq> []" for r rs by (simp add: add_list_Cons)
    ultimately show ?thesis using assms(2) u by (metis list.exhaust)
  qed
  show ?thesis
  proof (cases "add_need e b (used ?t) = 0")
    case True
    then have "used t1 = used ?t" using tr by (auto simp: track_def)
    moreover have "mt_wf t1"
      using t1 ch1 mx ne length_used [OF t1(1)] by (auto simp: mt_wf_def same_array_def)
    moreover have "mt_cnt t1 \<le> mt_cnt ?t + add_need e b (used ?t)" using len1 length_used [OF t1(1)] by simp
    ultimately show ?thesis using p True t1 at1 ne by (auto simp: add_range_insert_def mt_attr_def)
  next
    case False
    with tr have "s \<noteq> -1" by simp
    from merge_regions_ok [OF t1(1) ch1 tr(1) this ne] obtain t2 where
      m: "memblock_merge_regions t1 (nat s) (nat en) = Ret t2" "mt_shape t2" "same_array t1 t2"
        "rchain 0 (used t2)" "used t2 \<noteq> []" "attr_at (used t2) = attr_at (used t1)"
        "minimal (used ?t) \<longrightarrow> minimal (used t2)" "length (used t2) \<le> length (used t1)" by blast
    have "mt_wf t2" using m mx t1(2) length_used [OF m(2)] by (auto simp: mt_wf_def same_array_def)
    moreover have "add_range_insert sel b e nid fl mb = Ret (set_type sel t2 mb, 0)"
      using p False m(1) by (simp add: add_range_insert_def)
    moreover have "mt_attr t2 = add_attr b e (nid, fl) (mt_attr ?t)" using at1 m(6) by (simp add: mt_attr_def)
    moreover have "same_array ?t t2" using t1(2) m(3) by (rule same_array_trans)
    moreover have "mt_cnt t2 \<le> mt_cnt ?t + add_need e b (used ?t)"
      using m(8) len1 length_used [OF m(2)] by simp
    ultimately show ?thesis using m(5,7) False by (intro exI [of _ t2]) simp
  qed
qed

text \<open>The end of a range after \<open>memblock_cap_size\<close>.\<close>

definition range_end :: "phys_addr \<Rightarrow> phys_addr \<Rightarrow> phys_addr" where
  "range_end base size' = base + memblock_cap_size base size'"

lemma range_end_ge: "base \<le> range_end base size'"
proof -
  define m where "m = memblock_cap_size base size'"
  have "m \<le> PHYS_ADDR_MAX - base" by (simp add: m_def memblock_cap_size_def)
  then have "unat m \<le> unat (PHYS_ADDR_MAX - base)" by (simp add: word_le_nat_alt)
  also have "\<dots> = unat PHYS_ADDR_MAX - unat base" by (rule unat_sub) simp
  finally have "unat m + unat base \<le> unat PHYS_ADDR_MAX"
    using word_le_nat_alt [of base PHYS_ADDR_MAX] by simp
  also have "\<dots> < 2 ^ LENGTH(64)" by (rule unsigned_less)
  finally have "unat base + unat m < 2 ^ LENGTH(64)" by (simp only: add.commute)
  then have "base \<le> base + m" by (simp only: no_olen_add_nat)
  then show ?thesis by (simp add: range_end_def m_def)
qed

lemma range_end_gt: "memblock_cap_size base size' \<noteq> 0 \<Longrightarrow> base < range_end base size'"
  using range_end_ge [of base size'] by (auto simp: range_end_def less_le)

lemma range_end_0: "memblock_cap_size base size' = 0 \<Longrightarrow> range_end base size' = base"
  by (simp add: range_end_def)

lemma add_attr_empty [simp]: "add_attr b b v m = m"
  by (auto simp: add_attr_def fun_eq_iff split: option.splits)

text \<open>The array has room for the regions an addition inserts, so that no resizing happens.\<close>

definition add_room :: "memblock_type \<Rightarrow> phys_addr \<Rightarrow> phys_addr \<Rightarrow> bool" where
  "add_room t base size' \<longleftrightarrow>
    mt_cnt t + add_need (range_end base size') base (used t) \<le> mt_max t"

lemma add_room_half: "mt_wf t \<Longrightarrow> mt_cnt t * 2 + 1 \<le> mt_max t \<Longrightarrow> add_room t base size'"
  using add_need_le [of "range_end base size'" base "used t"]
  by (auto simp: add_room_def mt_wf_def length_used)

lemma wf_first_region: "mt_wf t \<Longrightarrow> rg_size (mt_regions t ! 0) = 0 \<longleftrightarrow> used t = []"
proof -
  assume wf: "mt_wf t"
  show ?thesis
  proof (cases "used t")
    case Nil
    then have "mt_cnt t = 0" using wf length_used [of t] by (simp add: mt_wf_def)
    with Nil wf show ?thesis by (simp add: mt_wf_def)
  next
    case (Cons r rs)
    then have "mt_regions t ! 0 = r" using nth_used_split [of t "[]" r rs 0] wf by (simp add: mt_wf_def)
    moreover have "rg_base r < rg_end r" using wf Cons by (simp add: mt_wf_def)
    ultimately show ?thesis using Cons by (auto simp: rg_end_def)
  qed
qed

lemma add_range_with_ok:
  assumes "mt_wf (get_type sel mb)" and "add_room (get_type sel mb) base size'"
  shows "\<exists>t'. add_range_with dbl sel base size' nid fl mb = Ret (set_type sel t' mb, 0) \<and> mt_wf t'
    \<and> same_array (get_type sel mb) t'
    \<and> mt_attr t' = add_attr base (range_end base size') (nid, fl) (mt_attr (get_type sel mb))
    \<and> (minimal (used (get_type sel mb)) \<longrightarrow> minimal (used t'))
    \<and> mt_cnt t' \<le> mt_cnt (get_type sel mb) + add_need (range_end base size') base (used (get_type sel mb))"
proof -
  let ?t = "get_type sel mb" and ?e = "range_end base size'" and ?n = "memblock_cap_size base size'"
  have sh: "mt_shape ?t" and mx: "0 < mt_max ?t" using assms(1) by (simp_all add: mt_wf_def)
  consider (zero) "?n = 0" | (empty) "?n \<noteq> 0" "used ?t = []" | (more) "?n \<noteq> 0" "used ?t \<noteq> []" by blast
  then show ?thesis
  proof cases
    case zero
    with assms(1) show ?thesis
      by (auto simp: add_range_with_def Let_def range_end_0 intro!: exI [of _ ?t])
  next
    case empty
    let ?r = "\<lparr>rg_base = base, rg_size = ?n, rg_flags = fl, rg_nid = nid\<rparr>"
    let ?t' = "?t\<lparr>mt_regions := (mt_regions ?t)[0 := ?r], mt_total_size := ?n, mt_cnt := 1\<rparr>"
    have "mt_regions ?t \<noteq> []" using sh mx by (auto simp: mt_shape_def)
    then have u: "used ?t' = [?r]" by (cases "mt_regions ?t") (auto simp: used_def)
    have e: "rg_end ?r = ?e" by (simp add: rg_end_def range_end_def)
    have "mt_wf ?t'"
      using sh mx u e range_end_gt [OF empty(1)] by (simp add: mt_wf_def mt_shape_def)
    moreover have "mt_attr ?t' = add_attr base ?e (nid, fl) (mt_attr ?t)"
      using u e empty(2) by (auto simp: mt_attr_def add_attr_def fun_eq_iff rg_has_def rg_attr_def)
    moreover have "mt_cnt ?t' \<le> mt_cnt ?t + add_need ?e base (used ?t)"
      using empty(2) range_end_gt [OF empty(1)] by (simp add: add_need_def)
    ultimately show ?thesis
      using empty u wf_first_region [OF assms(1)]
      by (auto simp: add_range_with_def Let_def same_array_def intro!: exI [of _ ?t'])
  next
    case more
    have "mt_cnt ?t + add_need ?e base (used ?t) \<le> mt_max ?t" using assms(2) by (simp add: add_room_def)
    from add_range_insert_ok [OF assms(1) more(2) range_end_gt [OF more(1)] this, of nid fl]
    obtain t' where t': "add_range_insert sel base ?e nid fl mb = Ret (set_type sel t' mb, 0)" "mt_wf t'"
      "same_array ?t t'" "mt_attr t' = add_attr base ?e (nid, fl) (mt_attr ?t)"
      "minimal (used ?t) \<longrightarrow> minimal (used t')"
      "add_need ?e base (used ?t) = 0 \<longrightarrow> mt_attr t' = mt_attr ?t"
      "mt_cnt t' \<le> mt_cnt ?t + add_need ?e base (used ?t)"
      by (elim exE conjE) (rule that; assumption)
    have ne: "rg_size (mt_regions ?t ! 0) \<noteq> 0" using wf_first_region [OF assms(1)] more(2) by simp
    show ?thesis
    proof (cases "mt_cnt ?t * 2 + 1 \<le> mt_max ?t \<or> add_need ?e base (used ?t) \<noteq> 0")
      case True
      have "grow_array GROW_FUEL dbl (add_need ?e base (used ?t)) sel base ?n mb = Ret (mb, 0)"
        using assms(2) by (simp add: add_room_def grow_array.simps(2) [of 63, simplified])
      then have "add_range_with dbl sel base size' nid fl mb = add_range_insert sel base ?e nid fl mb"
        using more ne True add_pass_count [OF sh, of base ?e nid fl]
        by (auto simp: add_range_with_def Let_def range_end_def)
      with t' show ?thesis by auto
    next
      case False
      then have "add_range_with dbl sel base size' nid fl mb = Ret (mb, 0)"
        using more ne add_pass_count [OF sh, of base ?e nid fl]
        by (auto simp: add_range_with_def Let_def range_end_def)
      moreover have "mt_attr t' = mt_attr ?t" using t'(6) False by simp
      ultimately show ?thesis using t' assms(1) by (auto intro!: exI [of _ ?t])
    qed
  qed
qed

section \<open>Isolating and removing a range\<close>

lemma isolate_list_attr:
  assumes "rchain lo rs" and "b \<le> e"
  shows "attr_at (cut_below b rs @ cut_below e (cut_above b rs) @ cut_above e (cut_above b rs)) a = attr_at rs a"
proof -
  note c = rchain_cut_above [OF assms(1), of b]
  show ?thesis
    using assms(2)
    by (auto simp: attr_at_append attr_at_cut_below [OF assms(1)] attr_at_cut_above [OF assms(1)]
        attr_at_cut_below [OF c] attr_at_cut_above [OF c] split: option.splits)
qed

lemma removed_attr:
  assumes "rchain lo rs" and "b \<le> e"
  shows "attr_at (cut_below b rs @ cut_above e (cut_above b rs)) a
    = (if b \<le> a \<and> a < e then None else attr_at rs a)"
proof -
  note c = rchain_cut_above [OF assms(1), of b]
  show ?thesis
    using assms(2)
    by (auto simp: attr_at_append attr_at_cut_below [OF assms(1)] attr_at_cut_above [OF assms(1)]
        attr_at_cut_below [OF c] attr_at_cut_above [OF c] split: option.splits)
qed

lemma removed_rchain:
  assumes "rchain 0 rs" and "b \<le> e"
  shows "rchain 0 (cut_below b rs @ cut_above e (cut_above b rs))"
proof -
  have "rchain (max (max 0 b) e) (cut_above e (cut_above b rs))"
    by (intro rchain_cut_above assms(1))
  then have "rchain b (cut_above e (cut_above b rs))"
    by (rule rchain_mono) (use assms(2) in simp)
  from rchain_cut_below [OF assms(1) this] show ?thesis by simp
qed

lemma cut_below_end: "r \<in> set (cut_below b rs) \<Longrightarrow> rg_end r \<le> b"
  by (induction rs) (auto split: if_splits)

lemma cut_above_base: "r \<in> set (cut_above e rs) \<Longrightarrow> e \<le> rg_base r"
  by (induction rs) (auto split: if_splits)

lemma cut_below_hd:
  "rchain lo rs \<Longrightarrow> cut_below b rs \<noteq> [] \<Longrightarrow>
    rs \<noteq> [] \<and> rg_base (hd (cut_below b rs)) = rg_base (hd rs) \<and> rg_attr (hd (cut_below b rs)) = rg_attr (hd rs)"
proof (cases rs)
  case (Cons r rs')
  assume *: "rchain lo rs" "cut_below b rs \<noteq> []"
  have "\<not> rg_end r \<le> b \<Longrightarrow> \<not> rg_base r < b \<Longrightarrow> cut_below b rs' = []"
    using * Cons cut_below_above_id [of b rs'] rchain_mono [of "rg_end r" rs' b] by auto
  with * Cons show ?thesis by auto
qed simp

lemma minimal_append:
  "minimal xs \<Longrightarrow> minimal ys \<Longrightarrow> xs = [] \<or> ys = [] \<or> \<not> mergeable (last xs) (hd ys) \<Longrightarrow> minimal (xs @ ys)"
proof (induction xs)
  case (Cons x xs)
  then show ?case by (cases xs) (simp_all add: minimal_Cons)
qed simp

lemma minimal_cut_below: "rchain lo rs \<Longrightarrow> minimal rs \<Longrightarrow> minimal (cut_below b rs)"
proof (induction rs arbitrary: lo)
  case (Cons r rs)
  then have ch: "rchain (rg_end r) rs" and IH: "minimal (cut_below b rs)" by (auto simp: minimal_Cons)
  have "cut_below b rs = []" if "\<not> rg_end r \<le> b"
    using cut_below_above_id [of b rs] rchain_mono [OF ch, of b] that by auto
  moreover have "cut_below b rs = [] \<or> \<not> mergeable r (hd (cut_below b rs))"
  proof (cases "cut_below b rs = []")
    case False
    from cut_below_hd [OF ch this] Cons.prems(2) show ?thesis by (simp add: minimal_Cons mergeable_iff)
  qed simp
  ultimately show ?case using IH by (simp add: minimal_Cons)
qed simp

lemma minimal_cut_above: "rchain lo rs \<Longrightarrow> minimal rs \<Longrightarrow> minimal (cut_above e rs)"
proof (induction rs arbitrary: lo)
  case (Cons r rs)
  then have ch: "rchain (rg_end r) rs" and IH: "minimal (cut_above e rs)" and m: "minimal rs"
    by (auto simp: minimal_Cons)
  have "cut_above e rs = rs" if "e \<le> rg_base r \<or> e < rg_end r"
  proof -
    have "e \<le> rg_end r" using that Cons.prems(1) by auto
    then show ?thesis using cut_below_above_id [of e rs] rchain_mono [OF ch, of e] by auto
  qed
  moreover have "minimal (sub_region r e (rg_end r) # rs)"
    using m Cons.prems(2) by (simp add: minimal_Cons mergeable_iff)
  ultimately show ?case using IH Cons.prems(2) by simp
qed simp

lemma removed_minimal:
  assumes "rchain lo rs" and "b < e" and "minimal rs"
  shows "minimal (cut_below b rs @ cut_above e (cut_above b rs))"
proof (rule minimal_append)
  show "minimal (cut_below b rs)" by (rule minimal_cut_below [OF assms(1,3)])
  show "minimal (cut_above e (cut_above b rs))"
    by (rule minimal_cut_above [OF rchain_cut_above [OF assms(1)] minimal_cut_above [OF assms(1,3)]])
  have "\<not> mergeable (last (cut_below b rs)) (hd (cut_above e (cut_above b rs)))"
    if "cut_below b rs \<noteq> []" "cut_above e (cut_above b rs) \<noteq> []"
  proof -
    have "rg_end (last (cut_below b rs)) \<le> b" "e \<le> rg_base (hd (cut_above e (cut_above b rs)))"
      using cut_below_end [OF last_in_set [OF that(1)]] cut_above_base [OF hd_in_set [OF that(2)]] by simp_all
    with assms(2) show ?thesis by (auto simp: mergeable_iff)
  qed
  then show "cut_below b rs = [] \<or> cut_above e (cut_above b rs) = []
      \<or> \<not> mergeable (last (cut_below b rs)) (hd (cut_above e (cut_above b rs)))" by blast
qed

lemma grow_array_id:
  "mt_cnt (get_type sel mb) + need \<le> mt_max (get_type sel mb) \<Longrightarrow> 0 < n
    \<Longrightarrow> grow_array n dbl need sel base size' mb = Ret (mb, 0)"
  by (cases n) auto

lemma isolate_range_with_ok:
  assumes "mt_wf (get_type sel mb)" and "mt_cnt (get_type sel mb) + 2 \<le> mt_max (get_type sel mb)"
    and "memblock_cap_size base size' \<noteq> 0" and "used (get_type sel mb) = rs" and "rs \<noteq> []"
    and "e = range_end base size'"
  shows "\<exists>t' s en. isolate_range_with dbl sel base size' mb = Ret (set_type sel t' mb, 0, s, en)
    \<and> used t' = cut_below base rs @ cut_below e (cut_above base rs) @ cut_above e (cut_above base rs)
    \<and> mid_range (cut_below base rs) (cut_below e (cut_above base rs)) = (s, en)
    \<and> mt_shape t' \<and> same_array (get_type sel mb) t'"
proof -
  let ?t = "get_type sel mb"
  have sh: "mt_shape ?t" and ch: "rchain 0 rs" using assms(1,4) by (simp_all add: mt_wf_def)
  have be: "base < e" using range_end_gt [OF assms(3)] assms(6) by simp
  have len: "length rs + 5 \<le> mt_cnt ?t + 6" using length_used [OF sh] assms(4) by simp
  obtain t' s en where l: "memblock_isolate_loop (mt_cnt ?t + 6) base e ?t 0 0 0 = Ret (t', s, en)"
    and u: "used t' = cut_below base rs @ cut_below e (cut_above base rs) @ cut_above e (cut_above base rs)"
    and m: "mid_range (cut_below base rs) (cut_below e (cut_above base rs)) = (s, en)"
    and t': "mt_shape t'" "same_array ?t t'"
    using isolate_loop_low [of ?t "[]" rs 0 base e "mt_cnt ?t + 6"] sh assms(2,4) ch be len by auto
  have "isolate_range_with dbl sel base size' mb = Ret (set_type sel t' mb, 0, s, en)"
    using assms(3) l grow_array_id [OF assms(2), of GROW_FUEL dbl]
    by (simp add: isolate_range_with_def Let_def assms(6) range_end_def)
  with u m t' show ?thesis by blast
qed

lemma remove_range_with_ok:
  assumes "mt_wf (get_type sel mb)" and "mt_cnt (get_type sel mb) + 2 \<le> mt_max (get_type sel mb)"
  shows "\<exists>t'. remove_range_with dbl sel base size' mb = Ret (set_type sel t' mb, 0) \<and> mt_wf t'
    \<and> same_array (get_type sel mb) t'
    \<and> mt_attr t' = (\<lambda>a. if base \<le> a \<and> a < range_end base size' then None else mt_attr (get_type sel mb) a)
    \<and> (minimal (used (get_type sel mb)) \<longrightarrow> minimal (used t'))"
proof -
  let ?t = "get_type sel mb" and ?e = "range_end base size'" and ?n = "memblock_cap_size base size'"
  let ?rs = "used ?t"
  have sh: "mt_shape ?t" and ch: "rchain 0 ?rs" and mx: "0 < mt_max ?t"
    using assms(1) by (simp_all add: mt_wf_def)
  consider (zero) "?n = 0" | (empty) "?n \<noteq> 0" "?rs = []" | (more) "?n \<noteq> 0" "?rs \<noteq> []" by blast
  then show ?thesis
  proof cases
    case zero
    then have "?e = base" by (rule range_end_0)
    then have "mt_attr ?t = (\<lambda>a. if base \<le> a \<and> a < ?e then None else mt_attr ?t a)"
      by (auto simp: fun_eq_iff)
    with zero assms(1) show ?thesis
      by (intro exI [of _ ?t]) (simp add: remove_range_with_def isolate_range_with_def Let_def)
  next
    case empty
    then have "memblock_isolate_loop (mt_cnt ?t + 6) base ?e ?t 0 0 0 = Ret (?t, 0, 0)"
      using isolate_end [of 0 ?t "mt_cnt ?t + 5" base ?e 0 0] length_used [OF sh] by simp
    then have "remove_range_with dbl sel base size' mb = Ret (set_type sel ?t mb, 0)"
      using empty(1) grow_array_id [OF assms(2), of GROW_FUEL dbl]
      by (simp add: remove_range_with_def isolate_range_with_def Let_def range_end_def)
    moreover have "mt_attr ?t = (\<lambda>a. if base \<le> a \<and> a < ?e then None else mt_attr ?t a)"
      using empty(2) by (simp add: mt_attr_def fun_eq_iff)
    ultimately show ?thesis using assms(1) by (intro exI [of _ ?t]) simp
  next
    case more
    define L M R where "L = cut_below base ?rs" and "M = cut_below ?e (cut_above base ?rs)"
      and "R = cut_above ?e (cut_above base ?rs)"
    obtain t' s en where i: "isolate_range_with dbl sel base size' mb = Ret (set_type sel t' mb, 0, s, en)"
      and u: "used t' = L @ M @ R" and m: "mid_range L M = (s, en)" and t': "mt_shape t'" "same_array ?t t'"
      using isolate_range_with_ok [OF assms more(1) refl more(2) refl, of dbl] unfolding L_def M_def R_def by blast
    have be: "base < ?e" using range_end_gt [OF more(1)] .
    obtain r rs' where r: "?rs = r # rs'" using more(2) by (cases ?rs) auto
    have "attr_at (L @ M @ R) (rg_base r) \<noteq> None"
      using isolate_list_attr [OF ch, of base ?e "rg_base r"] be ch r
      unfolding L_def M_def R_def by (simp add: rg_has_def)
    then have ne: "L @ M @ R = [] \<longrightarrow> rg_size (mt_regions t' ! 0) = 0"
      by (metis attr_at.simps(1))
    define t2 where "t2 = memblock_remove_loop t' s en"
    have t2: "used t2 = L @ R \<and> mt_shape t2 \<and> same_array t' t2 \<and> (L @ R = [] \<longrightarrow> rg_size (mt_regions t2 ! 0) = 0)"
    proof (cases "M = []")
      case True
      then have "t2 = t'" using m by (simp add: mid_range_def t2_def)
      then show ?thesis using u t' True ne by simp
    next
      case False
      then show ?thesis
        using remove_loop_ok [OF t'(1) u ne] m by (auto simp: mid_range_def t2_def)
    qed
    have "remove_range_with dbl sel base size' mb = Ret (set_type sel t2 mb, 0)"
      using i by (simp add: remove_range_with_def t2_def)
    moreover have "rchain 0 (used t2)"
      using t2 removed_rchain [OF ch, of base ?e] be by (simp add: L_def R_def)
    then have "mt_wf t2" using t2 t'(2) mx length_used [of t2] by (auto simp: mt_wf_def same_array_def)
    moreover have "mt_attr t2 = (\<lambda>a. if base \<le> a \<and> a < ?e then None else mt_attr ?t a)"
      using t2 removed_attr [OF ch, of base ?e] be by (simp add: mt_attr_def L_def R_def fun_eq_iff)
    moreover have "minimal ?rs \<longrightarrow> minimal (used t2)"
      using t2 removed_minimal [OF ch be] by (simp add: L_def R_def)
    moreover have "same_array ?t t2" using t'(2) t2 same_array_trans by blast
    ultimately show ?thesis by blast
  qed
qed

section \<open>The contract of a region array\<close>

definition cut_attr :: "phys_addr \<Rightarrow> phys_addr \<Rightarrow> (phys_addr \<Rightarrow> 'v option) \<Rightarrow> phys_addr \<Rightarrow> 'v option" where
  "cut_attr b e m a = (if b \<le> a \<and> a < e then None else m a)"

locale addr_store =
  fixes invar :: "'s \<Rightarrow> bool"
    and lookup :: "'s \<Rightarrow> phys_addr \<Rightarrow> 'v option"
    and fits :: "phys_addr \<Rightarrow> phys_addr \<Rightarrow> 's \<Rightarrow> bool"
    and slack :: "'s \<Rightarrow> bool"
    and add_op :: "phys_addr \<Rightarrow> phys_addr \<Rightarrow> 'v \<Rightarrow> 's \<Rightarrow> ('s \<times> int) outcome"
    and remove_op :: "phys_addr \<Rightarrow> phys_addr \<Rightarrow> 's \<Rightarrow> ('s \<times> int) outcome"
  assumes add_law: "invar s \<Longrightarrow> fits b n s \<Longrightarrow>
      \<exists>s'. add_op b n v s = Ret (s', 0) \<and> invar s'
        \<and> lookup s' = add_attr b (range_end b n) v (lookup s)"
    and remove_law: "invar s \<Longrightarrow> slack s \<Longrightarrow>
      \<exists>s'. remove_op b n s = Ret (s', 0) \<and> invar s'
        \<and> lookup s' = cut_attr b (range_end b n) (lookup s)"
begin

lemma add_result:
  assumes "invar s" and "fits b n s" and "add_op b n v s = Ret (s', r)"
  shows "r = 0" and "invar s'" and "lookup s' = add_attr b (range_end b n) v (lookup s)"
  using add_law [OF assms(1,2), of v] assms(3) by auto

lemma remove_result:
  assumes "invar s" and "slack s" and "remove_op b n s = Ret (s', r)"
  shows "r = 0" and "invar s'" and "lookup s' = cut_attr b (range_end b n) (lookup s)"
  using remove_law [OF assms(1,2), of b n] assms(3) by auto

lemma add_keeps:
  "invar s \<Longrightarrow> fits b n s \<Longrightarrow> add_op b n v s = Ret (s', r) \<Longrightarrow> lookup s a = Some w \<Longrightarrow> lookup s' a = Some w"
  using add_result(3) by (simp add: add_attr_def)

lemma add_covers:
  "invar s \<Longrightarrow> fits b n s \<Longrightarrow> add_op b n v s = Ret (s', r) \<Longrightarrow> b \<le> a \<Longrightarrow> a < range_end b n
    \<Longrightarrow> lookup s' a \<noteq> None"
  using add_result(3) by (simp add: add_attr_def split: option.splits)

lemma add_remove_id:
  assumes "invar s" and "fits b n s" and "\<forall>a. b \<le> a \<and> a < range_end b n \<longrightarrow> lookup s a = None"
    and "add_op b n v s = Ret (s1, r1)" and "slack s1" and "remove_op b n s1 = Ret (s2, r2)"
  shows "lookup s2 = lookup s \<and> invar s2"
proof -
  note a = add_result [OF assms(1,2,4)]
  note r = remove_result [OF a(2) assms(5,6)]
  have "lookup s2 a = lookup s a" for a
    using assms(3) by (auto simp: r(3) a(3) cut_attr_def add_attr_def split: option.splits)
  with r(2) show ?thesis by blast
qed

end

interpretation mem_type: addr_store
  "\<lambda>mb. mt_wf (mb_memory mb)" "\<lambda>mb. mt_attr (mb_memory mb)"
  "\<lambda>b n mb. add_room (mb_memory mb) b n" "\<lambda>mb. mt_cnt (mb_memory mb) + 2 \<le> mt_max (mb_memory mb)"
  "\<lambda>b n (nid, fl) mb. memblock_add_range MB_memory b n nid fl mb"
  "memblock_remove_range MB_memory"
proof
  fix s :: memblock_env and b n and v :: "int \<times> u32"
  assume "mt_wf (mb_memory s)" and "add_room (mb_memory s) b n"
  then show "\<exists>s'. (case v of (nid, fl) \<Rightarrow> memblock_add_range MB_memory b n nid fl) s = Ret (s', 0)
      \<and> mt_wf (mb_memory s') \<and> mt_attr (mb_memory s') = add_attr b (range_end b n) v (mt_attr (mb_memory s))"
    using add_range_with_ok [of MB_memory s b n "memblock_double_array RESIZE_FUEL" "fst v" "snd v"]
    by (auto simp: memblock_add_range_def split: prod.splits)
next
  fix s :: memblock_env and b n
  assume "mt_wf (mb_memory s)" and "mt_cnt (mb_memory s) + 2 \<le> mt_max (mb_memory s)"
  then show "\<exists>s'. memblock_remove_range MB_memory b n s = Ret (s', 0) \<and> mt_wf (mb_memory s')
      \<and> mt_attr (mb_memory s') = cut_attr b (range_end b n) (mt_attr (mb_memory s))"
    using remove_range_with_ok [of MB_memory s "memblock_double_array RESIZE_FUEL" b n]
    by (auto simp: memblock_remove_range_def cut_attr_def fun_eq_iff)
qed

interpretation res_type: addr_store
  "\<lambda>mb. mt_wf (mb_reserved mb)" "\<lambda>mb. mt_attr (mb_reserved mb)"
  "\<lambda>b n mb. add_room (mb_reserved mb) b n" "\<lambda>mb. mt_cnt (mb_reserved mb) + 2 \<le> mt_max (mb_reserved mb)"
  "\<lambda>b n (nid, fl) mb. memblock_reserve_flags b n nid fl mb"
  "memblock_phys_free"
proof
  fix s :: memblock_env and b n and v :: "int \<times> u32"
  assume "mt_wf (mb_reserved s)" and "add_room (mb_reserved s) b n"
  then show "\<exists>s'. (case v of (nid, fl) \<Rightarrow> memblock_reserve_flags b n nid fl) s = Ret (s', 0)
      \<and> mt_wf (mb_reserved s') \<and> mt_attr (mb_reserved s') = add_attr b (range_end b n) v (mt_attr (mb_reserved s))"
    using add_range_with_ok [of MB_reserved s b n "memblock_double_array RESIZE_FUEL" "fst v" "snd v"]
    by (auto simp: memblock_reserve_flags_def memblock_add_range_def split: prod.splits)
next
  fix s :: memblock_env and b n
  assume "mt_wf (mb_reserved s)" and "mt_cnt (mb_reserved s) + 2 \<le> mt_max (mb_reserved s)"
  then show "\<exists>s'. memblock_phys_free b n s = Ret (s', 0) \<and> mt_wf (mb_reserved s')
      \<and> mt_attr (mb_reserved s') = cut_attr b (range_end b n) (mt_attr (mb_reserved s))"
    using remove_range_with_ok [of MB_reserved s "memblock_double_array RESIZE_FUEL" b n]
    by (auto simp: memblock_phys_free_def memblock_remove_range_def cut_attr_def fun_eq_iff)
qed

end
