(* ===== verification/Memblock_Heap.thy ===== *)
theory Memblock_Heap
  imports Memblock_Ops
begin

text \<open>
  Lemmas on the composed operations: allocation finds a free block and reserves exactly
  that block, releasing it restores the map of reserved addresses, \<open>kmalloc\<close> stores the
  size \<open>kfree\<close> releases, booting reserves every section of the kernel image, the loops over
  free memory visit exactly the free addresses, and isolation cuts at both ends of a range.
\<close>

unbundle bit_operations_syntax

section \<open>Allocation\<close>

text \<open>
  The allocator is well formed and its reserved array has room for one more allocation
  and a split, so that neither an allocation nor the release of one resizes it.
\<close>

definition wf_mb :: "memblock_env \<Rightarrow> bool" where
  "wf_mb mb \<longleftrightarrow> wf_iter mb \<and> mt_cnt (mb_reserved mb) + 3 \<le> mt_max (mb_reserved mb)
     \<and> mt_cnt (mb_reserved mb) + 3 \<le> 2 ^ 31"

lemma cap_size_fits:
  assumes "r \<le> hi - n" and "n \<le> hi"
  shows "memblock_cap_size r n = n"
proof -
  have "unat r \<le> unat hi - unat n" using assms by (simp only: word_le_nat_alt unat_sub)
  moreover have "unat n \<le> unat hi" using assms by (simp only: word_le_nat_alt)
  moreover have "unat hi \<le> unat PHYS_ADDR_MAX" "unat r \<le> unat PHYS_ADDR_MAX"
    unfolding word_le_nat_alt [symmetric] by simp_all
  moreover have "unat (PHYS_ADDR_MAX - r) = unat PHYS_ADDR_MAX - unat r" by (rule unat_sub) simp
  ultimately have "unat n \<le> unat (PHYS_ADDR_MAX - r)" by linarith
  then have "n \<le> PHYS_ADDR_MAX - r" by (simp only: word_le_nat_alt)
  then show ?thesis by (simp add: memblock_cap_size_def)
qed

lemma in_range_iff:
  assumes "r \<le> hi - n" and "n \<le> (hi :: phys_addr)"
  shows "r \<le> a \<and> a < r + n \<longleftrightarrow> r \<le> a \<and> a - r < n"
  using assms by uint_arith

text \<open>Addresses in memory that allocations may use.\<close>

definition backed :: "memblock_env \<Rightarrow> phys_addr \<Rightarrow> bool" where
  "backed mb a \<longleftrightarrow> (\<exists>m\<in>set (used (mb_memory mb)). rg_has m a
     \<and> \<not> memblock_is_nomap m \<and> \<not> memblock_is_driver_managed m)"

lemma free_at_backed:
  "free_at mb nid fl a \<Longrightarrow> fl AND MEMBLOCK_NOMAP = 0 \<Longrightarrow> fl AND MEMBLOCK_DRIVER_MANAGED = 0 \<Longrightarrow>
    backed mb a \<and> mt_attr (mb_reserved mb) a = None"
  by (auto simp: free_at_def backed_def should_skip_region_def split: if_splits)

text \<open>What a successful allocation of \<open>n\<close> bytes at \<open>r\<close> means.\<close>

definition allocated :: "memblock_env \<Rightarrow> phys_addr \<Rightarrow> phys_addr \<Rightarrow> phys_addr \<Rightarrow> phys_addr \<Rightarrow> memblock_env \<Rightarrow> phys_addr \<Rightarrow> bool" where
  "allocated mb n align lo hi mb' r \<longleftrightarrow>
     IS_ALIGNED r align \<and> lo \<le> r \<and> n \<le> hi \<and> r \<le> hi - n
     \<and> (\<forall>a. r \<le> a \<and> a < r + n \<longrightarrow> backed mb a \<and> mt_attr (mb_reserved mb) a = None)
     \<and> mt_attr (mb_reserved mb') = add_attr r (r + n) (NUMA_NO_NODE, MEMBLOCK_RSRV_KERN) (mt_attr (mb_reserved mb))
     \<and> mt_wf (mb_reserved mb') \<and> mt_cnt (mb_reserved mb') \<le> mt_cnt (mb_reserved mb) + 1
     \<and> (\<exists>t'. mb' = mb\<lparr>mb_reserved := t'\<rparr>) \<and> same_array (mb_reserved mb) (mb_reserved mb')"

lemma numa_no_node_invalid [simp]: "\<not> numa_valid_node NUMA_NO_NODE"
  by (simp add: numa_valid_node_def)

lemma alloc_round_ok:
  assumes "wf_mb mb" and "k < 64" and "fl AND MEMBLOCK_NOMAP = 0" and "fl AND MEMBLOCK_DRIVER_MANAGED = 0"
  shows "\<exists>mb' r. alloc_range_round n (2 ^ k) start end NUMA_NO_NODE ex fl mb = Ret (mb', r)
    \<and> (r = 0 \<longrightarrow> mb' = mb)
    \<and> (r \<noteq> 0 \<longrightarrow> allocated mb n (2 ^ k) (find_lo start) (find_hi mb start end) mb' r)"
proof -
  have wi: "wf_iter mb" and room: "mt_cnt (mb_reserved mb) + 3 \<le> mt_max (mb_reserved mb)"
    and wr: "mt_wf (mb_reserved mb)" using assms(1) by (simp_all add: wf_mb_def wf_iter_def)
  obtain r where f: "memblock_find_in_range_node mb n (2 ^ k) start end NUMA_NO_NODE fl = Ret r"
    using find_in_range_node_returns [OF wi] by blast
  show ?thesis
  proof (cases "r = 0")
    case True
    with f show ?thesis by (simp add: alloc_range_round_def)
  next
    case False
    let ?hi = "find_hi mb start end"
    from find_in_range_node_sound [OF wi assms(2) f False]
    have s: "IS_ALIGNED r (2 ^ k)" "find_lo start \<le> r" "n \<le> ?hi" "r \<le> ?hi - n"
      "\<forall>a. r \<le> a \<longrightarrow> a - r < n \<longrightarrow> free_at mb NUMA_NO_NODE fl a" by auto
    have re: "range_end r n = r + n" by (simp add: range_end_def cap_size_fits [OF s(4,3)])
    have fr: "\<forall>a. r \<le> a \<and> a < r + n \<longrightarrow> backed mb a \<and> mt_attr (mb_reserved mb) a = None"
      using in_range_iff [OF s(4,3)] s(5) free_at_backed [OF _ assms(3,4)] by blast
    have need: "add_need (r + n) r (used (mb_reserved mb)) \<le> 1"
    proof (cases "r < r + n")
      case True
      then show ?thesis using add_need_free [of 0 "used (mb_reserved mb)" r "r + n"] fr wr
        by (auto simp: mt_attr_def mt_wf_def)
    next
      case False
      then have "r + n = r" using range_end_ge [of r n] re by simp
      moreover have "walk_need r r rs = 0 \<and> fst (snd (add_walk r 0 0 r rs)) = r" if "rchain lo rs" for lo rs
        using that
      proof (induction rs arbitrary: lo)
        case (Cons x rs)
        then show ?case by (auto split: prod.splits)
      qed simp
      ultimately show ?thesis using wr by (auto simp: add_need_def mt_wf_def)
    qed
    then have ro: "add_room (get_type MB_reserved mb) r n" using room by (simp add: add_room_def re)
    have "mt_wf (get_type MB_reserved mb)" using wr by simp
    from add_range_with_ok [OF this ro, of "memblock_double_array RESIZE_FUEL" NUMA_NO_NODE MEMBLOCK_RSRV_KERN]
    obtain t' where t': "memblock_reserve_flags r n NUMA_NO_NODE MEMBLOCK_RSRV_KERN mb = Ret (mb\<lparr>mb_reserved := t'\<rparr>, 0)"
      "mt_wf t'" "same_array (mb_reserved mb) t'"
      "mt_attr t' = add_attr r (r + n) (NUMA_NO_NODE, MEMBLOCK_RSRV_KERN) (mt_attr (mb_reserved mb))"
      "mt_cnt t' \<le> mt_cnt (mb_reserved mb) + 1"
      using need by (auto simp: memblock_reserve_flags_def memblock_add_range_def re)
    have "alloc_range_round n (2 ^ k) start end NUMA_NO_NODE ex fl mb = Ret (mb\<lparr>mb_reserved := t'\<rparr>, r)"
      using f False t'(1) by (simp add: alloc_range_round_def)
    moreover have "allocated mb n (2 ^ k) (find_lo start) ?hi (mb\<lparr>mb_reserved := t'\<rparr>) r"
      using s(1-4) fr t' unfolding allocated_def by auto
    ultimately show ?thesis using False by blast
  qed
qed

lemma alloc_range_ok:
  assumes "wf_mb mb" and "align = 0 \<and> k = 6 \<or> align = 2 ^ k \<and> k < 64"
  shows "\<exists>mb' r. memblock_phys_alloc_range n align start end mb = Ret (mb', r)
    \<and> (r = 0 \<longrightarrow> mb' = mb)
    \<and> (r \<noteq> 0 \<longrightarrow> allocated mb n (2 ^ k) (find_lo start) (find_hi mb start end) mb' r)"
proof -
  have k: "k < 64" using assms(2) by auto
  have "(2 ^ k :: phys_addr) \<noteq> 0" using k by simp
  then have al: "(if align = 0 then SMP_CACHE_BYTES else align) = 2 ^ k" using assms(2) by auto
  let ?fl = "choose_memblock_flags mb"
  have fl: "?fl AND MEMBLOCK_NOMAP = 0" "?fl AND MEMBLOCK_DRIVER_MANAGED = 0"
    by (simp_all add: choose_memblock_flags_def)
  obtain mb1 r1 where 1: "alloc_range_round n (2 ^ k) start end NUMA_NO_NODE False ?fl mb = Ret (mb1, r1)"
    "r1 = 0 \<longrightarrow> mb1 = mb"
    "r1 \<noteq> 0 \<longrightarrow> allocated mb n (2 ^ k) (find_lo start) (find_hi mb start end) mb1 r1"
    using alloc_round_ok [OF assms(1) k fl] by blast
  show ?thesis
  proof (cases "r1 \<noteq> 0 \<or> ?fl AND MEMBLOCK_MIRROR = 0")
    case True
    with 1 show ?thesis
      by (auto simp: memblock_phys_alloc_range_def memblock_alloc_range_nid_def Let_def al)
  next
    case False
    have "(?fl AND NOT MEMBLOCK_MIRROR) AND MEMBLOCK_NOMAP = 0"
      "(?fl AND NOT MEMBLOCK_MIRROR) AND MEMBLOCK_DRIVER_MANAGED = 0"
      by (simp_all add: choose_memblock_flags_def)
    from alloc_round_ok [OF assms(1) k this, of n start "end" False] False 1 show ?thesis
      by (simp add: memblock_phys_alloc_range_def memblock_alloc_range_nid_def Let_def al)
  qed
qed

section \<open>kmalloc and kfree\<close>

lemma virt_phys [simp]: "virt_to_phys (phys_to_virt x) = x"
  by (simp add: virt_to_phys_def phys_to_virt_def)

lemma kmalloc_cases:
  assumes "wf_mb (kh_mb h)" and "size0 \<noteq> 0"
  obtains mb' pa where
    "memblock_phys_alloc_range (region_bytes (kmalloc_size size0)) 0 0 0 (kh_mb h) = Ret (mb', pa)"
    and "\<exists>h'. kmalloc size0 flags h = Ret (h', phys_to_virt pa + MEM_REGION_HDR)
      \<and> kh_mb h' = mb' \<and> kh_buf_size h' (phys_to_virt pa) = kmalloc_size size0"
    and "pa = 0 \<Longrightarrow> mb' = kh_mb h"
    and "pa \<noteq> 0 \<Longrightarrow> allocated (kh_mb h) (region_bytes (kmalloc_size size0)) 64
          (find_lo 0) (find_hi (kh_mb h) 0 0) mb' pa"
proof -
  obtain mb' pa where r: "memblock_phys_alloc_range (region_bytes (kmalloc_size size0)) 0 0 0 (kh_mb h) = Ret (mb', pa)"
    "pa = 0 \<longrightarrow> mb' = kh_mb h"
    "pa \<noteq> 0 \<longrightarrow> allocated (kh_mb h) (region_bytes (kmalloc_size size0)) 64 (find_lo 0) (find_hi (kh_mb h) 0 0) mb' pa"
    using alloc_range_ok [OF assms(1), of 0 6 "region_bytes (kmalloc_size size0)" 0 0] by auto
  moreover from r(1) assms(2) have "\<exists>h'. kmalloc size0 flags h = Ret (h', phys_to_virt pa + MEM_REGION_HDR)
      \<and> kh_mb h' = mb' \<and> kh_buf_size h' (phys_to_virt pa) = kmalloc_size size0"
    by (simp add: kmalloc_def Let_def)
  ultimately show ?thesis using that by blast
qed

lemma allocated_release:
  assumes "wf_mb mb" and "allocated mb n al lo hi mb' pa"
  shows "\<exists>mb2. memblock_phys_free pa n mb' = Ret (mb2, 0)
    \<and> mt_attr (mb_reserved mb2) = mt_attr (mb_reserved mb) \<and> mt_wf (mb_reserved mb2)"
proof -
  have slack: "mt_cnt (mb_reserved mb') + 2 \<le> mt_max (mb_reserved mb')" and wf: "mt_wf (mb_reserved mb')"
    using assms by (auto simp: wf_mb_def allocated_def same_array_def)
  have re: "range_end pa n = pa + n"
    using assms(2) cap_size_fits [of pa hi n] by (simp add: allocated_def range_end_def)
  obtain mb2 where r: "memblock_phys_free pa n mb' = Ret (mb2, 0)" "mt_wf (mb_reserved mb2)"
    "mt_attr (mb_reserved mb2) = cut_attr pa (pa + n) (mt_attr (mb_reserved mb'))"
    using res_type.remove_law [OF wf slack, of pa n] re by auto
  have "mt_attr (mb_reserved mb2) a = mt_attr (mb_reserved mb) a" for a
    using assms(2) r(3) by (auto simp: allocated_def cut_attr_def add_attr_def split: option.splits)
  with r show ?thesis by blast
qed

lemma unat_and_not_ge: "unat x - unat m \<le> unat (x AND NOT m :: u64)"
proof -
  have "x AND NOT m = x - (x AND m)"
    by (subst disjunctive_diff) (auto simp: bit_simps intro!: bit_word_eqI)
  moreover have "x AND m \<le> x" by (rule word_and_le2)
  moreover have "x AND m \<le> m" by (rule word_and_le1)
  ultimately show ?thesis by (simp add: unat_sub word_le_nat_alt)
qed

lemma bit_length_le: "m < 2 ^ j \<Longrightarrow> bit_length m \<le> j"
proof (induction m arbitrary: j rule: bit_length.induct)
  case (1 m)
  show ?case
  proof (cases "m = 0")
    case False
    then obtain j' where "j = Suc j'" using 1(2) by (cases j) auto
    with 1 False show ?thesis by (simp add: bit_length.simps [of m] less_mult_imp_div_less)
  qed (simp add: bit_length.simps)
qed

lemma fls_le: "fls x \<le> 32"
proof -
  have "unat x < 2 ^ LENGTH(32)" by (rule unsigned_less)
  from bit_length_le [OF this] show ?thesis by (simp add: fls_def)
qed

lemma unat_shift_1: "j \<le> 32 \<Longrightarrow> unat (2 ^ j :: u64) = 2 ^ j"
proof -
  assume "j \<le> 32"
  then have "(2 ^ j :: nat) \<le> 2 ^ 32" by (intro power_increasing) simp_all
  then show ?thesis using unat_of_nat [of "2 ^ j", where 'a = 64] by simp
qed

lemma kmalloc_size_ge:
  assumes "n \<noteq> 0" and "unat n \<le> 2 ^ 60"
  shows "2 * unat n \<le> unat (kmalloc_size n)"
proof -
  define align where "align = (if is_power_of_2 n then n else push_bit (fls (ucast n)) 1)"
  have "(2 ^ fls (ucast n) :: nat) \<le> 2 ^ 32" by (intro power_increasing fls_le) simp
  then have al: "unat align \<le> 2 ^ 60" "unat align \<noteq> 0"
    using assms unat_shift_1 [OF fls_le, of "ucast n"] fls_le [of "ucast n"]
    by (auto simp: align_def unat_eq_0)
  define m where "m = align - 1"
  have um: "unat m = unat align - 1"
    using al(2) by (simp add: m_def unat_minus_one unat_eq_0)
  define x where "x = n + m"
  have "unat n + unat m < 2 ^ LENGTH(64)" using assms(2) um al(1) by simp
  then have ux: "unat x = unat n + unat m" by (simp only: x_def unat_add_lem)
  define y where "y = x AND NOT m"
  have "unat x - unat m \<le> unat y" unfolding y_def by (rule unat_and_not_ge)
  then have ly: "unat n \<le> unat y" using ux by simp
  have "y \<le> x" unfolding y_def by (rule word_and_le2)
  then have "unat y \<le> unat x" by (simp add: word_le_nat_alt)
  then have uy: "unat y \<le> 2 ^ 61" using ux um al(1) assms(2) by simp
  have "unat y + unat y < 2 ^ LENGTH(64)" using uy by simp
  then have "unat (y + y) = unat y + unat y" by (simp only: unat_add_lem)
  moreover have "kmalloc_size n = y + y"
    by (simp add: kmalloc_size_def Let_def align_def [symmetric] y_def x_def m_def push_bit_eq_mult algebra_simps)
  ultimately show ?thesis using ly by simp
qed

section \<open>Physical memory at boot\<close>

lemma reserve_ok:
  assumes "mt_wf (mb_reserved mb)" and "(mt_cnt (mb_reserved mb) + 1) * 2 \<le> mt_max (mb_reserved mb)"
  shows "\<exists>t'. memblock_reserve b n mb = Ret (mb\<lparr>mb_reserved := t'\<rparr>, 0) \<and> mt_wf t'
    \<and> mt_max t' = mt_max (mb_reserved mb) \<and> mt_cnt t' + 1 \<le> (mt_cnt (mb_reserved mb) + 1) * 2
    \<and> mt_attr t' = add_attr b (range_end b n) (NUMA_NO_NODE, 0) (mt_attr (mb_reserved mb))"
proof -
  have wf: "mt_wf (get_type MB_reserved mb)" using assms(1) by simp
  have ro: "add_room (get_type MB_reserved mb) b n"
    by (rule add_room_half [OF wf]) (use assms(2) in simp)
  have "add_need (range_end b n) b (used (mb_reserved mb)) \<le> mt_cnt (mb_reserved mb) + 1"
    using add_need_le [of "range_end b n" b "used (mb_reserved mb)"] assms(1) by (simp add: length_used mt_wf_def)
  with add_range_with_ok [OF wf ro, of "memblock_double_array RESIZE_FUEL" NUMA_NO_NODE 0] show ?thesis
    by (fastforce simp: memblock_reserve_def memblock_reserve_flags_def memblock_add_range_def same_array_def)
qed

lemma reserve_all_Cons:
  "memblock_reserve b n mb = Ret (mb1, r) \<Longrightarrow> reserve_all ((b, n) # rs) mb = reserve_all rs mb1"
  by (simp add: reserve_all_def)

definition covered :: "(phys_addr \<times> phys_addr) list \<Rightarrow> memblock_type \<Rightarrow> bool" where
  "covered rs t \<longleftrightarrow> list_all (\<lambda>(b, n). \<forall>a. b \<le> a \<and> a < range_end b n \<longrightarrow> mt_attr t a \<noteq> None) rs"

lemma reserve_all_ok:
  assumes "mt_wf (mb_reserved mb)"
    and "(mt_cnt (mb_reserved mb) + 1) * 2 ^ length rs \<le> mt_max (mb_reserved mb)"
  shows "\<exists>t'. reserve_all rs mb = Ret (mb\<lparr>mb_reserved := t'\<rparr>) \<and> mt_wf t'
    \<and> mt_max t' = mt_max (mb_reserved mb) \<and> mt_cnt t' + 1 \<le> (mt_cnt (mb_reserved mb) + 1) * 2 ^ length rs
    \<and> covered rs t' \<and> (\<forall>a. mt_attr (mb_reserved mb) a \<noteq> None \<longrightarrow> mt_attr t' a = mt_attr (mb_reserved mb) a)"
  using assms
proof (induction rs arbitrary: mb)
  case Nil
  then show ?case by (auto simp: reserve_all_def covered_def intro!: exI [of _ "mb_reserved mb"])
next
  case (Cons x rs)
  obtain b n where x: "x = (b, n)" by (cases x)
  have pos: "(1 :: nat) \<le> 2 ^ length rs" by simp
  have "(mt_cnt (mb_reserved mb) + 1) * 2 * 1 \<le> (mt_cnt (mb_reserved mb) + 1) * 2 * 2 ^ length rs"
    using pos by (intro mult_le_mono) simp_all
  with Cons.prems(2) have r2: "(mt_cnt (mb_reserved mb) + 1) * 2 \<le> mt_max (mb_reserved mb)" by simp
  obtain t1 where t1: "memblock_reserve b n mb = Ret (mb\<lparr>mb_reserved := t1\<rparr>, 0)" "mt_wf t1"
    "mt_max t1 = mt_max (mb_reserved mb)" "mt_cnt t1 + 1 \<le> (mt_cnt (mb_reserved mb) + 1) * 2"
    "mt_attr t1 = add_attr b (range_end b n) (NUMA_NO_NODE, 0) (mt_attr (mb_reserved mb))"
    using reserve_ok [OF Cons.prems(1) r2] by blast
  have g: "(mt_cnt t1 + 1) * 2 ^ length rs \<le> (mt_cnt (mb_reserved mb) + 1) * 2 * 2 ^ length rs"
    using t1(4) by (intro mult_le_mono) simp_all
  let ?mb1 = "mb\<lparr>mb_reserved := t1\<rparr>"
  have "(mt_cnt (mb_reserved ?mb1) + 1) * 2 ^ length rs \<le> mt_max (mb_reserved ?mb1)"
    using g t1(3) Cons.prems(2) by (simp add: algebra_simps)
  from Cons.IH [OF _ this] obtain t' where t': "reserve_all rs ?mb1 = Ret (?mb1\<lparr>mb_reserved := t'\<rparr>)"
    "mt_wf t'" "mt_max t' = mt_max t1" "mt_cnt t' + 1 \<le> (mt_cnt t1 + 1) * 2 ^ length rs" "covered rs t'"
    "\<forall>a. mt_attr t1 a \<noteq> None \<longrightarrow> mt_attr t' a = mt_attr t1 a"
    using t1(2) by auto
  have old: "\<forall>a. mt_attr (mb_reserved mb) a \<noteq> None \<longrightarrow> mt_attr t1 a = mt_attr (mb_reserved mb) a"
    by (auto simp: t1(5) add_attr_def)
  have new: "\<forall>a. b \<le> a \<and> a < range_end b n \<longrightarrow> mt_attr t1 a \<noteq> None"
    by (auto simp: t1(5) add_attr_def split: option.splits)
  have "covered (x # rs) t'" using t'(5,6) new by (auto simp: covered_def x)
  moreover have "mt_cnt t' + 1 \<le> (mt_cnt (mb_reserved mb) + 1) * 2 ^ length (x # rs)"
    using t'(4) g by (simp add: algebra_simps)
  moreover have "\<forall>a. mt_attr (mb_reserved mb) a \<noteq> None \<longrightarrow> mt_attr t' a = mt_attr (mb_reserved mb) a"
    using old t'(6) by metis
  ultimately show ?case
    using t' t1(3) reserve_all_Cons [OF t1(1)] x by auto
qed

lemma memblock_init_wf: "mt_wf (mb_memory memblock_init)" "mt_wf (mb_reserved memblock_init)"
  by (simp_all add: memblock_init_def mt_wf_def mt_shape_def used_def zero_region_def)

lemma physmem_init_ok:
  "\<exists>mb'. physmem_init k memblock_init = Ret mb' \<and> wf_mb mb'
    \<and> mt_attr (mb_memory mb') = (\<lambda>a. if RAM_BASE \<le> a \<and> a < RAM_BASE + RAM_SIZE then Some (MAX_NUMNODES, 0) else None)
    \<and> covered (kimage_sections k) (mb_reserved mb')"
proof -
  have re: "range_end RAM_BASE RAM_SIZE = RAM_BASE + RAM_SIZE"
    by (simp add: range_end_def memblock_cap_size_def)
  have em: "used (mb_memory memblock_init) = []" "used (mb_reserved memblock_init) = []"
    by (simp_all add: memblock_init_def used_def)
  have ro: "add_room (get_type MB_memory memblock_init) RAM_BASE RAM_SIZE"
    by (rule add_room_half) (use memblock_init_wf in \<open>simp_all add: memblock_init_def\<close>)
  have wf: "mt_wf (get_type MB_memory memblock_init)" using memblock_init_wf by simp
  obtain t where t: "memblock_add RAM_BASE RAM_SIZE memblock_init = Ret (memblock_init\<lparr>mb_memory := t\<rparr>, 0)"
    "mt_wf t" "mt_attr t = add_attr RAM_BASE (RAM_BASE + RAM_SIZE) (MAX_NUMNODES, 0) (mt_attr (mb_memory memblock_init))"
    "mt_cnt t \<le> 1"
    using add_range_with_ok [OF wf ro, of "memblock_double_array RESIZE_FUEL" MAX_NUMNODES 0] re em
    by (auto simp: memblock_add_def memblock_add_range_def memblock_init_def add_need_def split: if_splits)
  have "(mt_cnt (mb_reserved memblock_init) + 1) * 2 ^ length (kimage_sections k) \<le> 128"
    by (simp add: memblock_init_def kimage_sections_def)
  then obtain t' where t': "reserve_kimage k (memblock_init\<lparr>mb_memory := t\<rparr>) = Ret (memblock_init\<lparr>mb_memory := t, mb_reserved := t'\<rparr>)"
    "mt_wf t'" "mt_max t' = 128" "mt_cnt t' + 1 \<le> 32" "covered (kimage_sections k) t'"
    using reserve_all_ok [of "memblock_init\<lparr>mb_memory := t\<rparr>" "kimage_sections k"] memblock_init_wf
    by (auto simp: reserve_kimage_def memblock_init_def kimage_sections_def)
  have "physmem_init k memblock_init = Ret (memblock_init\<lparr>mb_memory := t, mb_reserved := t'\<rparr>)"
    using t(1) t'(1) by (simp add: physmem_init_def physmem_table_def)
  moreover have "wf_mb (memblock_init\<lparr>mb_memory := t, mb_reserved := t'\<rparr>)"
    using t t' by (simp add: wf_mb_def wf_iter_def)
  moreover have "mt_attr t = (\<lambda>a. if RAM_BASE \<le> a \<and> a < RAM_BASE + RAM_SIZE then Some (MAX_NUMNODES, 0) else None)"
    unfolding t(3) by (simp add: fun_eq_iff add_attr_def mt_attr_def [of "mb_memory memblock_init"] em)
  ultimately show ?thesis using t'(5) by (intro exI [of _ "memblock_init\<lparr>mb_memory := t, mb_reserved := t'\<rparr>"]) simp
qed

section \<open>The loops over free memory\<close>

lemma for_each_free_steps:
  assumes "wf_iter mb" and "a \<le> mt_cnt (mb_memory mb)" and "b \<le> Suc (mt_cnt (mb_reserved mb))"
    and "length (free_ranges mb nid fl a b) < n"
  shows "for_each_free_mem_range n mb (pack_cursor (int a) (int b)) nid fl = Ret (free_ranges mb nid fl a b)"
  using assms(2-)
proof (induction n arbitrary: a b)
  case (Suc n)
  note sh = wf_iterD(3,4) [OF assms(1)]
  have bnd: "- (2 ^ 31) \<le> int a'" "int a' < 2 ^ 31" "- (2 ^ 31) \<le> int b'" "int b' < 2 ^ 31"
    if "a' \<le> mt_cnt (mb_memory mb)" "b' \<le> Suc (mt_cnt (mb_reserved mb))" for a' b'
    using that assms(1) by (simp_all add: wf_iter_def)
  have nx: "next_mem_range mb (pack_cursor (int a) (int b)) nid fl MB_memory (Some MB_reserved)
      = next_mem_range_loop mb nid fl MB_memory (Some MB_reserved) (int a) (int b)"
    using cursor_pack [OF bnd [OF Suc.prems(1,2)]] by (simp add: next_mem_range_def)
  note step = next_loop_isect [OF sh Suc.prems(1,2), of nid fl]
  show ?case
  proof (cases "free_ranges mb nid fl a b")
    case Nil
    with step nx show ?thesis by simp
  next
    case (Cons r rest)
    then obtain a' b' where l: "next_mem_range_loop mb nid fl MB_memory (Some MB_reserved) (int a) (int b)
          = (pack_cursor (int a') (int b'), Some r)" "free_ranges mb nid fl a' b' = rest"
        "a' \<le> mt_cnt (mb_memory mb)" "b' \<le> Suc (mt_cnt (mb_reserved mb))"
      using step by auto
    have "pack_cursor (int a') (int b') \<noteq> ULLONG_MAX"
      by (rule pack_not_end [OF bnd [OF l(3,4)]]) simp
    moreover have "for_each_free_mem_range n mb (pack_cursor (int a') (int b')) nid fl = Ret rest"
      using Suc.IH [OF l(3,4)] l(2) Suc.prems(3) Cons by simp
    ultimately show ?thesis using Cons nx l(1) by simp
  qed
qed simp

lemma for_each_free_rev_steps:
  assumes "wf_iter mb" and "a \<le> mt_cnt (mb_memory mb)" and "b \<le> Suc (mt_cnt (mb_reserved mb))"
    and "length (free_ranges_rev mb nid fl a b) < n"
    and "next_mem_range_rev mb i nid fl MB_memory (Some MB_reserved)
      = next_mem_range_rev_loop mb nid fl MB_memory (Some MB_reserved) (int a - 1) (int b - 1)"
  shows "for_each_free_mem_range_reverse n mb i nid fl = Ret (free_ranges_rev mb nid fl a b)"
  using assms(2-)
proof (induction n arbitrary: a b i)
  case (Suc n)
  note sh = wf_iterD(3,4) [OF assms(1)]
  have bnd: "- (2 ^ 31) \<le> int a' - 1" "int a' - 1 < 2 ^ 31" "- (2 ^ 31) \<le> int b' - 1" "int b' - 1 < 2 ^ 31"
    if "a' \<le> mt_cnt (mb_memory mb)" "b' \<le> Suc (mt_cnt (mb_reserved mb))" for a' b'
    using that assms(1) by (simp_all add: wf_iter_def)
  note step = next_rev_loop_isect [OF sh Suc.prems(1,2), of nid fl]
  show ?case
  proof (cases "free_ranges_rev mb nid fl a b")
    case Nil
    with step Suc.prems(4) show ?thesis by simp
  next
    case (Cons r rest)
    then obtain a' b' where l: "next_mem_range_rev_loop mb nid fl MB_memory (Some MB_reserved) (int a - 1) (int b - 1)
          = (pack_cursor (int a' - 1) (int b' - 1), Some r)" "free_ranges_rev mb nid fl a' b' = rest"
        "0 < a' \<or> 0 < b'" "a' \<le> mt_cnt (mb_memory mb)" "b' \<le> Suc (mt_cnt (mb_reserved mb))"
      using step by auto
    have ne: "pack_cursor (int a' - 1) (int b' - 1) \<noteq> ULLONG_MAX"
      by (rule pack_not_end [OF bnd [OF l(4,5)]]) (use l(3) in auto)
    then have "next_mem_range_rev mb (pack_cursor (int a' - 1) (int b' - 1)) nid fl MB_memory (Some MB_reserved)
      = next_mem_range_rev_loop mb nid fl MB_memory (Some MB_reserved) (int a' - 1) (int b' - 1)"
      using cursor_pack [OF bnd [OF l(4,5)]] by (simp add: next_mem_range_rev_def)
    then have "for_each_free_mem_range_reverse n mb (pack_cursor (int a' - 1) (int b' - 1)) nid fl = Ret rest"
      using Suc.IH [OF l(4,5)] l(2) Suc.prems(3) Cons by simp
    with ne show ?thesis using Cons Suc.prems(4) l(1) by simp
  qed
qed simp

abbreviation iter_fuel :: "memblock_env \<Rightarrow> nat" where
  "iter_fuel mb \<equiv> mt_cnt (mb_memory mb) + mt_cnt (mb_reserved mb) + 3"

lemma for_each_free_all:
  assumes "wf_iter mb"
  shows "for_each_free_mem_range (iter_fuel mb) mb 0 nid fl = Ret (all_free mb nid fl)"
    and "for_each_free_mem_range_reverse (iter_fuel mb) mb ULLONG_MAX nid fl = Ret (all_free_rev mb nid fl)"
proof -
  note sh = wf_iterD(3,4) [OF assms]
  have "length (free_ranges mb nid fl 0 0) < iter_fuel mb"
    using sh length_isect [of "\<lambda>m. should_skip_region MB_memory m nid fl" "used (mb_memory mb)"
        "gaps_of 0 (used (mb_reserved mb))"] by (simp add: free_ranges_def length_used)
  from for_each_free_steps [OF assms _ _ this]
  show "for_each_free_mem_range (iter_fuel mb) mb 0 nid fl = Ret (all_free mb nid fl)"
    by (simp add: pack_0 all_free_def)
  have "length (free_ranges_rev mb nid fl (mt_cnt (mb_memory mb)) (Suc (mt_cnt (mb_reserved mb)))) < iter_fuel mb"
    using sh length_isect_rev [of "\<lambda>m. should_skip_region MB_memory m nid fl" "rev (used (mb_memory mb))"
        "rev (gaps_of 0 (used (mb_reserved mb)))"] by (simp add: free_ranges_rev_def length_used)
  from for_each_free_rev_steps [OF assms _ _ this, of ULLONG_MAX]
  show "for_each_free_mem_range_reverse (iter_fuel mb) mb ULLONG_MAX nid fl = Ret (all_free_rev mb nid fl)"
    by (simp add: next_mem_range_rev_def all_free_rev_def)
qed

lemma covers_iff:
  assumes "wf_iter mb"
  shows "covers (all_free mb nid fl) a \<longleftrightarrow> free_at mb nid fl a"
    and "covers (all_free_rev mb nid fl) a \<longleftrightarrow> free_at mb nid fl a"
proof -
  let ?M = "used (mb_memory mb)" and ?R = "used (mb_reserved mb)"
  let ?sk = "\<lambda>m. should_skip_region MB_memory m nid fl"
  have R: "rchain 0 ?R" and M: "rsorted ?M" and G: "gsorted (gaps_of 0 ?R)"
    using wf_iterD [OF assms] rchain_rsorted gaps_of_gsorted by auto
  have "covers (all_free mb nid fl) a \<and> covers (all_free_rev mb nid fl) a" if f: "free_at mb nid fl a"
  proof -
    obtain m where m: "m \<in> set ?M" "rg_has m a" "\<not> ?sk m" "attr_at ?R a = None"
      using f by (auto simp: free_at_def mt_attr_def)
    have "a < PHYS_ADDR_MAX"
      using m(2) by (metis rg_has_def word_order.not_eq_extremum word_order.extremum_strict order.strict_trans2)
    then obtain g where g: "g \<in> set (gaps_of 0 ?R)" "fst g \<le> a" "a < snd g"
      using in_gap_iff [OF R, of a] m(4) by auto
    have "covers (isect ?sk ?M (gaps_of 0 ?R)) a"
      by (rule isect_complete [of _ _ m _ _ g]) (use M G m g in auto)
    moreover have "covers (isect_rev ?sk (rev ?M) (rev (gaps_of 0 ?R))) a"
      by (rule isect_rev_complete [of _ _ m _ _ g]) (use M G m g in auto)
    ultimately show ?thesis
      by (simp add: all_free_def free_ranges_def all_free_rev_eq [OF assms])
  qed
  moreover have "free_at mb nid fl a" if "covers (all_free mb nid fl) a \<or> covers (all_free_rev mb nid fl) a"
    using that all_free_sound [OF assms] by (fastforce simp: covers_def)
  ultimately show "covers (all_free mb nid fl) a \<longleftrightarrow> free_at mb nid fl a"
    and "covers (all_free_rev mb nid fl) a \<longleftrightarrow> free_at mb nid fl a" by blast+
qed

section \<open>Isolation\<close>

lemma rchain_isolated:
  assumes "rchain 0 rs" and "b \<le> e"
  shows "rchain 0 (cut_below b rs @ cut_below e (cut_above b rs) @ cut_above e (cut_above b rs))"
proof -
  have a: "rchain (max 0 b) (cut_above b rs)" by (rule rchain_cut_above [OF assms(1)])
  have "rchain (max (max 0 b) e) (cut_above e (cut_above b rs))" by (rule rchain_cut_above [OF a])
  then have "rchain e (cut_above e (cut_above b rs))" by (rule rchain_mono) simp
  from rchain_cut_below [OF a this]
  have "rchain b (cut_below e (cut_above b rs) @ cut_above e (cut_above b rs))"
    by (rule rchain_mono) (use assms(2) in simp)
  from rchain_cut_below [OF assms(1) this] show ?thesis by simp
qed

lemma isolate_range_ok:
  assumes "mt_wf (get_type sel mb)" and "mt_cnt (get_type sel mb) + 2 \<le> mt_max (get_type sel mb)"
    and "memblock_cap_size base n \<noteq> 0"
  shows "\<exists>t' s en. memblock_isolate_range sel base n mb = Ret (set_type sel t' mb, 0, s, en)
    \<and> mt_shape t' \<and> rchain 0 (used t') \<and> mt_attr t' = mt_attr (get_type sel mb)
    \<and> (\<forall>i < mt_cnt t'. s \<le> i \<and> i < en \<longleftrightarrow>
         base < rg_end (used t' ! i) \<and> rg_base (used t' ! i) < range_end base n)
    \<and> (\<forall>i < mt_cnt t'. s \<le> i \<and> i < en \<longrightarrow>
         base \<le> rg_base (used t' ! i) \<and> rg_end (used t' ! i) \<le> range_end base n)"
proof -
  let ?t = "get_type sel mb" and ?e = "range_end base n"
  let ?rs = "used ?t"
  have sh: "mt_shape ?t" and ch: "rchain 0 ?rs" using assms(1) by (simp_all add: mt_wf_def)
  have be: "base < ?e" using range_end_gt [OF assms(3)] .
  show ?thesis
  proof (cases "?rs = []")
    case True
    then have "memblock_isolate_loop (mt_cnt ?t + 6) base ?e ?t 0 0 0 = Ret (?t, 0, 0)" "mt_cnt ?t = 0"
      using isolate_end [of 0 ?t "mt_cnt ?t + 5" base ?e 0 0] length_used [OF sh] by simp_all
    then have "memblock_isolate_range sel base n mb = Ret (set_type sel ?t mb, 0, 0, 0)"
      using assms(3) grow_array_id [OF assms(2), of GROW_FUEL "memblock_double_array RESIZE_FUEL"]
      by (simp add: memblock_isolate_range_def isolate_range_with_def Let_def range_end_def)
    then show ?thesis using sh ch \<open>mt_cnt ?t = 0\<close> by (intro exI [of _ ?t] exI [of _ 0]) simp
  next
    case False
    define L M R where "L = cut_below base ?rs" and "M = cut_below ?e (cut_above base ?rs)"
      and "R = cut_above ?e (cut_above base ?rs)"
    obtain t' s en where i: "memblock_isolate_range sel base n mb = Ret (set_type sel t' mb, 0, s, en)"
      and u: "used t' = L @ M @ R" and m: "mid_range L M = (s, en)" and t': "mt_shape t'"
      using isolate_range_with_ok [OF assms refl False refl, of "memblock_double_array RESIZE_FUEL"]
      unfolding L_def M_def R_def memblock_isolate_range_def by blast
    have c: "rchain 0 (used t')" unfolding u L_def M_def R_def by (rule rchain_isolated [OF ch]) (use be in simp)
    have LB: "rg_end r \<le> base" if "r \<in> set L" for r using that cut_below_end by (simp add: L_def)
    have RB: "?e \<le> rg_base r" if "r \<in> set R" for r using that cut_above_base by (simp add: R_def)
    have MB: "base \<le> rg_base r \<and> rg_end r \<le> ?e" if "r \<in> set M" for r
    proof -
      have "rchain base (cut_above base ?rs)" using rchain_cut_above [OF ch, of base] by simp
      from rchain_cut_below [OF this, of ?e "[]"] have "rchain base M"
        using be by (simp add: M_def min_absorb1 less_imp_le)
      then have "base \<le> rg_base r" using rchain_bounds that by blast
      moreover have "rg_end r \<le> ?e" using that cut_below_end by (simp add: M_def)
      ultimately show ?thesis ..
    qed
    have ne: "rg_base r < rg_end r" if "r \<in> set (used t')" for r using rchain_bounds [OF c that] by simp
    have mid: "used t' ! i \<in> set M" if "s \<le> i" "i < en" for i
      using that m unfolding u by (auto simp: mid_range_def nth_append split: if_splits)
    have out: "used t' ! i \<in> set L \<or> used t' ! i \<in> set R" if "\<not> (s \<le> i \<and> i < en)" "i < mt_cnt t'" for i
    proof -
      have "i < length (L @ M @ R)" using that(2) length_used [OF t'] u by simp
      then show ?thesis using that(1) m unfolding u
        by (auto simp: mid_range_def nth_append split: if_splits)
    qed
    have p1: "\<forall>i < mt_cnt t'. s \<le> i \<and> i < en \<longrightarrow> base \<le> rg_base (used t' ! i) \<and> rg_end (used t' ! i) \<le> ?e"
      using mid MB by blast
    have p2: "\<forall>i < mt_cnt t'. s \<le> i \<and> i < en \<longleftrightarrow> base < rg_end (used t' ! i) \<and> rg_base (used t' ! i) < ?e"
    proof (intro allI impI)
      fix i assume i: "i < mt_cnt t'"
      have n: "rg_base (used t' ! i) < rg_end (used t' ! i)"
        by (rule ne) (use i length_used [OF t'] in simp)
      show "s \<le> i \<and> i < en \<longleftrightarrow> base < rg_end (used t' ! i) \<and> rg_base (used t' ! i) < ?e"
      proof (cases "s \<le> i \<and> i < en")
        case True
        with mid MB have "base \<le> rg_base (used t' ! i)" "rg_end (used t' ! i) \<le> ?e" by blast+
        with n True show ?thesis by (metis order.strict_trans1 order.strict_trans2)
      next
        case False
        from out [OF False i] LB RB show ?thesis using False by (metis not_le)
      qed
    qed
    have "mt_attr t' = mt_attr ?t"
      using isolate_list_attr [OF ch, of base ?e] be by (simp add: mt_attr_def u L_def M_def R_def fun_eq_iff)
    with i t' c p1 p2 show ?thesis by blast
  qed
qed

end
