(* ===== verification/Memblock_Props.thy ===== *)
theory Memblock_Props
  imports Memblock_Heap
begin

text \<open>
  The properties of the physical memory allocator, with witnesses on a small concrete
  allocator (\<open>demo_mb\<close>): one gigabyte of RAM and two reserved regions.
\<close>

unbundle bit_operations_syntax

definition demo_type :: "memblock_region list \<Rightarrow> memblock_type" where
  "demo_type rs = \<lparr>mt_cnt = length rs, mt_max = 16, mt_total_size = sum_list (map rg_size rs),
     mt_regions = rs @ replicate (16 - length rs) zero_region, mt_ptr = Memory_Init_Regions, mt_name = ''demo''\<rparr>"

definition demo_mb :: memblock_env where
  "demo_mb = memblock_init\<lparr>mb_memory := demo_type [new_region 0x40000000 0x80000000 16 0],
     mb_reserved := demo_type [new_region 0x40200000 0x40400000 (-1) 0, new_region 0x50000000 0x50001000 (-1) 0x20]\<rparr>"

lemma demo_wf: "mt_wf (mb_memory demo_mb)" "mt_wf (mb_reserved demo_mb)" "wf_mb demo_mb"
  "mt_cnt (mb_reserved demo_mb) = 2" "mt_max (mb_reserved demo_mb) = 16" "mt_cnt (mb_memory demo_mb) = 1" "mt_max (mb_memory demo_mb) = 16"
  by (simp_all add: demo_mb_def demo_type_def mt_wf_def mt_shape_def used_def wf_mb_def wf_iter_def)

text \<open>
  C1. \<open>memblock_add_range\<close> on a well-formed array with room returns 0 without hitting a
  \<open>BUG_ON\<close>, keeps the array sorted, disjoint and consistent with its count and total size,
  gives the new range its node and flags exactly where nothing was registered before
  (overlaps do not affect existing regions), and keeps the array minimal.
\<close>

theorem memblock_add_range_spec:
  assumes "mt_wf (get_type sel mb)" and "add_room (get_type sel mb) base n"
  shows "\<exists>t'. memblock_add_range sel base n nid fl mb = Ret (set_type sel t' mb, 0) \<and> mt_wf t'
    \<and> (\<forall>a. mt_attr t' a =
         (case mt_attr (get_type sel mb) a of
            Some v \<Rightarrow> Some v
          | None \<Rightarrow> if base \<le> a \<and> a < range_end base n then Some (nid, fl) else None))
    \<and> (minimal (used (get_type sel mb)) \<longrightarrow> minimal (used t'))"
  using add_range_with_ok [OF assms, of "memblock_double_array RESIZE_FUEL" nid fl]
  unfolding memblock_add_range_def add_attr_def fun_eq_iff by blast

theorem memblock_add_range_spec_witness:
  "\<exists>t'. memblock_add_range MB_reserved 0x40300000 0x200000 (-1) 0 demo_mb = Ret (demo_mb\<lparr>mb_reserved := t'\<rparr>, 0)
    \<and> mt_attr t' 0x404fffff = Some (-1, 0)"
proof -
  have wf: "mt_wf (get_type MB_reserved demo_mb)" using demo_wf by simp
  have ro: "add_room (get_type MB_reserved demo_mb) 0x40300000 0x200000"
    by (rule add_room_half [OF wf]) (simp add: demo_wf)
  have re: "range_end 0x40300000 0x200000 = 0x40500000" by (simp add: range_end_def memblock_cap_size_def)
  have "mt_attr (mb_reserved demo_mb) 0x404fffff = None"
    by (simp add: mt_attr_def demo_mb_def demo_type_def used_def)
  then show ?thesis
    using memblock_add_range_spec [OF wf ro, of "-1" 0] by (auto simp: re)
qed

text \<open>
  C2. \<open>memblock_remove_range\<close> removes exactly the addresses of the range: the remaining
  attributes are those outside it, regions that cross an end are split, and the invariant
  and minimality are kept.
\<close>

theorem memblock_remove_range_spec:
  assumes "mt_wf (get_type sel mb)" and "mt_cnt (get_type sel mb) + 2 \<le> mt_max (get_type sel mb)"
  shows "\<exists>t'. memblock_remove_range sel base n mb = Ret (set_type sel t' mb, 0) \<and> mt_wf t'
    \<and> (\<forall>a. mt_attr t' a = (if base \<le> a \<and> a < range_end base n then None else mt_attr (get_type sel mb) a))
    \<and> (minimal (used (get_type sel mb)) \<longrightarrow> minimal (used t'))"
  using remove_range_with_ok [OF assms, of "memblock_double_array RESIZE_FUEL" base n]
  unfolding memblock_remove_range_def fun_eq_iff by blast

theorem memblock_remove_range_spec_witness:
  "\<exists>t'. memblock_remove_range MB_reserved 0x40300000 0x200000 demo_mb = Ret (demo_mb\<lparr>mb_reserved := t'\<rparr>, 0)
    \<and> mt_attr t' 0x40300000 = None \<and> mt_attr t' 0x402fffff = Some (-1, 0)"
proof -
  have re: "range_end 0x40300000 0x200000 = 0x40500000" by (simp add: range_end_def memblock_cap_size_def)
  have "mt_attr (mb_reserved demo_mb) 0x402fffff = Some (-1, 0)"
    by (simp add: mt_attr_def demo_mb_def demo_type_def used_def)
  then show ?thesis
    using memblock_remove_range_spec [of MB_reserved demo_mb "0x40300000" "0x200000"] by (auto simp: re demo_wf)
qed

text \<open>
  C9. \<open>memblock_isolate_range\<close> changes no attribute, and the index range it returns holds
  exactly the regions that meet the address range, all of them inside it.
\<close>

theorem memblock_isolate_range_spec:
  assumes "mt_wf (get_type sel mb)" and "mt_cnt (get_type sel mb) + 2 \<le> mt_max (get_type sel mb)"
    and "memblock_cap_size base n \<noteq> 0"
  shows "\<exists>t' s en. memblock_isolate_range sel base n mb = Ret (set_type sel t' mb, 0, s, en)
    \<and> mt_shape t' \<and> rchain 0 (used t') \<and> mt_attr t' = mt_attr (get_type sel mb)
    \<and> (\<forall>i < mt_cnt t'. s \<le> i \<and> i < en \<longleftrightarrow>
         base < rg_end (used t' ! i) \<and> rg_base (used t' ! i) < range_end base n)
    \<and> (\<forall>i < mt_cnt t'. s \<le> i \<and> i < en \<longrightarrow>
         base \<le> rg_base (used t' ! i) \<and> rg_end (used t' ! i) \<le> range_end base n)"
  by (rule isolate_range_ok [OF assms])

theorem memblock_isolate_range_spec_witness:
  "\<exists>t' s en. memblock_isolate_range MB_memory 0x40300000 0x200000 demo_mb = Ret (demo_mb\<lparr>mb_memory := t'\<rparr>, 0, s, en)
    \<and> mt_attr t' = mt_attr (mb_memory demo_mb)"
proof -
  have "memblock_cap_size 0x40300000 0x200000 \<noteq> 0" by (simp add: memblock_cap_size_def)
  from memblock_isolate_range_spec [of MB_memory demo_mb, OF _ _ this] show ?thesis by (auto simp: demo_wf)
qed

text \<open>
  C11. The counting pass of \<open>memblock_add_range\<close> changes nothing and announces exactly the
  number of regions the inserting pass then inserts.
\<close>

theorem memblock_add_pass_count_insert:
  assumes "mt_wf t" and "memblock_add_pass False base end nid fl t = Ret (t0, nr, s0, e0)"
    and "mt_cnt t + nr \<le> mt_max t"
  shows "t0 = t \<and> (\<exists>t' s en. memblock_add_pass True base end nid fl t = Ret (t', nr, s, en)
    \<and> mt_cnt t' = mt_cnt t + nr \<and> mt_shape t')"
proof -
  have sh: "mt_shape t" using assms(1) by (simp add: mt_wf_def)
  have nr: "t0 = t" "nr = add_need end base (used t)"
    using add_pass_count [OF sh, of base "end" nid fl] assms(2) by simp_all
  obtain t' s en where t': "memblock_add_pass True base end nid fl t = Ret (t', nr, s, en)"
    "used t' = add_list end nid fl base (used t)" "mt_shape t'"
    using add_pass_insert [OF sh, of "end" base nid fl] assms(3) nr by auto
  have "mt_cnt t' = mt_cnt t + nr"
    using length_used [OF t'(3)] length_used [OF sh] by (simp add: t'(2) length_add_list nr)
  with t' nr(1) show ?thesis by blast
qed

theorem memblock_add_pass_count_insert_witness:
  "\<exists>t' s en. memblock_add_pass True 0x40100000 0x40500000 (-1) 0 (mb_reserved demo_mb) = Ret (t', 2, s, en)
    \<and> mt_cnt t' = 4"
proof -
  have n: "add_need 0x40500000 0x40100000 (used (mb_reserved demo_mb)) = 2"
    by (simp add: demo_mb_def demo_type_def used_def add_need_def min_def)
  have sh: "mt_shape (mb_reserved demo_mb)" using demo_wf by (simp add: mt_wf_def)
  show ?thesis
    using memblock_add_pass_count_insert [OF demo_wf(2) add_pass_count [OF sh, of "0x40100000" "0x40500000" "-1" 0]]
    by (auto simp: n demo_wf)
qed

text \<open>
  C5. Both loops over free memory end within their fuel, and the ranges they visit cover an
  address iff it lies in a selected memory region and is not reserved; the reverse loop
  visits them in descending order.
\<close>

theorem for_each_free_mem_range_exact:
  assumes "wf_iter mb"
  shows "\<exists>fw bw. for_each_free_mem_range (iter_fuel mb) mb 0 nid fl = Ret fw
    \<and> for_each_free_mem_range_reverse (iter_fuel mb) mb ULLONG_MAX nid fl = Ret bw
    \<and> (\<forall>a. covers fw a \<longleftrightarrow> free_at mb nid fl a) \<and> (\<forall>a. covers bw a \<longleftrightarrow> free_at mb nid fl a)
    \<and> descending bw"
proof -
  have "descending (all_free_rev mb nid fl)"
    unfolding all_free_rev_eq [OF assms]
    by (rule isect_rev_descending) (use wf_iterD [OF assms] rchain_rsorted gaps_of_gsorted in auto)
  then show ?thesis using for_each_free_all [OF assms] covers_iff [OF assms] by blast
qed

theorem for_each_free_mem_range_exact_witness:
  "\<exists>fw. for_each_free_mem_range 6 demo_mb 0 (-1) 0 = Ret fw \<and> covers fw 0x40000000 \<and> \<not> covers fw 0x40200000"
proof -
  have wi: "wf_iter demo_mb" using demo_wf by (simp add: wf_mb_def)
  have "free_at demo_mb (-1) 0 0x40000000" "\<not> free_at demo_mb (-1) 0 0x40200000"
    by (simp_all add: free_at_def demo_mb_def demo_type_def used_def mt_attr_def should_skip_region_def
        numa_valid_node_def memblock_is_nomap_def memblock_is_driver_managed_def new_region_def rg_has_def rg_end_def)
  then show ?thesis using for_each_free_mem_range_exact [OF wi, of "-1" 0] by (auto simp: demo_wf)
qed

text \<open>
  C12. The 64-bit cursor of \<open>__next_mem_range\<close> returns the two signed 32-bit indices that
  were packed into it, and only two indices of -1 give the end marker.
\<close>

theorem cursor_roundtrip:
  assumes "- (2 ^ 31) \<le> a" and "a < 2 ^ 31" and "- (2 ^ 31) \<le> b" and "b < 2 ^ 31"
  shows "cursor_a (pack_cursor a b) = a \<and> cursor_b (pack_cursor a b) = b
    \<and> (pack_cursor a b = ULLONG_MAX \<longrightarrow> a = -1 \<and> b = -1)"
proof -
  note c = cursor_pack [OF assms]
  show ?thesis using c cursor_minus_1 by auto
qed

theorem cursor_roundtrip_witness: "cursor_a (pack_cursor 7 (-1)) = 7 \<and> cursor_b (pack_cursor 7 (-1)) = -1"
  using cursor_roundtrip [of 7 "-1"] by simp

text \<open>
  C6. \<open>memblock_find_in_range_node\<close> always returns, and a non-zero result is aligned, not in
  the first page, within the limits without wrapping, and every byte of the block is free.
\<close>

theorem memblock_find_in_range_node_sound:
  assumes "wf_iter mb" and "k < 64"
  shows "\<exists>r. memblock_find_in_range_node mb n (2 ^ k) start end nid fl = Ret r
    \<and> (r \<noteq> 0 \<longrightarrow> IS_ALIGNED r (2 ^ k) \<and> PAGE_SIZE \<le> r \<and> start \<le> r
         \<and> n \<le> find_hi mb start end \<and> r \<le> find_hi mb start end - n
         \<and> (\<forall>a. r \<le> a \<and> a < r + n \<longrightarrow> free_at mb nid fl a))"
proof -
  obtain r where r: "memblock_find_in_range_node mb n (2 ^ k) start end nid fl = Ret r"
    using find_in_range_node_returns [OF assms(1)] by blast
  show ?thesis
  proof (cases "r = 0")
    case False
    note s = find_in_range_node_sound [OF assms r False]
    moreover have "free_at mb nid fl a" if "r \<le> a \<and> a < r + n" for a
      using s in_range_iff [of r "find_hi mb start end" n a] that by blast
    ultimately show ?thesis using r by (auto simp: find_lo_def)
  qed (use r in simp)
qed

theorem memblock_find_in_range_node_sound_witness:
  "\<exists>r. memblock_find_in_range_node demo_mb 0x1000 (2 ^ 12) 0 0 (-1) 0 = Ret r
    \<and> (r \<noteq> 0 \<longrightarrow> PAGE_SIZE \<le> r)"
  using memblock_find_in_range_node_sound [of demo_mb 12 "0x1000" 0 0 "-1" 0] demo_wf(3)
  by (auto simp: wf_mb_def)

text \<open>
  C4. The top-down search fails only if there is nothing to find: any aligned block inside
  one selected region, within the limits and not reserved, lies at or below the result.
\<close>

theorem memblock_find_in_range_node_highest:
  assumes "wf_iter mb" and "\<not> mb_bottom_up mb"
    and "m \<in> set (used (mb_memory mb))" and "\<not> should_skip_region MB_memory m nid fl"
    and "IS_ALIGNED c (2 ^ k)" and "0 < n" and "find_lo start \<le> c"
    and "n \<le> find_hi mb start end" and "c \<le> find_hi mb start end - n"
    and "\<forall>a. c \<le> a \<and> a \<le> c + (n - 1) \<longrightarrow> rg_has m a \<and> mt_attr (mb_reserved mb) a = None"
  shows "\<exists>r. memblock_find_in_range_node mb n (2 ^ k) start end nid fl = Ret r \<and> c \<le> r"
  by (rule find_in_range_node_complete [OF assms])

theorem memblock_find_in_range_node_highest_witness:
  "\<exists>r. memblock_find_in_range_node demo_mb 0x1000 (2 ^ 12) 0 0 (-1) 0 = Ret r \<and> 0x7ffff000 \<le> r"
proof (rule memblock_find_in_range_node_highest [where m = "new_region 0x40000000 0x80000000 16 0"])
  have hi: "find_hi demo_mb 0 0 = -1"
    by (simp add: find_hi_def find_lo_def demo_mb_def memblock_init_def max_def)
  show "(0x1000 :: phys_addr) \<le> find_hi demo_mb 0 0" "0x7ffff000 \<le> find_hi demo_mb 0 0 - 0x1000"
    by (simp_all add: hi)
  have b: "a < 0x80000000" if "a \<le> 0x7fffffff" for a :: phys_addr using that by uint_arith
  have c: "0x40000000 \<le> a" "\<not> a < 0x50001000" "\<not> a < 0x40400000" if "0x7ffff000 \<le> a" for a :: phys_addr
    using that by uint_arith+
  show "\<forall>a. 0x7ffff000 \<le> a \<and> a \<le> 0x7ffff000 + (0x1000 - 1) \<longrightarrow>
      rg_has (new_region 0x40000000 0x80000000 16 0) a \<and> mt_attr (mb_reserved demo_mb) a = None"
    using b c by (auto simp: demo_mb_def demo_type_def used_def mt_attr_def)
qed (use demo_wf in \<open>simp_all add: wf_mb_def demo_mb_def demo_type_def used_def should_skip_region_def
      numa_valid_node_def memblock_is_nomap_def memblock_is_driver_managed_def new_region_def memblock_init_def
      IS_ALIGNED_def find_lo_def max_def\<close>)

lemma alloc_range_result:
  assumes "wf_mb mb" and "memblock_phys_alloc_range n 0 start end mb = Ret (mb', pa)" and "pa \<noteq> 0"
  shows "allocated mb n 64 (find_lo start) (find_hi mb start end) mb' pa"
proof -
  have "\<exists>m r. memblock_phys_alloc_range n 0 start end mb = Ret (m, r) \<and> (r = 0 \<longrightarrow> m = mb)
    \<and> (r \<noteq> 0 \<longrightarrow> allocated mb n (2 ^ 6) (find_lo start) (find_hi mb start end) m r)"
    by (rule alloc_range_ok [OF assms(1)]) simp
  then obtain m r where m: "memblock_phys_alloc_range n 0 start end mb = Ret (m, r)"
    and al: "r \<noteq> 0 \<longrightarrow> allocated mb n (2 ^ 6) (find_lo start) (find_hi mb start end) m r"
    by (elim exE conjE) (rule that; assumption)
  have eq: "m = mb'" "r = pa" using m assms(2) by simp_all
  have "(2 ^ 6 :: phys_addr) = 64" by simp
  with al assms(3) show ?thesis unfolding eq by metis
qed

definition demo_mb1 :: memblock_env where
  "demo_mb1 = (case memblock_phys_alloc_range 0x1000 0 0 0 demo_mb of Ret (m, _) \<Rightarrow> m | _ \<Rightarrow> demo_mb)"

lemma demo_alloc:
  "memblock_phys_alloc_range 0x1000 0 0 0 demo_mb = Ret (demo_mb1, 0x7ffff000)"
proof -
  have "case memblock_phys_alloc_range 0x1000 0 0 0 demo_mb of Ret (m, p) \<Rightarrow> p = 0x7ffff000 | _ \<Rightarrow> False"
    by code_simp
  then show ?thesis by (auto simp: demo_mb1_def split: outcome.splits)
qed

lemma allocated_wf:
  assumes "wf_mb mb" and "allocated mb n al lo hi mb' r"
    and "mt_cnt (mb_reserved mb) + 4 \<le> mt_max (mb_reserved mb)" and "mt_cnt (mb_reserved mb) + 4 \<le> 2 ^ 31"
  shows "wf_mb mb'"
proof -
  have "mb_memory mb' = mb_memory mb" using assms(2) unfolding allocated_def by (elim conjE exE) simp
  with assms show ?thesis by (simp add: wf_mb_def wf_iter_def allocated_def same_array_def)
qed

lemma demo_mb1_wf: "wf_mb demo_mb1"
  by (rule allocated_wf [OF demo_wf(3) alloc_range_result [OF demo_wf(3) demo_alloc]]) (simp_all add: demo_wf)

text \<open>
  C3. \<open>memblock_phys_alloc_range\<close> either returns 0 and changes nothing, or returns an
  aligned block of usable, unreserved memory within the limits and reserves exactly it.
\<close>

theorem memblock_phys_alloc_range_spec:
  assumes "wf_mb mb" and "align = 0 \<and> k = 6 \<or> align = 2 ^ k \<and> k < 64"
  shows "\<exists>mb' pa. memblock_phys_alloc_range n align start end mb = Ret (mb', pa)
    \<and> (pa = 0 \<longrightarrow> mb' = mb)
    \<and> (pa \<noteq> 0 \<longrightarrow> allocated mb n (2 ^ k) (find_lo start) (find_hi mb start end) mb' pa)"
  by (rule alloc_range_ok [OF assms])

theorem memblock_phys_alloc_range_spec_witness:
  "\<exists>mb' pa. memblock_phys_alloc_range 0x1000 0 0 0 demo_mb = Ret (mb', pa) \<and> mt_wf (mb_reserved mb')"
proof -
  have "\<exists>m r. memblock_phys_alloc_range 0x1000 0 0 0 demo_mb = Ret (m, r) \<and> (r = 0 \<longrightarrow> m = demo_mb)
    \<and> (r \<noteq> 0 \<longrightarrow> allocated demo_mb 0x1000 (2 ^ 6) (find_lo 0) (find_hi demo_mb 0 0) m r)"
    by (rule memblock_phys_alloc_range_spec [OF demo_wf(3)]) simp
  then obtain m r where m: "memblock_phys_alloc_range 0x1000 0 0 0 demo_mb = Ret (m, r)"
    and al: "r \<noteq> 0 \<longrightarrow> allocated demo_mb 0x1000 (2 ^ 6) (find_lo 0) (find_hi demo_mb 0 0) m r"
    by (elim exE conjE) (rule that; assumption)
  have "r \<noteq> 0" using m demo_alloc by simp
  with al have "mt_wf (mb_reserved m)" unfolding allocated_def by (elim impE conjE)
  with m show ?thesis by blast
qed

text \<open>
  C8. Two allocations in a row never share an address.
\<close>

theorem memblock_phys_alloc_range_disjoint:
  assumes "wf_mb mb" and "wf_mb mb1"
    and "memblock_phys_alloc_range n1 0 s1 e1 mb = Ret (mb1, p1)" and "p1 \<noteq> 0"
    and "memblock_phys_alloc_range n2 0 s2 e2 mb1 = Ret (mb2, p2)" and "p2 \<noteq> 0"
  shows "\<not> (p1 \<le> a \<and> a < p1 + n1 \<and> p2 \<le> a \<and> a < p2 + n2)"
proof
  assume a: "p1 \<le> a \<and> a < p1 + n1 \<and> p2 \<le> a \<and> a < p2 + n2"
  note 1 = alloc_range_result [OF assms(1,3,4)]
  then have "mt_attr (mb_reserved mb1) a \<noteq> None"
    using a by (simp add: allocated_def add_attr_def split: option.splits)
  moreover note alloc_range_result [OF assms(2,5,6)]
  ultimately show False using a by (simp add: allocated_def)
qed

theorem memblock_phys_alloc_range_disjoint_witness:
  "\<exists>mb2. memblock_phys_alloc_range 0x1000 0 0 0 demo_mb1 = Ret (mb2, 0x7fffe000)
    \<and> (\<forall>a :: phys_addr. \<not> (0x7ffff000 \<le> a \<and> a < 0x7ffff000 + 0x1000
         \<and> 0x7fffe000 \<le> a \<and> a < 0x7fffe000 + 0x1000))"
proof -
  have "case memblock_phys_alloc_range 0x1000 0 0 0 demo_mb1 of Ret (m, p) \<Rightarrow> p = 0x7fffe000 | _ \<Rightarrow> False"
    by code_simp
  then obtain mb2 where 2: "memblock_phys_alloc_range 0x1000 0 0 0 demo_mb1 = Ret (mb2, 0x7fffe000)"
    by (auto split: outcome.splits)
  have "\<not> (0x7ffff000 \<le> a \<and> a < 0x7ffff000 + 0x1000 \<and> 0x7fffe000 \<le> a \<and> a < 0x7fffe000 + 0x1000)"
    for a :: phys_addr
    by (rule memblock_phys_alloc_range_disjoint [OF demo_wf(3) demo_mb1_wf demo_alloc _ 2]) simp_all
  with 2 show ?thesis by blast
qed

text \<open>
  C7. \<open>kfree\<close> of what \<open>kmalloc\<close> returned gives back exactly what was taken: the map of
  reserved addresses is the one before the allocation.
\<close>

theorem kmalloc_kfree_restores:
  assumes "wf_mb (kh_mb h)" and "n \<noteq> 0" and "kmalloc n flags h = Ret (h1, p)"
    and "p \<noteq> phys_to_virt 0 + MEM_REGION_HDR"
  shows "\<exists>h2. kfree p h1 = Ret h2
    \<and> mt_attr (mb_reserved (kh_mb h2)) = mt_attr (mb_reserved (kh_mb h)) \<and> mt_wf (mb_reserved (kh_mb h2))"
proof -
  obtain mb' pa h' where k: "kmalloc n flags h = Ret (h', phys_to_virt pa + MEM_REGION_HDR)" "kh_mb h' = mb'"
      "kh_buf_size h' (phys_to_virt pa) = kmalloc_size n"
      "pa \<noteq> 0 \<longrightarrow> allocated (kh_mb h) (region_bytes (kmalloc_size n)) 64 (find_lo 0) (find_hi (kh_mb h) 0 0) mb' pa"
    using kmalloc_cases [OF assms(1,2), of flags] by metis
  then have p: "p = phys_to_virt pa + MEM_REGION_HDR" "h1 = h'" using assms(3) by simp_all
  with assms(4) have "pa \<noteq> 0" by auto
  then obtain mb2 where "memblock_phys_free pa (region_bytes (kmalloc_size n)) mb' = Ret (mb2, 0)"
    "mt_attr (mb_reserved mb2) = mt_attr (mb_reserved (kh_mb h))" "mt_wf (mb_reserved mb2)"
    using allocated_release [OF assms(1)] k(4) by blast
  then show ?thesis using k(2,3) by (simp add: kfree_def Let_def p)
qed

definition demo_heap :: kheap where
  "demo_heap = \<lparr>kh_mb = demo_mb, kh_buf_size = (\<lambda>_. 0), kh_bytes = (\<lambda>_. 0), kmalloc_ready = True\<rparr>"

theorem kmalloc_kfree_restores_witness:
  "\<exists>h1 p h2. kmalloc 100 0 demo_heap = Ret (h1, p) \<and> kfree p h1 = Ret h2
    \<and> mt_attr (mb_reserved (kh_mb h2)) = mt_attr (mb_reserved demo_mb)"
proof -
  have "case kmalloc 100 0 demo_heap of Ret (h, p) \<Rightarrow> p \<noteq> phys_to_virt 0 + MEM_REGION_HDR | _ \<Rightarrow> False"
    by code_simp
  then obtain h1 p where k: "kmalloc 100 0 demo_heap = Ret (h1, p)" "p \<noteq> phys_to_virt 0 + MEM_REGION_HDR"
    by (auto split: outcome.splits)
  have wf: "wf_mb (kh_mb demo_heap)" using demo_wf by (simp add: demo_heap_def)
  from kmalloc_kfree_restores [OF wf _ k] k show ?thesis by (auto simp: demo_heap_def)
qed



text \<open>
  C14. The buffers \<open>kmalloc\<close> returns lie 16 bytes behind a 64-byte boundary, whatever the size:
  doubling the size does not align the result to the size as the comment in the code says.
\<close>

theorem kmalloc_never_aligned:
  assumes "wf_mb (kh_mb h)" and "n \<noteq> 0" and "kmalloc n flags h = Ret (h1, p)"
  shows "unat p mod 64 = 16"
proof (rule kmalloc_cases [OF assms(1,2), of flags])
  fix mb' pa
  assume k: "\<exists>h'. kmalloc n flags h = Ret (h', phys_to_virt pa + MEM_REGION_HDR)
      \<and> kh_mb h' = mb' \<and> kh_buf_size h' (phys_to_virt pa) = kmalloc_size n"
    and al: "pa \<noteq> 0 \<Longrightarrow> allocated (kh_mb h) (region_bytes (kmalloc_size n)) 64
          (find_lo 0) (find_hi (kh_mb h) 0 0) mb' pa"
  have "IS_ALIGNED pa (2 ^ 6)"
    by (cases "pa = 0") (use al in \<open>simp_all add: allocated_def IS_ALIGNED_def\<close>)
  then have "unat pa mod 2 ^ 6 = 0" by (simp only: aligned_unat)
  then have "unat pa mod 64 = 0" by simp
  moreover have "p = pa + 0xfffeffffc0000010" using k assms(3) by (auto simp: phys_to_virt_def)
  then have "unat p mod 64 = (unat pa + 0xfffeffffc0000010) mod 64"
    by (simp add: unat_word_ariths mod_mod_cancel)
  ultimately show ?thesis by (simp add: mod_add_left_eq [symmetric])
qed

theorem kmalloc_never_aligned_witness:
  "\<exists>h1 p. kmalloc 100 0 demo_heap = Ret (h1, p) \<and> unat p mod 64 = 16"
proof -
  have wf: "wf_mb (kh_mb demo_heap)" using demo_wf by (simp add: demo_heap_def)
  obtain h1 p where k: "kmalloc 100 0 demo_heap = Ret (h1, p)"
    by (rule kmalloc_cases [OF wf, of 100 0]) auto
  from kmalloc_never_aligned [OF wf _ k] k show ?thesis by auto
qed




text \<open>
  C10. Booting from the static tables never fails: afterwards exactly the RAM window is memory,
  every section of the kernel image is reserved, and the allocator is well formed.
\<close>

theorem physmem_init_spec:
  "\<exists>mb'. physmem_init k memblock_init = Ret mb' \<and> wf_mb mb'
    \<and> (\<forall>a. mt_attr (mb_memory mb') a =
         (if RAM_BASE \<le> a \<and> a < RAM_BASE + RAM_SIZE then Some (MAX_NUMNODES, 0) else None))
    \<and> covered (kimage_sections k) (mb_reserved mb')"
  using physmem_init_ok [of k] by (simp only: fun_eq_iff)

end
