(* ===== verification/Quest_String.thy ===== *)
theory Quest_String
  imports Quest_Prelude
begin

text \<open>
  The C string and memory routines of \<open>src/uboot_modified/lib/string.c\<close> and the character
  classes of \<open>src/uboot_modified/lib/ctype.c\<close>.

  Memory is a map from addresses to bytes; addresses and sizes are natural numbers, since
  an object of the program never wraps around the address space. A loop that runs until
  it meets a NUL byte may not end, so it is a partial function whose value is \<open>None\<close> when
  it does not return; a loop bounded by a count is total. \<open>char\<close> is unsigned on this
  platform.
\<close>

unbundle bit_operations_syntax

type_synonym mem = "nat \<Rightarrow> u8"

abbreviation SIZE_MAX :: nat where "SIZE_MAX \<equiv> 2 ^ 64 - 1"

section \<open>Character classes\<close>

abbreviation CT_U :: u8 where "CT_U \<equiv> 0x01"
abbreviation CT_L :: u8 where "CT_L \<equiv> 0x02"
abbreviation CT_D :: u8 where "CT_D \<equiv> 0x04"
abbreviation CT_C :: u8 where "CT_C \<equiv> 0x08"
abbreviation CT_P :: u8 where "CT_P \<equiv> 0x10"
abbreviation CT_S :: u8 where "CT_S \<equiv> 0x20"
abbreviation CT_X :: u8 where "CT_X \<equiv> 0x40"
abbreviation CT_SP :: u8 where "CT_SP \<equiv> 0x80"

text \<open>The table \<open>_ctype\<close>, one segment per run of equal entries.\<close>

definition ctype_table :: "u8 list" where
  "ctype_table =
     replicate 9 CT_C @ replicate 5 (CT_C OR CT_S) @ replicate 18 CT_C
     @ [CT_S OR CT_SP] @ replicate 15 CT_P
     @ replicate 10 CT_D @ replicate 7 CT_P
     @ replicate 6 (CT_U OR CT_X) @ replicate 20 CT_U @ replicate 6 CT_P
     @ replicate 6 (CT_L OR CT_X) @ replicate 20 CT_L @ replicate 4 CT_P @ [CT_C]
     @ replicate 32 0
     @ [CT_S OR CT_SP] @ replicate 31 CT_P
     @ replicate 23 CT_U @ [CT_P] @ replicate 7 CT_U @ [CT_L]
     @ replicate 23 CT_L @ [CT_P] @ replicate 8 CT_L"

definition ismask :: "u8 \<Rightarrow> u8" where
  "ismask x = ctype_table ! unat x"

definition isdigit :: "u8 \<Rightarrow> bool" where "isdigit c \<longleftrightarrow> ismask c AND CT_D \<noteq> 0"
definition isxdigit :: "u8 \<Rightarrow> bool" where "isxdigit c \<longleftrightarrow> ismask c AND (CT_D OR CT_X) \<noteq> 0"
definition isupper :: "u8 \<Rightarrow> bool" where "isupper c \<longleftrightarrow> ismask c AND CT_U \<noteq> 0"
definition islower :: "u8 \<Rightarrow> bool" where "islower c \<longleftrightarrow> ismask c AND CT_L \<noteq> 0"
definition isalnum :: "u8 \<Rightarrow> bool" where "isalnum c \<longleftrightarrow> ismask c AND (CT_U OR CT_L OR CT_D) \<noteq> 0"
definition isspace :: "u8 \<Rightarrow> bool" where "isspace c \<longleftrightarrow> ismask c AND CT_S \<noteq> 0"

definition tolower :: "u8 \<Rightarrow> u8" where
  "tolower c = (if isupper c then c + 32 else c)"

definition toupper :: "u8 \<Rightarrow> u8" where
  "toupper c = (if islower c then c - 32 else c)"

section \<open>Comparison\<close>

fun strncasecmp_loop :: "mem \<Rightarrow> nat \<Rightarrow> nat \<Rightarrow> nat \<Rightarrow> u8 \<times> u8" where
  "strncasecmp_loop m s1 s2 len =
    (let c1 = m s1; c2 = m s2 in
     if c1 = 0 then (c1, c2)
     else if c2 = 0 then (c1, c2)
     else if c1 = c2 then
       (if len - 1 = 0 then (c1, c2) else strncasecmp_loop m (Suc s1) (Suc s2) (len - 1))
     else if tolower c1 \<noteq> tolower c2 then (tolower c1, tolower c2)
     else if len - 1 = 0 then (tolower c1, tolower c2)
     else strncasecmp_loop m (Suc s1) (Suc s2) (len - 1))"

declare strncasecmp_loop.simps [simp del]

definition strncasecmp :: "mem \<Rightarrow> nat \<Rightarrow> nat \<Rightarrow> nat \<Rightarrow> int" where
  "strncasecmp m s1 s2 len =
    (case (if len \<noteq> 0 then strncasecmp_loop m s1 s2 len else (0, 0)) of
       (c1, c2) \<Rightarrow> int (unat c1) - int (unat c2))"

definition strcasecmp :: "mem \<Rightarrow> nat \<Rightarrow> nat \<Rightarrow> int" where
  "strcasecmp m s1 s2 = strncasecmp m s1 s2 0xffffffff"

partial_function (option) strcmp :: "mem \<Rightarrow> nat \<Rightarrow> nat \<Rightarrow> int option" where
  "strcmp m cs ct =
    (let a = m cs; b = m ct; ret = int (unat a) - int (unat b) in
     if ret \<noteq> 0 \<or> b = 0 then Some ret else strcmp m (Suc cs) (Suc ct))"

fun strncmp_loop :: "mem \<Rightarrow> nat \<Rightarrow> nat \<Rightarrow> nat \<Rightarrow> int \<Rightarrow> int" where
  "strncmp_loop m cs ct 0 ret = ret"
| "strncmp_loop m cs ct (Suc count) ret =
    (let a = m cs; b = m ct; ret' = int (unat a) - int (unat b) in
     if ret' \<noteq> 0 \<or> b = 0 then ret' else strncmp_loop m (Suc cs) (Suc ct) count ret')"

definition strncmp :: "mem \<Rightarrow> nat \<Rightarrow> nat \<Rightarrow> nat \<Rightarrow> int" where
  "strncmp m cs ct count = strncmp_loop m cs ct count 0"

fun memcmp :: "mem \<Rightarrow> nat \<Rightarrow> nat \<Rightarrow> nat \<Rightarrow> int" where
  "memcmp m cs ct 0 = 0"
| "memcmp m cs ct (Suc count) =
    (let res = int (unat (m cs)) - int (unat (m ct)) in
     if res \<noteq> 0 then res else memcmp m (Suc cs) (Suc ct) count)"

section \<open>Length and search\<close>

text \<open>The loop of \<open>strlen\<close>: the address of the terminator.\<close>

partial_function (option) strend :: "mem \<Rightarrow> nat \<Rightarrow> nat option" where
  "strend m sc = (if m sc \<noteq> 0 then strend m (Suc sc) else Some sc)"

definition strlen :: "mem \<Rightarrow> nat \<Rightarrow> nat option" where
  "strlen m s = map_option (\<lambda>sc. sc - s) (strend m s)"

fun strnlen_loop :: "mem \<Rightarrow> nat \<Rightarrow> nat \<Rightarrow> nat" where
  "strnlen_loop m sc 0 = sc"
| "strnlen_loop m sc (Suc count) = (if m sc \<noteq> 0 then strnlen_loop m (Suc sc) count else sc)"

definition strnlen :: "mem \<Rightarrow> nat \<Rightarrow> nat \<Rightarrow> nat" where
  "strnlen m s count = strnlen_loop m s count - s"

partial_function (option) strchr :: "mem \<Rightarrow> nat \<Rightarrow> u8 \<Rightarrow> nat option option" where
  "strchr m s c =
    (if m s \<noteq> c then (if m s = 0 then Some None else strchr m (Suc s) c) else Some (Some s))"

partial_function (option) strchrnul :: "mem \<Rightarrow> nat \<Rightarrow> u8 \<Rightarrow> nat option" where
  "strchrnul m s c =
    (if m s \<noteq> c then (if m s = 0 then Some s else strchrnul m (Suc s) c) else Some s)"

fun strrchr_loop :: "mem \<Rightarrow> nat \<Rightarrow> u8 \<Rightarrow> nat \<Rightarrow> nat option" where
  "strrchr_loop m s c i =
    (if m (s + i) = c then Some (s + i) else if i = 0 then None else strrchr_loop m s c (i - 1))"

declare strrchr_loop.simps [simp del]

definition strrchr :: "mem \<Rightarrow> nat \<Rightarrow> u8 \<Rightarrow> nat option option" where
  "strrchr m s c = map_option (\<lambda>n. strrchr_loop m s c n) (strlen m s)"

text \<open>The inner loops of \<open>strcspn\<close>, \<open>strspn\<close> and \<open>strpbrk\<close>: is the byte in the string at \<open>r\<close>?\<close>

partial_function (option) char_in :: "mem \<Rightarrow> u8 \<Rightarrow> nat \<Rightarrow> bool option" where
  "char_in m c r =
    (if m r \<noteq> 0 then (if c = m r then Some True else char_in m c (Suc r)) else Some False)"

partial_function (option) strcspn_loop :: "mem \<Rightarrow> nat \<Rightarrow> nat \<Rightarrow> nat \<Rightarrow> nat option" where
  "strcspn_loop m p reject count =
    (if m p \<noteq> 0 then
       Option.bind (char_in m (m p) reject) (\<lambda>hit.
         if hit then Some count else strcspn_loop m (Suc p) reject (Suc count))
     else Some count)"

definition strcspn :: "mem \<Rightarrow> nat \<Rightarrow> nat \<Rightarrow> nat option" where
  "strcspn m s reject = strcspn_loop m s reject 0"

partial_function (option) strspn_loop :: "mem \<Rightarrow> nat \<Rightarrow> nat \<Rightarrow> nat \<Rightarrow> nat option" where
  "strspn_loop m p accept count =
    (if m p \<noteq> 0 then
       Option.bind (char_in m (m p) accept) (\<lambda>hit.
         if \<not> hit then Some count else strspn_loop m (Suc p) accept (Suc count))
     else Some count)"

definition strspn :: "mem \<Rightarrow> nat \<Rightarrow> nat \<Rightarrow> nat option" where
  "strspn m s accept = strspn_loop m s accept 0"

partial_function (option) strpbrk :: "mem \<Rightarrow> nat \<Rightarrow> nat \<Rightarrow> nat option option" where
  "strpbrk m sc1 ct =
    (if m sc1 \<noteq> 0 then
       Option.bind (char_in m (m sc1) ct) (\<lambda>hit.
         if hit then Some (Some sc1) else strpbrk m (Suc sc1) ct)
     else Some None)"

section \<open>Copying\<close>

partial_function (option) strcpy_loop :: "mem \<Rightarrow> nat \<Rightarrow> nat \<Rightarrow> mem option" where
  "strcpy_loop m dest src =
    (let m' = m(dest := m src) in
     if m src \<noteq> 0 then strcpy_loop m' (Suc dest) (Suc src) else Some m')"

definition strcpy :: "mem \<Rightarrow> nat \<Rightarrow> nat \<Rightarrow> mem option" where
  "strcpy m dest src = strcpy_loop m dest src"

fun strncpy :: "mem \<Rightarrow> nat \<Rightarrow> nat \<Rightarrow> nat \<Rightarrow> mem" where
  "strncpy m dest src 0 = m"
| "strncpy m dest src (Suc count) =
    (let m' = m(dest := m src) in
     if m src \<noteq> 0 then strncpy m' (Suc dest) (Suc src) count else m')"

text \<open>Word accesses: eight bytes, little endian.\<close>

definition put_word :: "mem \<Rightarrow> nat \<Rightarrow> u64 \<Rightarrow> mem" where
  "put_word m a w = (\<lambda>x. if a \<le> x \<and> x < a + 8 then ucast (drop_bit (8 * (x - a)) w) else m x)"

definition get_word :: "mem \<Rightarrow> nat \<Rightarrow> u64" where
  "get_word m a =
    ucast (m a) OR push_bit 8 (ucast (m (a + 1))) OR push_bit 16 (ucast (m (a + 2)))
    OR push_bit 24 (ucast (m (a + 3))) OR push_bit 32 (ucast (m (a + 4)))
    OR push_bit 40 (ucast (m (a + 5))) OR push_bit 48 (ucast (m (a + 6)))
    OR push_bit 56 (ucast (m (a + 7)))"

fun memset_words :: "mem \<Rightarrow> nat \<Rightarrow> u64 \<Rightarrow> nat \<Rightarrow> mem \<times> nat \<times> nat" where
  "memset_words m sl cl count =
    (if count \<ge> 8 then memset_words (put_word m sl cl) (sl + 8) cl (count - 8) else (m, sl, count))"

declare memset_words.simps [simp del]

fun memset_bytes :: "mem \<Rightarrow> nat \<Rightarrow> u8 \<Rightarrow> nat \<Rightarrow> mem" where
  "memset_bytes m s8 c 0 = m"
| "memset_bytes m s8 c (Suc count) = memset_bytes (m(s8 := c)) (Suc s8) c count"

text \<open>The loop that spreads the byte over a word.\<close>

fun spread_byte :: "nat \<Rightarrow> u64 \<Rightarrow> int \<Rightarrow> u64" where
  "spread_byte 0 cl c = cl"
| "spread_byte (Suc i) cl c = spread_byte i (push_bit 8 cl OR (word_of_int c AND 0xff)) c"

definition memset :: "mem \<Rightarrow> nat \<Rightarrow> int \<Rightarrow> nat \<Rightarrow> mem" where
  "memset m s c count =
    (if s mod 8 = 0 then
       (case memset_words m s (spread_byte 8 0 c) count of
          (m', sl, count') \<Rightarrow> memset_bytes m' sl (word_of_int c) count')
     else memset_bytes m s (word_of_int c) count)"

fun memcpy_words :: "mem \<Rightarrow> nat \<Rightarrow> nat \<Rightarrow> nat \<Rightarrow> mem \<times> nat \<times> nat \<times> nat" where
  "memcpy_words m dl sl count =
    (if count \<ge> 8 then memcpy_words (put_word m dl (get_word m sl)) (dl + 8) (sl + 8) (count - 8)
     else (m, dl, sl, count))"

declare memcpy_words.simps [simp del]

fun memcpy_bytes :: "mem \<Rightarrow> nat \<Rightarrow> nat \<Rightarrow> nat \<Rightarrow> mem" where
  "memcpy_bytes m d8 s8 0 = m"
| "memcpy_bytes m d8 s8 (Suc count) = memcpy_bytes (m(d8 := m s8)) (Suc d8) (Suc s8) count"

definition memcpy :: "mem \<Rightarrow> nat \<Rightarrow> nat \<Rightarrow> nat \<Rightarrow> mem" where
  "memcpy m dest src count =
    (if src = dest then m
     else if dest mod 8 = 0 \<and> src mod 8 = 0 then
       (case memcpy_words m dest src count of
          (m', dl, sl, count') \<Rightarrow> memcpy_bytes m' dl sl count')
     else memcpy_bytes m dest src count)"

fun memmove_down :: "mem \<Rightarrow> nat \<Rightarrow> nat \<Rightarrow> nat \<Rightarrow> mem" where
  "memmove_down m dest src 0 = m"
| "memmove_down m dest src (Suc count) =
    memmove_down (m(dest + count := m (src + count))) dest src count"

definition memmove :: "mem \<Rightarrow> nat \<Rightarrow> nat \<Rightarrow> nat \<Rightarrow> mem" where
  "memmove m dest src count =
    (if dest \<le> src \<or> src + count \<le> dest then memcpy m dest src count
     else memmove_down m dest src count)"

definition strlcpy :: "mem \<Rightarrow> nat \<Rightarrow> nat \<Rightarrow> nat \<Rightarrow> (mem \<times> nat) option" where
  "strlcpy m dest src size' =
    map_option (\<lambda>ret.
      (if size' \<noteq> 0 then
         let len = (if ret \<ge> size' then size' - 1 else ret) in (memcpy m dest src len)(dest + len := 0)
       else m, ret)) (strlen m src)"

definition strcat :: "mem \<Rightarrow> nat \<Rightarrow> nat \<Rightarrow> mem option" where
  "strcat m dest src = Option.bind (strend m dest) (\<lambda>d. strcpy_loop m d src)"

fun strncat_loop :: "mem \<Rightarrow> nat \<Rightarrow> nat \<Rightarrow> nat \<Rightarrow> mem" where
  "strncat_loop m dest src count =
    (let m' = m(dest := m src) in
     if m src = 0 then m'
     else if count \<le> 1 then m'(Suc dest := 0)
     else strncat_loop m' (Suc dest) (Suc src) (count - 1))"

declare strncat_loop.simps [simp del]

definition strncat :: "mem \<Rightarrow> nat \<Rightarrow> nat \<Rightarrow> nat \<Rightarrow> mem option" where
  "strncat m dest src count =
    (if count \<noteq> 0 then map_option (\<lambda>d. strncat_loop m d src count) (strend m dest) else Some m)"

definition strlcat :: "mem \<Rightarrow> nat \<Rightarrow> nat \<Rightarrow> nat \<Rightarrow> (mem \<times> nat) option" where
  "strlcat m dest src size' =
    (let len = strnlen m dest size' in
     map_option (\<lambda>(m', r). (m', len + r)) (strlcpy m (dest + len) src (size' - len)))"

fun sized_strscpy_loop :: "mem \<Rightarrow> nat \<Rightarrow> nat \<Rightarrow> nat \<Rightarrow> nat \<Rightarrow> mem \<times> nat option \<times> nat" where
  "sized_strscpy_loop m dest src i 0 = (m, None, i)"
| "sized_strscpy_loop m dest src i (Suc left) =
    (if m (src + i) = 0 then (m(dest + i := 0), Some i, i)
     else sized_strscpy_loop (m(dest + i := m (src + i))) dest src (Suc i) left)"

definition sized_strscpy :: "mem \<Rightarrow> nat \<Rightarrow> nat \<Rightarrow> nat \<Rightarrow> mem \<times> int" where
  "sized_strscpy m dest src count =
    (if count = 0 then (m, - E2BIG)
     else (case sized_strscpy_loop m dest src 0 (count - 1) of
             (m', Some r, _) \<Rightarrow> (m', int r)
           | (m', None, i) \<Rightarrow>
               let m'' = m'(dest + i := 0) in
               (m'', if m'' (src + i) = 0 then int i else - E2BIG)))"

text \<open>
  The routines that duplicate: \<open>malloc\<close> belongs to a library, so the address it returns for
  a size (or NULL) is an argument.
\<close>

definition strdup :: "(nat \<Rightarrow> nat option) \<Rightarrow> mem \<Rightarrow> nat option \<Rightarrow> (mem \<times> nat option) option" where
  "strdup malloc m s =
    (case s of
       None \<Rightarrow> Some (m, None)
     | Some p \<Rightarrow>
         Option.bind (strlen m p) (\<lambda>len.
           case malloc (len + 1) of
             None \<Rightarrow> Some (m, None)
           | Some new \<Rightarrow> map_option (\<lambda>m'. (m', Some new)) (strcpy m new p)))"

definition strndup :: "(nat \<Rightarrow> nat option) \<Rightarrow> mem \<Rightarrow> nat option \<Rightarrow> nat \<Rightarrow> (mem \<times> nat option) option" where
  "strndup malloc m s n =
    (case s of
       None \<Rightarrow> Some (m, None)
     | Some p \<Rightarrow>
         map_option (\<lambda>len0.
           let len = (if n < len0 then n else len0) in
           case malloc (len + 1) of
             None \<Rightarrow> (m, None)
           | Some new \<Rightarrow> ((strncpy m new p len)(new + len := 0), Some new)) (strlen m p))"

definition memdup :: "(nat \<Rightarrow> nat option) \<Rightarrow> mem \<Rightarrow> nat \<Rightarrow> nat \<Rightarrow> mem \<times> nat option" where
  "memdup malloc m src len =
    (case malloc len of None \<Rightarrow> (m, None) | Some p \<Rightarrow> (memcpy m p src len, Some p))"

section \<open>Tokens\<close>

text \<open>\<open>strtok\<close> keeps its position in \<open>___strtok\<close>; NULL is \<open>None\<close>.\<close>

definition strtok :: "mem \<Rightarrow> nat option \<Rightarrow> nat option \<Rightarrow> nat \<Rightarrow> (mem \<times> nat option \<times> nat option) option" where
  "strtok m st s ct =
    (case (case s of Some p \<Rightarrow> Some p | None \<Rightarrow> st) of
       None \<Rightarrow> Some (m, st, None)
     | Some sbegin0 \<Rightarrow>
         Option.bind (strspn m sbegin0 ct) (\<lambda>n.
           let sbegin = sbegin0 + n in
           if m sbegin = 0 then Some (m, None, None)
           else Option.bind (strpbrk m sbegin ct) (\<lambda>send.
             case send of
               Some p \<Rightarrow> if m p \<noteq> 0 then Some (m(p := 0), Some (Suc p), Some sbegin)
                         else Some (m, Some p, Some sbegin)
             | None \<Rightarrow> Some (m, None, Some sbegin))))"

definition strsep :: "mem \<Rightarrow> nat option \<Rightarrow> nat \<Rightarrow> (mem \<times> nat option \<times> nat option) option" where
  "strsep m s ct =
    (case s of
       None \<Rightarrow> Some (m, None, None)
     | Some sbegin \<Rightarrow>
         Option.bind (strpbrk m sbegin ct) (\<lambda>e.
           case e of
             Some p \<Rightarrow> Some (m(p := 0), Some (Suc p), Some sbegin)
           | None \<Rightarrow> Some (m, None, Some sbegin)))"

partial_function (option) strswab_loop :: "mem \<Rightarrow> nat \<Rightarrow> mem option" where
  "strswab_loop m p =
    (if m p \<noteq> 0 \<and> m (Suc p) \<noteq> 0
     then strswab_loop (m(p := m (Suc p), Suc p := m p)) (p + 2)
     else Some m)"

definition strswab :: "mem \<Rightarrow> nat option \<Rightarrow> (mem \<times> nat option) option" where
  "strswab m s =
    (case s of
       None \<Rightarrow> Some (m, None)
     | Some p \<Rightarrow> if m p = 0 then Some (m, None)
                 else map_option (\<lambda>m'. (m', Some p)) (strswab_loop m p))"

section \<open>Scanning memory\<close>

text \<open>\<open>memscan\<close> compares the byte with the whole \<open>int\<close>.\<close>

fun memscan :: "mem \<Rightarrow> nat \<Rightarrow> int \<Rightarrow> nat \<Rightarrow> nat" where
  "memscan m p c 0 = p"
| "memscan m p c (Suc n) = (if int (unat (m p)) = c then p else memscan m (Suc p) c n)"

fun memchr :: "mem \<Rightarrow> nat \<Rightarrow> int \<Rightarrow> nat \<Rightarrow> nat option" where
  "memchr m p c 0 = None"
| "memchr m p c (Suc n) = (if word_of_int c = m p then Some p else memchr m (Suc p) c n)"

fun check_bytes8 :: "mem \<Rightarrow> nat \<Rightarrow> u8 \<Rightarrow> nat \<Rightarrow> nat option" where
  "check_bytes8 m start value 0 = None"
| "check_bytes8 m start value (Suc bytes) =
    (if m start \<noteq> value then Some start else check_bytes8 m (Suc start) value bytes)"

fun memchr_inv_words :: "mem \<Rightarrow> nat \<Rightarrow> u8 \<Rightarrow> u64 \<Rightarrow> nat \<Rightarrow> nat \<Rightarrow> nat option" where
  "memchr_inv_words m start value value64 0 rest = check_bytes8 m start value rest"
| "memchr_inv_words m start value value64 (Suc words) rest =
    (if get_word m start \<noteq> value64 then check_bytes8 m start value 8
     else memchr_inv_words m (start + 8) value value64 words rest)"

definition spread64 :: "u8 \<Rightarrow> u64" where
  "spread64 value =
    (let v0 = ucast value :: u64; v1 = v0 OR push_bit 8 v0; v2 = v1 OR push_bit 16 v1 in
     v2 OR push_bit 32 v2)"

text \<open>The number of words is kept in an \<open>unsigned int\<close>.\<close>

definition trunc32 :: "nat \<Rightarrow> nat" where
  "trunc32 n = unat (word_of_nat n :: u32)"

definition memchr_inv :: "mem \<Rightarrow> nat \<Rightarrow> int \<Rightarrow> nat \<Rightarrow> nat option" where
  "memchr_inv m start c bytes =
    (let value = word_of_int c :: u8 in
     if bytes \<le> 16 then check_bytes8 m start value bytes
     else
       let value64 = spread64 value; prefix = start mod 8 in
       if prefix \<noteq> 0 then
         (case check_bytes8 m start value (8 - prefix) of
            Some r \<Rightarrow> Some r
          | None \<Rightarrow>
              let start' = start + (8 - prefix); bytes' = bytes - (8 - prefix) in
              memchr_inv_words m start' value value64 (trunc32 (bytes' div 8)) (bytes' mod 8))
       else memchr_inv_words m start value value64 (trunc32 (bytes div 8)) (bytes mod 8))"

fun strnstr_loop :: "mem \<Rightarrow> nat \<Rightarrow> nat \<Rightarrow> nat \<Rightarrow> nat \<Rightarrow> nat option" where
  "strnstr_loop m s1 s2 l1 l2 =
    (if l1 \<ge> l2 then
       (if memcmp m s1 s2 l2 = 0 then Some s1
        else if l1 = 0 then None
        else strnstr_loop m (Suc s1) s2 (l1 - 1) l2)
     else None)"

declare strnstr_loop.simps [simp del]

definition strnstr :: "mem \<Rightarrow> nat \<Rightarrow> nat \<Rightarrow> nat \<Rightarrow> nat option option" where
  "strnstr m s1 s2 len =
    map_option (\<lambda>l2. strnstr_loop m s1 s2 (strnlen m s1 len) l2) (strlen m s2)"

definition strstr :: "mem \<Rightarrow> nat \<Rightarrow> nat \<Rightarrow> nat option option" where
  "strstr m s1 s2 = strnstr m s1 s2 SIZE_MAX"

end
