(* ===== verification/Quest_Strto.thy ===== *)
theory Quest_Strto
  imports Quest_String
begin

text \<open>
  The number parsers of \<open>src/uboot_modified/lib/strto.c\<close>. A parser returns the value and
  the address it stopped at, which the code stores through \<open>endp\<close>; a loop that does not
  stop is \<open>None\<close>. Results are 64-bit words, so an overlong number wraps as it does in the
  code.
\<close>

unbundle bit_operations_syntax

definition parse_integer_fixup_radix :: "mem \<Rightarrow> nat \<Rightarrow> u32 \<Rightarrow> nat \<times> u32" where
  "parse_integer_fixup_radix m s base =
    (let (s', base') =
       (if m s = 48 then
          (if tolower (m (Suc s)) = 120 then (s + 2, 16)
           else if base = 0 then (s, 8) else (s, base))
        else (s, base)) in
     (s', if base' = 0 then 10 else base'))"

definition decode_digit :: "u8 \<Rightarrow> u32" where
  "decode_digit ch =
    (if \<not> isxdigit ch then 256
     else let ch' = tolower ch in if ch' \<le> 57 then ucast ch' - 48 else ucast ch' - 97 + 10)"

partial_function (option) strtoul_loop :: "mem \<Rightarrow> nat \<Rightarrow> u32 \<Rightarrow> u64 \<Rightarrow> (u64 \<times> nat) option" where
  "strtoul_loop m cp base result =
    (if decode_digit (m cp) < base
     then strtoul_loop m (Suc cp) base (result * ucast base + ucast (decode_digit (m cp)))
     else Some (result, cp))"

definition simple_strtoul :: "mem \<Rightarrow> nat \<Rightarrow> u32 \<Rightarrow> (u64 \<times> nat) option" where
  "simple_strtoul m cp base =
    (case parse_integer_fixup_radix m cp base of (cp', base') \<Rightarrow> strtoul_loop m cp' base' 0)"

definition simple_strtoull :: "mem \<Rightarrow> nat \<Rightarrow> u32 \<Rightarrow> (u64 \<times> nat) option" where
  "simple_strtoull m cp base =
    (case parse_integer_fixup_radix m cp base of (cp', base') \<Rightarrow> strtoul_loop m cp' base' 0)"

definition hextoul :: "mem \<Rightarrow> nat \<Rightarrow> (u64 \<times> nat) option" where
  "hextoul m cp = simple_strtoul m cp 16"

definition hextoull :: "mem \<Rightarrow> nat \<Rightarrow> (u64 \<times> nat) option" where
  "hextoull m cp = simple_strtoull m cp 16"

definition dectoul :: "mem \<Rightarrow> nat \<Rightarrow> (u64 \<times> nat) option" where
  "dectoul m cp = simple_strtoul m cp 10"

text \<open>The returned pair is the error number and the value left in \<open>*res\<close>.\<close>

definition strict_strtoul :: "mem \<Rightarrow> nat \<Rightarrow> u32 \<Rightarrow> (int \<times> u64) option" where
  "strict_strtoul m cp base =
    Option.bind (strlen m cp) (\<lambda>len.
      if len = 0 then Some (- EINVAL, 0)
      else Option.bind (simple_strtoul m cp base) (\<lambda>(val, tail).
        if tail = cp then Some (- EINVAL, 0)
        else if m tail = 0 \<or> (len = (tail - cp) + 1 \<and> m tail = 10) then Some (0, val)
        else Some (- EINVAL, 0)))"

definition simple_strtol :: "mem \<Rightarrow> nat \<Rightarrow> u32 \<Rightarrow> (int \<times> nat) option" where
  "simple_strtol m cp base =
    (if m cp = 45 then map_option (\<lambda>(v, e). (sint (- v), e)) (simple_strtoul m (Suc cp) base)
     else map_option (\<lambda>(v, e). (sint v, e)) (simple_strtoul m cp base))"

definition simple_strtoll :: "mem \<Rightarrow> nat \<Rightarrow> u32 \<Rightarrow> (int \<times> nat) option" where
  "simple_strtoll m cp base =
    (if m cp = 45 then map_option (\<lambda>(v, e). (sint (- v), e)) (simple_strtoull m (Suc cp) base)
     else map_option (\<lambda>(v, e). (sint v, e)) (simple_strtoull m cp base))"

text \<open>The suffix step shared by \<open>ustrtoul\<close> and \<open>ustrtoull\<close>: g, m, k, then \<open>iB\<close>.\<close>

definition unit_suffix :: "mem \<Rightarrow> u64 \<times> nat \<Rightarrow> u64 \<times> nat" where
  "unit_suffix m = (\<lambda>(result, endp).
    let c = tolower (m endp);
        result' = (if c = 103 then result * 1024 * 1024 * 1024
                   else if c = 109 then result * 1024 * 1024
                   else if c = 107 then result * 1024 else result);
        e1 = (if c = 103 \<or> c = 109 \<or> c = 107 then Suc endp else endp);
        e2 = (if e1 \<noteq> endp \<and> m e1 = 105 then Suc e1 else e1);
        e3 = (if e1 \<noteq> endp \<and> m e2 = 66 then Suc e2 else e2)
    in (result', e3))"

definition ustrtoul :: "mem \<Rightarrow> nat \<Rightarrow> u32 \<Rightarrow> (u64 \<times> nat) option" where
  "ustrtoul m cp base = map_option (unit_suffix m) (simple_strtoul m cp base)"

definition ustrtoull :: "mem \<Rightarrow> nat \<Rightarrow> u32 \<Rightarrow> (u64 \<times> nat) option" where
  "ustrtoull m cp base = map_option (unit_suffix m) (simple_strtoull m cp base)"

text \<open>
  The backward scan of \<open>trailing_strtoln_end\<close>: \<open>p\<close> moves down to the first digit of the
  trailing number; \<open>None\<close> in the inner option means that the scan reached \<open>str\<close>.
\<close>

fun trailing_scan :: "mem \<Rightarrow> nat \<Rightarrow> nat \<Rightarrow> nat option" where
  "trailing_scan m str p =
    (if p \<le> str then None
     else if \<not> isdigit (m (p - 1)) then Some p
     else trailing_scan m str (p - 1))"

declare trailing_scan.simps [simp del]

definition trailing_strtoln_end :: "mem \<Rightarrow> nat \<Rightarrow> nat option \<Rightarrow> (int \<times> nat) option" where
  "trailing_strtoln_end m str end0 =
    Option.bind (case end0 of Some e \<Rightarrow> Some e | None \<Rightarrow> map_option (\<lambda>n. str + n) (strlen m str)) (\<lambda>e.
      let p = e - 1 in
      case (if p > str \<and> isdigit (m p) then trailing_scan m str p else None) of
        Some q \<Rightarrow> map_option (\<lambda>(v, _). (sint v, q)) (dectoul m q)
      | None \<Rightarrow> Some (- 1, e))"

definition trailing_strtoln :: "mem \<Rightarrow> nat \<Rightarrow> nat option \<Rightarrow> int option" where
  "trailing_strtoln m str end0 = map_option fst (trailing_strtoln_end m str end0)"

definition trailing_strtol :: "mem \<Rightarrow> nat \<Rightarrow> int option" where
  "trailing_strtol m str = trailing_strtoln m str None"

fun str_to_upper :: "mem \<Rightarrow> nat \<Rightarrow> nat \<Rightarrow> nat \<Rightarrow> mem" where
  "str_to_upper m inp out 0 = m"
| "str_to_upper m inp out (Suc len) =
    (if m inp \<noteq> 0 then str_to_upper (m(out := toupper (m inp))) (Suc inp) (Suc out) len
     else m(out := 0))"

text \<open>
  \<open>str_to_list\<close>: the copy is cut at its blanks, then the start of every piece is stored.
  \<open>calloc\<close> tells whether the pointer array was obtained.
\<close>

partial_function (option) cut_blanks :: "mem \<Rightarrow> nat \<Rightarrow> nat \<Rightarrow> (mem \<times> nat \<times> nat) option" where
  "cut_blanks m p count =
    (if m p = 0 then Some (m, p, count)
     else if m p = 32 then cut_blanks (m(p := 0)) (Suc p) (Suc count)
     else cut_blanks m (Suc p) count)"

fun collect_pieces :: "mem \<Rightarrow> nat \<Rightarrow> nat \<Rightarrow> nat list option" where
  "collect_pieces m p 0 = Some []"
| "collect_pieces m p (Suc n) =
    Option.bind (strlen m p) (\<lambda>k. map_option (\<lambda>ps. p # ps) (collect_pieces m (p + k + 1) n))"

definition str_to_list :: "(nat \<Rightarrow> nat option) \<Rightarrow> (nat \<Rightarrow> bool) \<Rightarrow> mem \<Rightarrow> nat \<Rightarrow> (mem \<times> nat list option) option" where
  "str_to_list malloc calloc m instr =
    Option.bind (if m instr \<noteq> 0 then strdup malloc m (Some instr) else Some (m, Some instr)) (\<lambda>(m1, str).
      case str of
        None \<Rightarrow> Some (m1, None)
      | Some s \<Rightarrow>
          Option.bind (cut_blanks m1 s 0) (\<lambda>(m2, p, count).
            let count' = (if p \<noteq> s \<and> m2 (p - 1) \<noteq> 0 then Suc count else count) in
            if \<not> calloc (count' + 1) then Some (m2, None)
            else map_option (\<lambda>ps. (m2, Some ps)) (collect_pieces m2 s count')))"

end
