(* ===== verification/Quest_String_Lemmas.thy ===== *)
theory Quest_String_Lemmas
  imports Quest_Strto
begin

text \<open>
  What the string routines compute. The word-at-a-time loops of \<open>memset\<close>, \<open>memcpy\<close> and
  \<open>memchr_inv\<close> equal byte-wise reference operations (\<open>fill\<close>, \<open>copy\<close>, \<open>first_other\<close>); the
  routines on C strings return on every terminated string (\<open>cstr\<close>) and compute the list
  operation they stand for.
\<close>

unbundle bit_operations_syntax

section \<open>Reference memory operations\<close>

definition fill :: "mem \<Rightarrow> nat \<Rightarrow> u8 \<Rightarrow> nat \<Rightarrow> mem" where
  "fill m s b n = (\<lambda>x. if s \<le> x \<and> x < s + n then b else m x)"

definition copy :: "mem \<Rightarrow> nat \<Rightarrow> nat \<Rightarrow> nat \<Rightarrow> mem" where
  "copy m d s n = (\<lambda>x. if d \<le> x \<and> x < d + n then m (s + (x - d)) else m x)"

lemma memset_bytes_eq: "memset_bytes m s c n = fill m s c n"
  by (induction n arbitrary: m s) (auto simp: fill_def fun_eq_iff)

text \<open>The words that repeat a byte in their low \<open>w\<close> bits.\<close>

definition repeats :: "u8 \<Rightarrow> nat \<Rightarrow> u64 \<Rightarrow> bool" where
  "repeats b w v \<longleftrightarrow> (\<forall>n. bit v n \<longleftrightarrow> n < w \<and> bit b (n mod 8))"

lemma repeats_unique: "repeats b w v \<Longrightarrow> repeats b w v' \<Longrightarrow> v = v'"
  by (rule bit_word_eqI) (simp add: repeats_def)

lemma repeats_shift:
  assumes "repeats b w v" "repeats b w' v'" "w mod 8 = 0" "w + w' \<le> 64"
  shows "repeats b (w + w') (v OR push_bit w v')"
  unfolding repeats_def
proof
  fix n
  obtain k where k: "w = 8 * k"
    using assms(3) by auto
  have eq: "(n - w) mod 8 = n mod 8" if "w \<le> n"
  proof -
    have "n = (n - w) + 8 * k" using that k by simp
    then show ?thesis by (metis mod_mult_self2)
  qed
  have v: "bit v n \<longleftrightarrow> n < w \<and> bit b (n mod 8)" "bit v' (n - w) \<longleftrightarrow> n - w < w' \<and> bit b ((n - w) mod 8)"
    using assms(1,2) by (simp_all only: repeats_def)
  show "bit (v OR push_bit w v') n \<longleftrightarrow> n < w + w' \<and> bit b (n mod 8)"
  proof (cases "w \<le> n")
    case True
    then show ?thesis
      using assms(4) by (simp add: bit_or_iff bit_push_bit_iff v eq) arith
  next
    case False
    then show ?thesis by (simp add: bit_or_iff bit_push_bit_iff v)
  qed
qed

lemma repeats_ucast: "repeats b 8 (ucast b)"
  unfolding repeats_def
proof
  fix n show "bit (ucast b :: u64) n \<longleftrightarrow> n < 8 \<and> bit b (n mod 8)"
    by (cases "n < 8") (auto simp: bit_ucast_iff dest: bit_imp_le_length)
qed

lemma repeats_spread64: "repeats b 64 (spread64 b)"
proof -
  have 1: "repeats b 16 (ucast b OR push_bit 8 (ucast b))"
    using repeats_shift [OF repeats_ucast [of b] repeats_ucast [of b]] by simp
  note 2 = repeats_shift [OF 1 1]
  note 3 = repeats_shift [OF 2 2]
  have "repeats b (16 + 16 + (16 + 16)) (spread64 b)"
    unfolding spread64_def Let_def using 3 by (simp del: push_bit_or)
  then show ?thesis by simp
qed

lemma byte_and_ff: "(word_of_int c :: u64) AND 0xff = ucast (word_of_int c :: u8)"
proof -
  have "(word_of_int c :: u64) AND mask 8 = ucast (word_of_int c :: u8)"
    by (rule bit_word_eqI) (auto simp: bit_and_iff bit_mask_iff bit_ucast_iff bit_word_of_int_iff)
  then show ?thesis by (simp add: mask_eq_exp_minus_1)
qed

lemma repeats_spread_byte:
  "repeats (word_of_int c) w cl \<Longrightarrow> w mod 8 = 0 \<Longrightarrow> w + 8 * i \<le> 64 \<Longrightarrow>
   repeats (word_of_int c) (w + 8 * i) (spread_byte i cl c)"
proof (induction i arbitrary: w cl)
  case (Suc i)
  have "repeats (word_of_int c) (8 + w) ((word_of_int c AND 0xff) OR push_bit 8 cl)"
    using Suc.prems by (intro repeats_shift) (simp_all add: byte_and_ff repeats_ucast)
  then have "repeats (word_of_int c) (8 + w + 8 * i)
      (spread_byte i ((word_of_int c AND 0xff) OR push_bit 8 cl) c)"
    using Suc.prems by (intro Suc.IH) auto
  then show ?case by (simp add: or.commute add.assoc add.left_commute)
qed simp

lemma spread_byte_8: "spread_byte 8 0 c = spread64 (word_of_int c)"
proof -
  have "repeats (word_of_int c) 0 0" by (simp add: repeats_def)
  from repeats_spread_byte [OF this, of 8] show ?thesis
    using repeats_unique [OF _ repeats_spread64] by simp
qed

lemma ucast_drop_spread64:
  assumes "k < 8" shows "ucast (drop_bit (8 * k) (spread64 b)) = b"
proof (rule bit_word_eqI)
  fix n assume n: "n < LENGTH(8)"
  have "bit (spread64 b) (8 * k + n) \<longleftrightarrow> bit b ((8 * k + n) mod 8)"
    using repeats_spread64 [of b] assms n by (simp add: repeats_def)
  then show "bit (ucast (drop_bit (8 * k) (spread64 b)) :: u8) n \<longleftrightarrow> bit b n"
    using n by (simp add: bit_ucast_iff bit_drop_bit_eq)
qed

lemma put_word_spread: "put_word m a (spread64 b) = fill m a b 8"
  by (auto simp: put_word_def fill_def fun_eq_iff ucast_drop_spread64)

lemma fill_fill: "fill (fill m s b n) (s + n) b k = fill m s b (n + k)"
  by (auto simp: fill_def fun_eq_iff)

lemma memset_words_eq:
  "memset_words m s (spread64 b) n = (fill m s b (8 * (n div 8)), s + 8 * (n div 8), n mod 8)"
proof (induction n arbitrary: m s rule: less_induct)
  case (less n)
  show ?case
  proof (cases "8 \<le> n")
    case True
    have d: "n div 8 = Suc ((n - 8) div 8)" "(n - 8) mod 8 = n mod 8"
      using True by (simp_all add: le_div_geq le_mod_geq)
    have "memset_words (put_word m s (spread64 b)) (s + 8) (spread64 b) (n - 8) =
      (fill m s b (8 * (n div 8)), s + 8 * (n div 8), n mod 8)"
      unfolding d(1)
      using less.IH [of "n - 8" "put_word m s (spread64 b)" "s + 8"] True
        fill_fill [of m s b 8 "8 * ((n - 8) div 8)"] by (simp add: put_word_spread d)
    then show ?thesis using True by (subst memset_words.simps) simp
  next
    case False
    then show ?thesis by (subst memset_words.simps) (auto simp: fill_def fun_eq_iff)
  qed
qed

lemma memset_eq_fill: "memset m s c n = fill m s (word_of_int c) n"
  using fill_fill [of m s "word_of_int c" "8 * (n div 8)" "n mod 8"]
  by (simp add: memset_def spread_byte_8 memset_words_eq memset_bytes_eq)


text \<open>A word load followed by a word store moves eight bytes.\<close>

lemma bit_byte_at:
  assumes "j < 8"
  shows "bit (push_bit (8 * i) (ucast (b :: u8)) :: u64) (8 * k + j) \<longleftrightarrow> k < 8 \<and> i = k \<and> bit b j"
proof -
  have ub: "bit (ucast (b :: u8) :: u64) n \<longleftrightarrow> n < 8 \<and> bit b n" for n
    by (auto simp: bit_ucast_iff dest: bit_imp_le_length)
  have "8 * i \<le> 8 * k + j \<and> 8 * k + j - 8 * i < 8 \<longleftrightarrow> i = k"
    using assms by (auto dest: le_neq_implies_less)
  then show ?thesis
    using assms by (simp add: bit_push_bit_iff ub) fastforce
qed

lemma bit_get_word:
  assumes "k < 8" "j < 8"
  shows "bit (get_word m a) (8 * k + j) \<longleftrightarrow> bit (m (a + k)) j"
proof -
  note b = bit_byte_at [OF assms(2), of _ _ k]
  have "get_word m a = push_bit (8 * 0) (ucast (m (a + 0))) OR push_bit (8 * 1) (ucast (m (a + 1)))
    OR push_bit (8 * 2) (ucast (m (a + 2))) OR push_bit (8 * 3) (ucast (m (a + 3)))
    OR push_bit (8 * 4) (ucast (m (a + 4))) OR push_bit (8 * 5) (ucast (m (a + 5)))
    OR push_bit (8 * 6) (ucast (m (a + 6))) OR push_bit (8 * 7) (ucast (m (a + 7)))"
    by (simp add: get_word_def)
  then have eq: "bit (get_word m a) (8 * k + j) \<longleftrightarrow> (\<exists>i\<in>set [0, 1, 2, 3, 4, 5, 6, 7].
      i = k \<and> bit (m (a + i)) j)"
    using assms(1) by (simp only: bit_or_iff b list.set bex_simps simp_thms)
  have "k = 0 \<or> k = 1 \<or> k = 2 \<or> k = 3 \<or> k = 4 \<or> k = 5 \<or> k = 6 \<or> k = 7"
    using assms(1) by linarith
  then show ?thesis
    unfolding eq by (elim disjE) simp_all
qed

lemma put_get_word: "put_word m d (get_word m s) = copy m d s 8"
proof
  fix x
  have "ucast (drop_bit (8 * k) (get_word m s)) = m (s + k)" if k: "k < 8" for k
  proof (rule bit_word_eqI)
    fix n assume n: "n < LENGTH(8)"
    have "bit (get_word m s) (8 * k + n) \<longleftrightarrow> bit (m (s + k)) n"
      using k n by (intro bit_get_word) simp_all
    then show "bit (ucast (drop_bit (8 * k) (get_word m s)) :: u8) n \<longleftrightarrow> bit (m (s + k)) n"
      using n by (simp add: bit_ucast_iff bit_drop_bit_eq)
  qed
  then show "put_word m d (get_word m s) x = copy m d s 8 x"
    by (auto simp: put_word_def copy_def)
qed

text \<open>Forward copying is right whenever the destination does not lie inside the source.\<close>

definition forward_ok :: "nat \<Rightarrow> nat \<Rightarrow> nat \<Rightarrow> bool" where
  "forward_ok d s n \<longleftrightarrow> d \<le> s \<or> s + n \<le> d"

lemma copy_copy:
  assumes "forward_ok d s (n + k)"
  shows "copy (copy m d s n) (d + n) (s + n) k = copy m d s (n + k)"
proof
  fix x
  show "copy (copy m d s n) (d + n) (s + n) k x = copy m d s (n + k) x"
    using assms unfolding copy_def forward_ok_def by (auto simp: add.assoc)
qed

lemma memcpy_bytes_eq: "forward_ok d s n \<Longrightarrow> memcpy_bytes m d s n = copy m d s n"
proof (induction n arbitrary: m d s)
  case 0
  then show ?case by (auto simp: copy_def fun_eq_iff)
next
  case (Suc n)
  have "m(d := m s) = copy m d s 1" by (auto simp: copy_def fun_eq_iff)
  moreover have "forward_ok (Suc d) (Suc s) n" using Suc.prems by (auto simp: forward_ok_def)
  ultimately show ?case
    using Suc.IH [of "Suc d" "Suc s" "copy m d s 1"] Suc.prems copy_copy [of d s 1 n m] by simp
qed

lemma memcpy_words_eq:
  assumes "forward_ok d s n"
  shows "memcpy_words m d s n =
    (copy m d s (8 * (n div 8)), d + 8 * (n div 8), s + 8 * (n div 8), n mod 8)"
  using assms
proof (induction n arbitrary: m d s rule: less_induct)
  case (less n)
  show ?case
  proof (cases "8 \<le> n")
    case True
    let ?k = "8 * ((n - 8) div 8)"
    have d: "n div 8 = Suc ((n - 8) div 8)" "(n - 8) mod 8 = n mod 8"
      using True by (simp_all add: le_div_geq le_mod_geq)
    have f: "forward_ok (d + 8) (s + 8) (n - 8)" "forward_ok d s (8 + ?k)"
      using less.prems True by (auto simp: forward_ok_def)
    have "memcpy_words (copy m d s 8) (d + 8) (s + 8) (n - 8) =
      (copy m d s (8 + ?k), d + 8 + ?k, s + 8 + ?k, n mod 8)"
      using less.IH [OF _ f(1), of "copy m d s 8"] True copy_copy [OF f(2), of m] d(2) by simp
    then show ?thesis using True by (subst memcpy_words.simps) (simp add: put_get_word d(1))
  next
    case False
    then show ?thesis by (subst memcpy_words.simps) (auto simp: copy_def fun_eq_iff)
  qed
qed

lemma memcpy_eq_copy:
  assumes "forward_ok d s n" shows "memcpy m d s n = copy m d s n"
proof -
  have f: "forward_ok (d + 8 * (n div 8)) (s + 8 * (n div 8)) (n mod 8)"
    using assms by (auto simp: forward_ok_def)
  have "forward_ok d s (8 * (n div 8) + n mod 8)" using assms by simp
  from copy_copy [OF this, of m] show ?thesis
    using assms f
    by (auto simp: memcpy_def memcpy_words_eq memcpy_bytes_eq) (auto simp: copy_def fun_eq_iff)
qed

lemma memmove_down_eq: "s \<le> d \<Longrightarrow> memmove_down m d s n = copy m d s n"
proof (induction n arbitrary: m)
  case 0
  then show ?case by (auto simp: copy_def fun_eq_iff)
next
  case (Suc n)
  then show ?case by (auto simp: copy_def fun_eq_iff)
qed

lemma memmove_eq_copy: "memmove m d s n = copy m d s n"
  by (auto simp: memmove_def memmove_down_eq memcpy_eq_copy forward_ok_def)

section \<open>Searching for a different byte\<close>

text \<open>Comparing a word with the repeated byte compares its eight bytes.\<close>

lemma get_word_eq_spread64:
  "get_word m a = spread64 b \<longleftrightarrow> (\<forall>k<8. m (a + k) = b)"
proof
  have s: "bit (spread64 b) (8 * k + j) \<longleftrightarrow> bit b j" if "k < 8" "j < 8" for k j
    using repeats_spread64 [of b] that by (simp add: repeats_def)
  { assume "get_word m a = spread64 b"
    then show "\<forall>k<8. m (a + k) = b"
      using bit_get_word [of _ _ m a] s by (auto intro!: bit_word_eqI) }
  assume eq: "\<forall>k<8. m (a + k) = b"
  show "get_word m a = spread64 b"
  proof (rule bit_word_eqI)
    fix n assume "n < LENGTH(64)"
    then have "n div 8 < 8" "n mod 8 < 8" "n = 8 * (n div 8) + n mod 8" by simp_all
    then show "bit (get_word m a) n \<longleftrightarrow> bit (spread64 b) n"
      using bit_get_word [of "n div 8" "n mod 8" m a] s [of "n div 8" "n mod 8"] eq by metis
  qed
qed

lemma all_less_Suc_shift: "(\<forall>i<Suc n. P i) \<longleftrightarrow> P 0 \<and> (\<forall>i<n. P (Suc i))"
  using less_Suc_eq_0_disj by auto

text \<open>\<open>check_bytes8\<close> finds the first byte that differs.\<close>

definition first_other :: "mem \<Rightarrow> nat \<Rightarrow> u8 \<Rightarrow> nat \<Rightarrow> nat option \<Rightarrow> bool" where
  "first_other m s b n r \<longleftrightarrow>
    (case r of
       None \<Rightarrow> \<forall>i<n. m (s + i) = b
     | Some p \<Rightarrow> \<exists>k<n. p = s + k \<and> m p \<noteq> b \<and> (\<forall>i<k. m (s + i) = b))"

lemma first_other_Suc:
  assumes "m s = b" "first_other m (Suc s) b n r"
  shows "first_other m s b (Suc n) r"
proof (cases r)
  case None
  then show ?thesis
    using assms by (simp add: first_other_def all_less_Suc_shift)
next
  case (Some p)
  then obtain k where "k < n" "p = Suc s + k" "m p \<noteq> b" "\<forall>i<k. m (Suc s + i) = b"
    using assms(2) by (auto simp: first_other_def)
  then have "Suc k < Suc n \<and> p = s + Suc k \<and> m p \<noteq> b \<and> (\<forall>i<Suc k. m (s + i) = b)"
    using assms(1) by (simp add: all_less_Suc_shift)
  then show ?thesis unfolding first_other_def Some option.case by (rule exI)
qed

lemma check_bytes8_first: "first_other m s b n (check_bytes8 m s b n)"
proof (induction n arbitrary: s)
  case (Suc n)
  show ?case
  proof (cases "m s = b")
    case True
    then show ?thesis using first_other_Suc [OF True Suc.IH] by simp
  next
    case False
    then show ?thesis by (auto simp: first_other_def)
  qed
qed (simp add: first_other_def)

lemma check_bytes8_add:
  "check_bytes8 m s b (n + k) =
    (case check_bytes8 m s b n of None \<Rightarrow> check_bytes8 m (s + n) b k | Some p \<Rightarrow> Some p)"
  by (induction n arbitrary: s) (simp_all split: option.split)

lemma check_bytes8_None: "check_bytes8 m s b n = None \<longleftrightarrow> (\<forall>i<n. m (s + i) = b)"
  using check_bytes8_first [of m s b n] by (cases "check_bytes8 m s b n") (auto simp: first_other_def)

lemma memchr_inv_words_eq:
  "memchr_inv_words m s b (spread64 b) w r = check_bytes8 m s b (8 * w + r)"
proof (induction w arbitrary: s)
  case (Suc w)
  have "check_bytes8 m s b (8 * Suc w + r) =
    (case check_bytes8 m s b 8 of None \<Rightarrow> check_bytes8 m (s + 8) b (8 * w + r) | Some p \<Rightarrow> Some p)"
    using check_bytes8_add [of m s b 8 "8 * w + r"] by (simp add: add.assoc)
  then show ?case
    using Suc.IH [of "s + 8"] get_word_eq_spread64 [of m s b] check_bytes8_None [of m s b 8]
    by (cases "check_bytes8 m s b 8") auto
qed simp

lemma trunc32_id: "n < 2 ^ 32 \<Longrightarrow> trunc32 n = n"
  by (simp add: trunc32_def unat_of_nat take_bit_nat_eq_self)

lemma memchr_inv_eq:
  assumes "n < 2 ^ 35"
  shows "memchr_inv m s c n = check_bytes8 m s (word_of_int c) n"
proof -
  have t: "trunc32 (k div 8) = k div 8" if "k \<le> n" for k
    using assms that by (intro trunc32_id) simp
  have split: "check_bytes8 m s b n =
     (case check_bytes8 m s b k of None \<Rightarrow> check_bytes8 m (s + k) b (n - k) | Some p \<Rightarrow> Some p)"
    if "k \<le> n" for b k
    using check_bytes8_add [of m s b k "n - k"] that by simp
  show ?thesis
    using split [of "8 - s mod 8" "word_of_int c"]
    by (auto simp: memchr_inv_def Let_def t memchr_inv_words_eq split: option.split)
qed

section \<open>C strings\<close>

fun cstr :: "mem \<Rightarrow> nat \<Rightarrow> u8 list \<Rightarrow> bool" where
  "cstr m s [] \<longleftrightarrow> m s = 0"
| "cstr m s (x # xs) \<longleftrightarrow> m s = x \<and> x \<noteq> 0 \<and> cstr m (Suc s) xs"

lemma cstr_iff:
  "cstr m s xs \<longleftrightarrow> (\<forall>i<length xs. m (s + i) = xs ! i) \<and> 0 \<notin> set xs \<and> m (s + length xs) = 0"
proof (induction xs arbitrary: s)
  case (Cons x xs)
  have "(\<forall>i<length (x # xs). m (s + i) = (x # xs) ! i) \<longleftrightarrow>
    m s = x \<and> (\<forall>i<length xs. m (Suc s + i) = xs ! i)"
    by (auto simp: less_Suc_eq_0_disj)
  then show ?case using Cons.IH [of "Suc s"] by auto
qed simp

lemma strend_cstr: "cstr m s xs \<Longrightarrow> strend m s = Some (s + length xs)"
  by (induction xs arbitrary: s) (subst strend.simps; simp)+

lemma strlen_cstr: "cstr m s xs \<Longrightarrow> strlen m s = Some (length xs)"
  by (simp add: strlen_def strend_cstr)

text \<open>The order of strings that \<open>strcmp\<close> decides: by the first byte that differs.\<close>

fun str_diff :: "u8 list \<Rightarrow> u8 list \<Rightarrow> int" where
  "str_diff [] [] = 0"
| "str_diff [] (y # ys) = - int (unat y)"
| "str_diff (x # xs) [] = int (unat x)"
| "str_diff (x # xs) (y # ys) = (if x = y then str_diff xs ys else int (unat x) - int (unat y))"

lemma strcmp_cstr: "cstr m s xs \<Longrightarrow> cstr m t ys \<Longrightarrow> strcmp m s t = Some (str_diff xs ys)"
proof (induction xs ys arbitrary: s t rule: str_diff.induct)
  case (4 x xs y ys)
  then show ?case
    by (subst strcmp.simps) (auto simp: Let_def word_uint_eq_iff)
next
  case (2 y ys)
  then show ?case by (subst strcmp.simps) (auto simp: unat_eq_zero uint_0_iff)
next
  case (3 x xs)
  then show ?case by (subst strcmp.simps) (auto simp: unat_eq_zero uint_0_iff)
qed (subst strcmp.simps; simp)

lemma str_diff_0: "0 \<notin> set xs \<Longrightarrow> 0 \<notin> set ys \<Longrightarrow> str_diff xs ys = 0 \<longleftrightarrow> xs = ys"
  by (induction xs ys rule: str_diff.induct) (auto simp: unat_eq_zero word_uint_eq_iff)

lemma sized_strscpy_loop_cstr:
  assumes "cstr m s xs" "d + c \<le> s \<or> s + length xs < d"
  shows "i + left < c \<Longrightarrow> i \<le> length xs \<Longrightarrow>
    sized_strscpy_loop (copy m d s i) d s i left =
      (if length xs < i + left then (copy m d s (Suc (length xs)), Some (length xs), length xs)
       else (copy m d s (i + left), None, i + left))"
proof (induction left arbitrary: i)
  case (Suc left)
  have src: "copy m d s i (s + i) = m (s + i)"
    using assms(2) Suc.prems by (auto simp: copy_def)
  have grow: "(copy m d s i)(d + i := m (s + i)) = copy m d s (Suc i)"
    by (auto simp: copy_def fun_eq_iff)
  show ?case
  proof (cases "i = length xs")
    case True
    then have "m (s + i) = 0" using assms(1) by (simp add: cstr_iff)
    then show ?thesis using src grow True by simp
  next
    case False
    then have "i < length xs" using Suc.prems by simp
    moreover from this have "m (s + i) = xs ! i" "xs ! i \<in> set xs"
      using assms(1) by (simp_all add: cstr_iff)
    then have "m (s + i) \<noteq> 0" using assms(1) by (auto simp: cstr_iff)
    ultimately show ?thesis
      using Suc.IH [of "Suc i"] Suc.prems by (simp add: src grow)
  qed
qed simp

lemma copy_0 [simp]: "copy m d s 0 = m"
  by (auto simp: copy_def fun_eq_iff)

lemma sized_strscpy_cstr:
  assumes "cstr m s xs" "d + c \<le> s \<or> s + length xs < d" "0 < c"
  shows "sized_strscpy m d s c =
    (if length xs < c then (copy m d s (Suc (length xs)), int (length xs))
     else ((copy m d s (c - 1))(d + (c - 1) := 0), - E2BIG))"
proof -
  have loop: "sized_strscpy_loop m d s 0 (c - 1) =
      (if length xs < c - 1 then (copy m d s (Suc (length xs)), Some (length xs), length xs)
       else (copy m d s (c - 1), None, c - 1))"
    using sized_strscpy_loop_cstr [OF assms(1,2), of 0 "c - 1"] assms(3) by simp
  have nul: "m (s + length xs) = 0" using assms(1) by (simp add: cstr_iff)
  consider "length xs < c - 1" | "length xs = c - 1" | "c - 1 < length xs" by linarith
  then show ?thesis
  proof cases
    case 1
    then show ?thesis using loop assms(3) by (simp add: sized_strscpy_def)
  next
    case 2
    have "(copy m d s (c - 1))(d + (c - 1) := 0) = copy m d s (Suc (length xs))"
      using 2 nul by (auto simp: copy_def fun_eq_iff)
    moreover have "copy m d s (c - 1) (s + (c - 1)) = 0"
      using 2 nul assms(2,3) by (auto simp: copy_def)
    ultimately show ?thesis using loop 2 assms(3) by (simp add: sized_strscpy_def Let_def)
  next
    case 3
    have "m (s + (c - 1)) \<noteq> 0"
      using 3 assms(1) by (metis cstr_iff nth_mem)
    moreover have "(copy m d s (c - 1)) (s + (c - 1)) = m (s + (c - 1))" "s \<noteq> d" "\<not> length xs < c"
      using 3 assms(2,3) by (auto simp: copy_def)
    ultimately show ?thesis using loop 3 assms(3) by (simp add: sized_strscpy_def Let_def)
  qed
qed

lemma cstr_copy:
  assumes "cstr m s xs" "n \<le> length xs"
  shows "cstr ((copy m d s n)(d + n := 0)) d (take n xs)"
  using assms by (auto simp: cstr_iff copy_def dest: in_set_takeD)

section \<open>Substring search\<close>

lemma memcmp_0: "memcmp m s t n = 0 \<longleftrightarrow> (\<forall>i<n. m (s + i) = m (t + i))"
  by (induction n arbitrary: s t) (auto simp: all_less_Suc_shift Let_def word_uint_eq_iff)

lemma strnlen_cstr: "cstr m s xs \<Longrightarrow> strnlen m s n = min n (length xs)"
proof -
  have "cstr m s xs \<Longrightarrow> strnlen_loop m s n = s + min n (length xs)" for s
  proof (induction n arbitrary: s xs)
    case (Suc n)
    then show ?case by (cases xs) auto
  qed simp
  then show "cstr m s xs \<Longrightarrow> strnlen m s n = min n (length xs)" by (simp add: strnlen_def)
qed

definition occurs_at :: "u8 list \<Rightarrow> u8 list \<Rightarrow> nat \<Rightarrow> bool" where
  "occurs_at xs ys k \<longleftrightarrow> k + length ys \<le> length xs \<and> take (length ys) (drop k xs) = ys"

lemma strnstr_loop_cstr:
  assumes "cstr m s xs" "cstr m t ys"
  shows "k \<le> length xs \<Longrightarrow>
    strnstr_loop m (s + k) t (length xs - k) (length ys) =
      (if \<exists>j\<ge>k. occurs_at xs ys j then Some (s + (LEAST j. k \<le> j \<and> occurs_at xs ys j)) else None)"
proof (induction "length xs - k" arbitrary: k rule: less_induct)
  case less
  have occ: "occurs_at xs ys k \<longleftrightarrow> length ys \<le> length xs - k \<and> memcmp m (s + k) t (length ys) = 0"
    if "k \<le> length xs"
    using assms that unfolding memcmp_0 occurs_at_def cstr_iff list_eq_iff_nth_eq
    by (auto simp: add.assoc)
  show ?case
  proof (cases "occurs_at xs ys k")
    case True
    then have "(LEAST j. k \<le> j \<and> occurs_at xs ys j) = k" by (intro Least_equality) auto
    then show ?thesis using True occ [OF less.prems] by (subst strnstr_loop.simps) auto
  next
    case False
    have shift: "k \<le> j \<and> occurs_at xs ys j \<longleftrightarrow> Suc k \<le> j \<and> occurs_at xs ys j" for j
      using False by (cases "j = k") auto
    show ?thesis
    proof (cases "length ys \<le> length xs - k \<and> length xs - k \<noteq> 0")
      case True
      then have "length xs - Suc k < length xs - k" by linarith
      then show ?thesis
        using True less.hyps [of "Suc k"] False occ [OF less.prems] unfolding shift
        by (subst strnstr_loop.simps) simp
    next
      case False': False
      have "\<not> occurs_at xs ys j" if "k \<le> j" for j
        using False False' that less.prems by (cases "j = k") (auto simp: occurs_at_def)
      then show ?thesis using False' occ [OF less.prems] False by (subst strnstr_loop.simps) auto
    qed
  qed
qed

section \<open>Numbers\<close>

lemma nth_segment:
  "0 < l \<Longrightarrow> (replicate l a @ ys) ! (n - k) = (if n < k + l then a else ys ! (n - (k + l)))"
  "([a] @ ys) ! (n - k) = (if n < k + 1 then a else ys ! (n - (k + 1)))"
  by (auto simp: nth_append)

lemma ctype_segments:
  assumes "n < 256"
  shows "ctype_table ! n =
    (if n < 9 then CT_C else if n < 14 then CT_C OR CT_S else if n < 32 then CT_C
     else if n < 33 then CT_S OR CT_SP else if n < 48 then CT_P else if n < 58 then CT_D
     else if n < 65 then CT_P else if n < 71 then CT_U OR CT_X else if n < 91 then CT_U
     else if n < 97 then CT_P else if n < 103 then CT_L OR CT_X else if n < 123 then CT_L
     else if n < 127 then CT_P else if n < 128 then CT_C else if n < 160 then 0
     else if n < 161 then CT_S OR CT_SP else if n < 192 then CT_P else if n < 215 then CT_U
     else if n < 216 then CT_P else if n < 223 then CT_U else if n < 224 then CT_L
     else if n < 247 then CT_L else if n < 248 then CT_P else CT_L)"
proof -
  have "replicate 8 CT_L ! (n - 248) = CT_L" using assms by simp
  moreover have "ctype_table ! n = ctype_table ! (n - 0)" by simp
  ultimately show ?thesis
    by (simp only: ctype_table_def nth_segment arith_simps zero_less_numeral add_0 numeral_plus_one semiring_norm)
qed

lemma unat_byte: "unat (c :: u8) < 256"
  using unsigned_less [of c] by simp

lemmas ctype_byte = ctype_segments [OF unat_byte]

lemma isdigit_range: "isdigit c \<longleftrightarrow> 48 \<le> unat c \<and> unat c \<le> 57"
  using ctype_byte [of c] by (simp add: isdigit_def ismask_def)

lemma isxdigit_range: "isxdigit c \<longleftrightarrow> 48 \<le> unat c \<and> unat c \<le> 57 \<or> 65 \<le> unat c \<and> unat c \<le> 70
    \<or> 97 \<le> unat c \<and> unat c \<le> 102"
  using ctype_byte [of c] by (simp add: isxdigit_def ismask_def)

text \<open>The value of a digit string in a base, most significant digit first.\<close>

definition digits_val :: "nat \<Rightarrow> nat list \<Rightarrow> nat" where
  "digits_val base ds = foldl (\<lambda>v d. v * base + d) 0 ds"

definition digit_of :: "u8 \<Rightarrow> nat" where
  "digit_of c = unat (decode_digit c)"

text \<open>The prefix that \<open>parse_integer_fixup_radix\<close> skips and the base it selects.\<close>

definition radix_of :: "u8 list \<Rightarrow> u32 \<Rightarrow> nat \<times> u32" where
  "radix_of xs base =
    (case xs of
       x # y # _ \<Rightarrow> if x = 48 \<and> tolower y = 120 then (2, 16)
                   else if base = 0 then (0, if x = 48 then 8 else 10) else (0, base)
     | [x] \<Rightarrow> if base = 0 then (0, if x = 48 then 8 else 10) else (0, base)
     | [] \<Rightarrow> if base = 0 then (0, 10) else (0, base))"

lemma decode_digit_nul: "decode_digit 0 = 256"
  using isxdigit_range [of 0] by (simp add: decode_digit_def)

lemma strtoul_loop_cstr:
  "cstr m s xs \<Longrightarrow> base \<le> 256 \<Longrightarrow>
   strtoul_loop m s base (word_of_nat v) =
     (let ds = takeWhile (\<lambda>c. decode_digit c < base) xs in
      Some (word_of_nat (foldl (\<lambda>v d. v * unat base + d) v (map digit_of ds)), s + length ds))"
proof (induction xs arbitrary: s v)
  case Nil
  then have "\<not> 256 < base" by (simp add: not_less)
  then show ?case using Nil by (subst strtoul_loop.simps) (simp add: decode_digit_nul)
next
  case (Cons x xs)
  have step: "word_of_nat v * ucast base + ucast (decode_digit x) =
      (word_of_nat (v * unat base + digit_of x) :: u64)"
    by (simp add: digit_of_def)
  show ?case
    using Cons.prems Cons.IH [of "Suc s" "v * unat base + digit_of x"]
    by (subst strtoul_loop.simps) (simp add: step Let_def)
qed

lemma tolower_nul: "tolower 0 = 0"
  using ctype_byte [of 0] by (simp add: tolower_def isupper_def ismask_def)

lemma fixup_radix_cstr:
  "cstr m s xs \<Longrightarrow> parse_integer_fixup_radix m s base = (s + fst (radix_of xs base), snd (radix_of xs base))"
  by (cases xs rule: remdups_adj.cases)
    (auto simp: parse_integer_fixup_radix_def radix_of_def tolower_nul)

lemma cstr_drop: "cstr m s xs \<Longrightarrow> k \<le> length xs \<Longrightarrow> cstr m (s + k) (drop k xs)"
proof (induction xs arbitrary: s k)
  case (Cons x xs)
  then show ?case by (cases k) (use Cons.IH [of "Suc s"] in auto)
qed simp

lemma radix_of_bounds:
  assumes "base \<le> 256"
  shows "fst (radix_of xs base) \<le> length xs" "snd (radix_of xs base) \<le> 256"
  using assms by (auto simp: radix_of_def split: list.split)

lemma simple_strtoul_cstr:
  assumes "cstr m s xs" "base \<le> 256" "radix_of xs base = (k, b)"
    "ds = takeWhile (\<lambda>c. decode_digit c < b) (drop k xs)"
  shows "simple_strtoul m s base = Some (word_of_nat (digits_val (unat b) (map digit_of ds)), s + k + length ds)"
proof -
  have "k \<le> length xs" "b \<le> 256"
    using radix_of_bounds [of base xs] assms(2,3) by simp_all
  then show ?thesis
    using strtoul_loop_cstr [OF cstr_drop [OF assms(1)], of k b 0] assms(3,4)
    by (simp add: simple_strtoul_def fixup_radix_cstr [OF assms(1)] digits_val_def Let_def)
qed

end
