(* ===== verification/Quest_Printk.thy ===== *)
theory Quest_Printk
  imports Quest_Strto
begin

text \<open>
  The console formatter and log of \<open>src/kernel/printk.c\<close>. The bytes written through
  \<open>*pos++\<close> are the list a routine returns, in order; the format is the byte list of its C
  string, so that \<open>*fmt\<close> at its end is the NUL byte. The variable arguments are the list of
  64-bit values that \<open>va_arg\<close> takes one by one. \<open>Undef\<close> is a run that leaves the defined
  behaviour of C: a write through the NULL pointer returned by \<open>number\<close>, a write past a
  buffer, a missing argument, or a string argument without terminator.
\<close>

unbundle bit_operations_syntax

section \<open>Numbers\<close>

abbreviation ZEROPAD :: u32 where "ZEROPAD \<equiv> 1"
abbreviation SIGN :: u32 where "SIGN \<equiv> 2"
abbreviation PLUS :: u32 where "PLUS \<equiv> 4"
abbreviation SPACE :: u32 where "SPACE \<equiv> 8"
abbreviation LEFT :: u32 where "LEFT \<equiv> 16"
abbreviation SPECIAL :: u32 where "SPECIAL \<equiv> 32"
abbreviation SMALL :: u32 where "SMALL \<equiv> 64"

definition is_digit :: "u8 \<Rightarrow> bool" where
  "is_digit c \<longleftrightarrow> 48 \<le> c \<and> c \<le> 57"

definition chr_at :: "u8 list \<Rightarrow> u8" where
  "chr_at fmt = (case fmt of [] \<Rightarrow> 0 | c # _ \<Rightarrow> c)"

fun scan_number :: "u8 list \<Rightarrow> int \<Rightarrow> int \<times> u8 list" where
  "scan_number [] tmp = (tmp, [])"
| "scan_number (c # cs) tmp =
    (if is_digit c then scan_number cs (tmp * 10 + (int (unat c) - 48)) else (tmp, c # cs))"

text \<open>The loop \<open>while (bound < w--) *str++ = c\<close> and the final value of \<open>w\<close>.\<close>

function pad_post :: "u8 \<Rightarrow> int \<Rightarrow> int \<Rightarrow> u8 list \<times> int" where
  "pad_post c bound w =
    (if bound < w then (case pad_post c bound (w - 1) of (out, w') \<Rightarrow> (c # out, w')) else ([], w - 1))"
  by pat_completeness auto
termination by (relation "measure (\<lambda>(c, bound, w). nat (w - bound))") auto

declare pad_post.simps [simp del]

text \<open>The loop \<open>while (--w > 0) *str++ = c\<close>.\<close>

function pad_pre :: "u8 \<Rightarrow> int \<Rightarrow> u8 list \<times> int" where
  "pad_pre c w =
    (if w - 1 > 0 then (case pad_pre c (w - 1) of (out, w') \<Rightarrow> (c # out, w')) else ([], w - 1))"
  by pat_completeness auto
termination by (relation "measure (\<lambda>(c, w). nat w)") auto

declare pad_pre.simps [simp del]

definition digit_char :: "bool \<Rightarrow> nat \<Rightarrow> u8" where
  "digit_char small d =
    (if d < 10 then 48 + word_of_nat d else (if small then 97 else 65) + word_of_nat (d - 10))"

text \<open>The \<open>do_div\<close> loop: the digits in the order of \<open>tmp\<close>, least significant first.\<close>

function number_tmp :: "bool \<Rightarrow> nat \<Rightarrow> nat \<Rightarrow> u8 list" where
  "number_tmp small base num =
    (if num = 0 \<or> base < 2 then []
     else digit_char small (num mod base) # number_tmp small base (num div base))"
  by pat_completeness auto
termination
  by (relation "measure (\<lambda>(small, base, num). num)") (auto intro: div_less_dividend)

declare number_tmp.simps [simp del]

definition number_sign :: "u64 \<Rightarrow> int \<Rightarrow> u32 \<Rightarrow> u8 \<times> u64 \<times> int" where
  "number_sign num size' type =
    (if type AND SIGN \<noteq> 0 then
       (if sint num < 0 then (45, - num, size')
        else if type AND PLUS \<noteq> 0 then (43, num, size' - 1)
        else if type AND SPACE \<noteq> 0 then (32, num, size' - 1)
        else (0, num, size'))
     else (0, num, size'))"

definition number :: "u64 \<Rightarrow> int \<Rightarrow> int \<Rightarrow> int \<Rightarrow> u32 \<Rightarrow> u8 list option" where
  "number num base size0 precision0 type0 =
    (let small = type0 AND SMALL \<noteq> 0;
         type = (if type0 AND LEFT \<noteq> 0 then type0 AND NOT ZEROPAD else type0) in
     if base < 2 \<or> base > 36 then None
     else
       let c = (if type AND ZEROPAD \<noteq> 0 then 48 else 32 :: u8);
           (sign, num', size1) = number_sign num size0 type;
           size2 = (if type AND SPECIAL \<noteq> 0 then
                      (if base = 16 then size1 - 2 else if base = 8 then size1 - 1 else size1)
                    else size1);
           tmp = (if num' = 0 then [48] else number_tmp small (nat base) (unat num'));
           i = int (length tmp);
           precision = (if i > precision0 then i else precision0);
           size3 = size2 - precision;
           (pad1, size4) = (if type AND (ZEROPAD + LEFT) = 0 then pad_post 32 0 size3 else ([], size3));
           signs = (if sign \<noteq> 0 then [sign] else []);
           prefix = (if type AND SPECIAL \<noteq> 0 then
                       (if base = 8 then [48]
                        else if base = 16 then [48, if small then 120 else 88] else [])
                     else []);
           (pad2, size5) = (if type AND LEFT = 0 then pad_post c 0 size4 else ([], size4));
           zeros = fst (pad_post 48 i precision);
           pad3 = fst (pad_post 32 0 size5)
       in Some (pad1 @ signs @ prefix @ pad2 @ zeros @ rev tmp @ pad3))"

section \<open>The formatter\<close>

datatype 'a cres = Done 'a | Undef

definition cbind :: "'a cres \<Rightarrow> ('a \<Rightarrow> 'b cres) \<Rightarrow> 'b cres" where
  "cbind r f = (case r of Done x \<Rightarrow> f x | Undef \<Rightarrow> Undef)"

lemma cbind_simps [simp]: "cbind (Done x) f = f x" "cbind Undef f = Undef"
  by (simp_all add: cbind_def)

definition va_arg :: "u64 list \<Rightarrow> (u64 \<times> u64 list) cres" where
  "va_arg args = (case args of [] \<Rightarrow> Undef | a # as \<Rightarrow> Done (a, as))"

text \<open>The \<open>repeat\<close> label: the flags after the percent sign.\<close>

fun scan_flags :: "u8 list \<Rightarrow> u32 \<Rightarrow> u32 \<times> u8 list" where
  "scan_flags [] flags = (flags, [])"
| "scan_flags (c # cs) flags =
    (if c = 45 then scan_flags cs (flags OR LEFT)
     else if c = 43 then scan_flags cs (flags OR PLUS)
     else if c = 32 then scan_flags cs (flags OR SPACE)
     else if c = 35 then scan_flags cs (flags OR SPECIAL)
     else if c = 48 then scan_flags cs (flags OR ZEROPAD)
     else (flags, c # cs))"

text \<open>An \<open>int\<close> read by \<open>va_arg\<close>: the low 32 bits, signed.\<close>

abbreviation int_arg :: "u64 \<Rightarrow> int" where
  "int_arg a \<equiv> sint (ucast a :: u32)"

definition scan_width ::
  "u8 list \<Rightarrow> u64 list \<Rightarrow> u32 \<Rightarrow> (int \<times> u32 \<times> u8 list \<times> u64 list) cres" where
  "scan_width fmt args flags =
    (if is_digit (chr_at fmt) then
       (case scan_number fmt 0 of (w, fmt') \<Rightarrow> Done (w, flags, fmt', args))
     else if chr_at fmt = 42 then
       cbind (va_arg args) (\<lambda>(a, args').
         if int_arg a < 0 then Done (- int_arg a, flags OR LEFT, fmt, args')
         else Done (int_arg a, flags, fmt, args'))
     else Done (- 1, flags, fmt, args))"

definition scan_precision :: "u8 list \<Rightarrow> u64 list \<Rightarrow> (int \<times> u8 list \<times> u64 list) cres" where
  "scan_precision fmt args =
    (if chr_at fmt = 46 then
       (let fmt1 = tl fmt in
        cbind
          (if is_digit (chr_at fmt1) then
             (case scan_number fmt1 0 of (p, fmt2) \<Rightarrow> Done (p, fmt2, args))
           else if chr_at fmt1 = 42 then
             cbind (va_arg args) (\<lambda>(a, args'). Done (int_arg a, fmt1, args'))
           else Done (- 1, fmt1, args))
          (\<lambda>(p, fmt2, args'). Done (if p < 0 then 0 else p, fmt2, args')))
     else Done (- 1, fmt, args))"

text \<open>The qualifier; 0 stands for the code's \<open>-1\<close>.\<close>

definition scan_qualifier :: "u8 list \<Rightarrow> u8 \<times> u8 list" where
  "scan_qualifier fmt =
    (if chr_at fmt = 104 \<or> chr_at fmt = 108 \<or> chr_at fmt = 76 then
       (if chr_at fmt = 108 \<and> chr_at (tl fmt) = 108 then (76, tl (tl fmt))
        else (chr_at fmt, tl fmt))
     else (0, fmt))"

definition fetch_num :: "u8 \<Rightarrow> u32 \<Rightarrow> u64 \<Rightarrow> u64" where
  "fetch_num qualifier flags a =
    (if qualifier = 76 \<or> qualifier = 108 then a
     else if qualifier = 104 then
       (if flags AND SIGN \<noteq> 0 then word_of_int (sint (ucast a :: u16)) else ucast (ucast a :: u16))
     else
       (if flags AND SIGN \<noteq> 0 then word_of_int (int_arg a) else ucast (ucast a :: u32)))"

definition NULL_text :: "u8 list" where
  "NULL_text = [60, 78, 85, 76, 76, 62]"

definition format_char :: "u32 \<Rightarrow> int \<Rightarrow> u64 \<Rightarrow> u8 list" where
  "format_char flags w a =
    (case (if flags AND LEFT = 0 then pad_pre 32 w else ([], w)) of
       (pad1, w1) \<Rightarrow> pad1 @ [ucast a] @ fst (pad_pre 32 w1))"

definition format_str :: "u32 \<Rightarrow> int \<Rightarrow> int \<Rightarrow> u8 list \<Rightarrow> u8 list" where
  "format_str flags w precision s =
    (let len = (if precision \<ge> 0 \<and> int (length s) > precision then precision else int (length s)) in
     case (if flags AND LEFT = 0 then pad_post 32 len w else ([], w)) of
       (pad1, w1) \<Rightarrow> pad1 @ take (nat len) s @ fst (pad_post 32 len w1))"

definition string_arg :: "mem \<Rightarrow> u64 \<Rightarrow> u8 list cres" where
  "string_arg m a =
    (if a = 0 then Done NULL_text
     else case strlen m (unat a) of
       None \<Rightarrow> Undef
     | Some n \<Rightarrow> Done (map m [unat a ..< unat a + n]))"

text \<open>
  One conversion, from the byte after the percent sign on. The state is the memory
  (changed only by \<open>%n\<close>), the text so far, the arguments and \<open>base\<close>, which keeps its value
  from one conversion to the next as the variable of the code does; the result also holds
  the rest of the format.
\<close>

type_synonym fmt_state = "mem \<times> u8 list \<times> u64 list \<times> int"

definition emit_num ::
  "fmt_state \<Rightarrow> u8 \<Rightarrow> u32 \<Rightarrow> int \<Rightarrow> int \<Rightarrow> u8 list \<Rightarrow> (fmt_state \<times> u8 list) cres" where
  "emit_num st qualifier flags w precision rest =
    (case st of (m, out, args, base) \<Rightarrow>
      cbind (va_arg args) (\<lambda>(a, args').
        case number (fetch_num qualifier flags a) base w precision flags of
          None \<Rightarrow> Undef
        | Some txt \<Rightarrow> Done ((m, out @ txt, args', base), rest)))"

definition convert_spec ::
  "fmt_state \<Rightarrow> u8 \<Rightarrow> u32 \<Rightarrow> int \<Rightarrow> int \<Rightarrow> u8 list \<Rightarrow> (fmt_state \<times> u8 list) cres" where
  "convert_spec st qualifier flags w precision fmt =
    (case st of (m, out, args, base) \<Rightarrow>
     let c = chr_at fmt; rest = tl fmt in
     if c = 99 then
       cbind (va_arg args) (\<lambda>(a, args'). Done ((m, out @ format_char flags w a, args', base), rest))
     else if c = 115 then
       cbind (va_arg args) (\<lambda>(a, args').
         cbind (string_arg m a) (\<lambda>s.
           Done ((m, out @ format_str flags w precision s, args', base), rest)))
     else if c = 110 then
       cbind (va_arg args) (\<lambda>(a, args').
         Done ((m(unat a := word_of_nat (length out)), out, args', base), rest))
     else if c = 112 then
       cbind (va_arg args) (\<lambda>(a, args').
         let (w', flags') = (if w = - 1 then (16, flags OR ZEROPAD) else (w, flags)) in
         case number a 16 w' precision flags' of
           None \<Rightarrow> Undef
         | Some txt \<Rightarrow> Done ((m, out @ txt, args', base), rest))
     else if c = 111 then emit_num (m, out, args, 8) qualifier flags w precision rest
     else if c = 120 then emit_num (m, out, args, 16) qualifier (flags OR SMALL) w precision rest
     else if c = 88 then emit_num (m, out, args, 16) qualifier flags w precision rest
     else if c = 100 \<or> c = 105 then emit_num (m, out, args, 10) qualifier (flags OR SIGN) w precision rest
     else if c = 117 then emit_num (m, out, args, 10) qualifier flags w precision rest
     else
       let txt = (if c \<noteq> 37 then [37] else []) @ (if c \<noteq> 0 then [c] else []) in
       emit_num (m, out @ txt, args, base) qualifier flags w precision rest)"

definition convert :: "fmt_state \<Rightarrow> u8 list \<Rightarrow> (fmt_state \<times> u8 list) cres" where
  "convert st fmt =
    (case st of (m, out, args, base) \<Rightarrow>
     case scan_flags fmt 0 of (flags, fmt1) \<Rightarrow>
       cbind (scan_width fmt1 args flags) (\<lambda>(w, flags', fmt2, args2).
       cbind (scan_precision fmt2 args2) (\<lambda>(precision, fmt3, args3).
       case scan_qualifier fmt3 of (qualifier, fmt4) \<Rightarrow>
         convert_spec (m, out, args3, base) qualifier flags' w precision fmt4)))"

lemma scan_number_length: "length (snd (scan_number fmt n)) \<le> length fmt"
  by (induction fmt n rule: scan_number.induct) auto

lemma scan_flags_length: "length (snd (scan_flags fmt f)) \<le> length fmt"
  by (induction fmt f rule: scan_flags.induct) auto

lemma cbind_Done: "cbind r f = Done y \<longleftrightarrow> (\<exists>x. r = Done x \<and> f x = Done y)"
  by (cases r) simp_all

lemma emit_num_rest: "emit_num st q f w p rest = Done (st', rest') \<Longrightarrow> rest' = rest"
  by (auto simp: emit_num_def cbind_Done split: prod.splits option.splits)

lemma convert_spec_rest: "convert_spec st q f w p fmt = Done (st', rest) \<Longrightarrow> rest = tl fmt"
  by (auto simp: convert_spec_def Let_def cbind_Done
      split: prod.splits if_splits option.splits dest!: emit_num_rest)

lemma convert_rest: "convert st fmt = Done (st', rest) \<Longrightarrow> length rest \<le> length fmt"
proof -
  assume c: "convert st fmt = Done (st', rest)"
  obtain m out args base where st: "st = (m, out, args, base)" by (cases st) auto
  obtain f fmt1 where f: "scan_flags fmt 0 = (f, fmt1)" by fastforce
  obtain w f' fmt2 args2 p fmt3 args3 where
    w: "scan_width fmt1 args f = Done (w, f', fmt2, args2)" and
    p: "scan_precision fmt2 args2 = Done (p, fmt3, args3)" and
    c': "(case scan_qualifier fmt3 of (q, fmt4) \<Rightarrow>
      convert_spec (m, out, args3, base) q f' w p fmt4) = Done (st', rest)"
    using c by (auto simp: convert_def st f cbind_Done)
  obtain q fmt4 where q: "scan_qualifier fmt3 = (q, fmt4)" by fastforce
  have s: "convert_spec (m, out, args3, base) q f' w p fmt4 = Done (st', rest)"
    using c' by (simp add: q)
  have "length fmt1 \<le> length fmt" using scan_flags_length [of fmt 0] f by simp
  moreover have "length fmt2 \<le> length fmt1"
    using w scan_number_length [of fmt1 0]
    by (auto simp: scan_width_def cbind_Done split: if_splits prod.splits)
  moreover have "length fmt3 \<le> length fmt2"
    using p scan_number_length [of "tl fmt2" 0]
    by (auto simp: scan_precision_def cbind_Done Let_def split: if_splits prod.splits)
  moreover have "length fmt4 \<le> length fmt3"
    using q by (auto simp: scan_qualifier_def split: if_splits)
  ultimately show ?thesis using convert_spec_rest [OF s] by simp
qed

function myprintf_loop :: "fmt_state \<Rightarrow> u8 list \<Rightarrow> fmt_state cres" where
  "myprintf_loop st [] = Done st"
| "myprintf_loop st (c # fmt) =
    (if c \<noteq> 37 then
       (case st of (m, out, args, base) \<Rightarrow> myprintf_loop (m, out @ [c], args, base) fmt)
     else
       (case convert st fmt of
          Undef \<Rightarrow> Undef
        | Done (st', rest) \<Rightarrow> myprintf_loop st' rest))"
  by pat_completeness auto
termination
  by (relation "measure (\<lambda>(st, fmt). length fmt)") (auto dest: convert_rest)

text \<open>
  \<open>myprintf\<close>: the memory after the call and the text, which the code ends with a NUL. The
  \<open>size\<close> argument is not used by the code; the caller's buffer must hold the text and the
  NUL.
\<close>

definition myprintf :: "mem \<Rightarrow> u8 list \<Rightarrow> u64 list \<Rightarrow> (mem \<times> u8 list) cres" where
  "myprintf m fmt args =
    cbind (myprintf_loop (m, [], args, 0) fmt) (\<lambda>(m', out, _, _). Done (m', out))"

section \<open>The log\<close>

datatype printk_status = PRINTK_STATUS_DOWN | PRINTK_STATUS_READY | PRINTK_STATUS_FORBID

definition PRINT_BUF_SIZE :: nat where "PRINT_BUF_SIZE = 1024"
definition LOG_BUF_LEN :: nat where "LOG_BUF_LEN = 131072"

text \<open>
  The state: the status, the recorded part of \<open>log_buf\<close> (the first \<open>g_record_len\<close> bytes)
  and the bytes given to \<open>putchar\<close> so far.
\<close>

record printk_state =
  g_printk_status :: printk_status
  g_record :: "u8 list"
  console :: "u8 list"

definition printk_init :: printk_state where
  "printk_init = \<lparr>g_printk_status = PRINTK_STATUS_DOWN, g_record = [], console = []\<rparr>"

definition init_printf_done :: "printk_state \<Rightarrow> printk_state" where
  "init_printf_done s =
    s\<lparr>g_printk_status := PRINTK_STATUS_READY, console := console s @ g_record s, g_record := []\<rparr>"

definition printk :: "mem \<Rightarrow> printk_state \<Rightarrow> u8 list \<Rightarrow> u64 list \<Rightarrow> (mem \<times> printk_state \<times> int) cres" where
  "printk m s fmt args =
    (if g_printk_status s = PRINTK_STATUS_FORBID then Done (m, s, 0)
     else
       cbind (myprintf m fmt args) (\<lambda>(m', txt).
         if length txt \<ge> PRINT_BUF_SIZE then Undef
         else if g_printk_status s = PRINTK_STATUS_DOWN then
           (if length (g_record s) + length txt > LOG_BUF_LEN then Undef
            else Done (m', s\<lparr>g_record := g_record s @ txt\<rparr>, int (length txt)))
         else Done (m', s\<lparr>console := console s @ txt\<rparr>, int (length txt))))"

definition printf_set_forbid :: "printk_state \<Rightarrow> printk_state" where
  "printf_set_forbid s = s\<lparr>g_printk_status := PRINTK_STATUS_FORBID\<rparr>"

definition printf_set_ready :: "printk_state \<Rightarrow> printk_state" where
  "printf_set_ready s = s\<lparr>g_printk_status := PRINTK_STATUS_READY\<rparr>"

end
