(* ===== verification/Quest_Printk_Lemmas.thy ===== *)
theory Quest_Printk_Lemmas
  imports Quest_Printk Quest_String_Lemmas
begin

text \<open>
  What \<open>number\<close> prints: the closed form of the padding loops, the digits as the list that
  the number parsers read back, and the length of the text.
\<close>

unbundle bit_operations_syntax

section \<open>Padding and digits\<close>

lemma pad_post_eq: "pad_post c b w = (replicate (nat (w - b)) c, min b w - 1)"
proof (induction c b w rule: pad_post.induct)
  case (1 c b w)
  show ?case
  proof (cases "b < w")
    case True
    then have "nat (w - b) = Suc (nat (w - 1 - b))" by simp
    then show ?thesis using 1 True by (subst pad_post.simps) simp
  qed (subst pad_post.simps; simp)
qed

lemma isupper_ascii: "unat c < 128 \<Longrightarrow> isupper c \<longleftrightarrow> 65 \<le> unat c \<and> unat c \<le> 90"
  using ctype_byte [of c] by (simp add: isupper_def ismask_def)

lemma decode_digit_char:
  assumes "d < 16" shows "decode_digit (digit_char small d) = word_of_nat d"
proof -
  have "d \<in> {..<16}" using assms by simp
  then have "d \<in> {15, 14, 13, 12, 11, 10, 9, 8, 7, 6, 5, 4, 3, 2, 1, 0}"
    by (simp only: lessThan_nat_numeral lessThan_Suc pred_numeral_simps lessThan_0 Num.arith_simps) simp
  then show ?thesis
    by (elim insertE)
      (simp_all add: digit_char_def decode_digit_def isxdigit_range tolower_def isupper_ascii)
qed

lemma digit_of_char: "d < 16 \<Longrightarrow> digit_of (digit_char small d) = d"
  by (simp add: digit_of_def decode_digit_char unat_of_nat take_bit_nat_eq_self)

lemma number_tmp_val:
  assumes "2 \<le> base" "base \<le> 16"
  shows "digits_val base (map digit_of (rev (number_tmp small base num))) = num"
  using assms
proof (induction small base num rule: number_tmp.induct)
  case (1 small base num)
  show ?case
  proof (cases "num = 0")
    case True
    then show ?thesis by (simp add: number_tmp.simps digits_val_def)
  next
    case False
    have "num mod base < 16" using 1(2,3) mod_less_divisor [of base num] by linarith
    then show ?thesis
      using 1 False by (subst number_tmp.simps) (simp add: digits_val_def digit_of_char)
  qed
qed

lemma number_tmp_digits:
  assumes "2 \<le> base" "base \<le> 16" "c \<in> set (number_tmp small base num)"
  shows "\<exists>d<base. c = digit_char small d"
  using assms
proof (induction small base num rule: number_tmp.induct)
  case (1 small base num)
  show ?case
  proof (cases "num = 0")
    case True
    then show ?thesis using 1(4) by (simp add: number_tmp.simps)
  next
    case False
    then have "c = digit_char small (num mod base) \<or> c \<in> set (number_tmp small base (num div base))"
      using 1(2,4) by (subst (asm) number_tmp.simps) auto
    moreover have "num mod base < base" using 1(2) by simp
    moreover have "\<not> (num = 0 \<or> base < 2)" using False 1(2) by simp
    ultimately show ?thesis
      using 1(1) [OF _ 1(2,3)] by blast
  qed
qed

lemma number_tmp_hd:
  assumes "2 \<le> base" "0 < num"
  shows "number_tmp small base num \<noteq> [] \<and> (\<exists>d>0. d < base \<and> last (number_tmp small base num) = digit_char small d)"
  using assms
proof (induction small base num rule: number_tmp.induct)
  case (1 small base num)
  show ?case
  proof (cases "num div base = 0")
    case True
    then have "num mod base = num" using 1(2,3) by (simp add: div_eq_0_iff)
    then show ?thesis
      using 1(2,3) True mod_less_divisor [of base num]
      by (subst (1 2) number_tmp.simps) (auto simp: number_tmp.simps [of small base 0])
  next
    case False
    then show ?thesis
      using 1 by (subst (1 2) number_tmp.simps) auto
  qed
qed

definition number_digits :: "u64 \<Rightarrow> nat \<Rightarrow> bool \<Rightarrow> u8 list" where
  "number_digits num base small = (if num = 0 then [48] else rev (number_tmp small base (unat num)))"

lemma digit_char_not_special:
  assumes "d < 16" shows "digit_char small d \<noteq> 0" "d > 0 \<Longrightarrow> digit_char small d \<noteq> 48"
proof -
  have "digit_of 0 = 256" by (simp add: digit_of_def decode_digit_nul)
  then show "digit_char small d \<noteq> 0"
    using digit_of_char [OF assms, of small] assms by auto
  have "digit_of 48 = 0"
    using digit_of_char [of 0 False] by (simp add: digit_char_def)
  then show "digit_char small d \<noteq> 48" if "d > 0"
    using digit_of_char [OF assms, of small] that by auto
qed

lemma number_digits_parse:
  assumes b: "2 \<le> base" "base \<le> 16" and c: "cstr m s (number_digits num base small)"
  shows "simple_strtoul m s (word_of_nat base) = Some (num, s + length (number_digits num base small))"
proof -
  let ?xs = "number_digits num base small"
  have nb: "unat (word_of_nat base :: u32) = base" "word_of_nat base \<noteq> (0 :: u32)" "word_of_nat base \<le> (256 :: u32)"
    using b by (simp_all add: unat_of_nat take_bit_nat_eq_self word_le_nat_alt unat_eq_zero [symmetric])
  have dig: "\<exists>d<base. c = digit_char small d" if "c \<in> set ?xs" for c
  proof (cases "num = 0")
    case True
    then have "c = digit_char small 0" using that by (simp add: number_digits_def digit_char_def)
    then show ?thesis using b(1) by (intro exI [of _ 0]) simp
  next
    case False
    then show ?thesis
      using that number_tmp_digits [OF b, of c small "unat num"] by (simp add: number_digits_def)
  qed
  have lt: "decode_digit c < word_of_nat base" if c: "c \<in> set ?xs" for c
  proof -
    obtain d where d: "d < base" "c = digit_char small d" using dig [OF c] by blast
    then show ?thesis
      using b decode_digit_char [of d small]
      by (simp add: word_less_nat_alt unat_of_nat take_bit_nat_eq_self)
  qed
  have tw: "takeWhile (\<lambda>c. decode_digit c < word_of_nat base) ?xs = ?xs"
    using lt by (simp add: takeWhile_eq_all_conv)
  have radix: "radix_of ?xs (word_of_nat base) = (0, word_of_nat base)"
  proof (cases "num = 0")
    case True
    then show ?thesis using nb by (simp add: number_digits_def radix_of_def)
  next
    case False
    then obtain d where "0 < d" "d < base" "hd ?xs = digit_char small d" "?xs \<noteq> []"
      using number_tmp_hd [OF b(1), of "unat num" small]
      by (auto simp: number_digits_def hd_rev unat_gt_0)
    then have "hd ?xs \<noteq> 48" "?xs \<noteq> []" using digit_char_not_special(2) [of d small] b by auto
    then show ?thesis using nb by (auto simp: radix_of_def split: list.split)
  qed
  have val: "word_of_nat (digits_val base (map digit_of ?xs)) = num"
    using number_tmp_val [OF b, of small "unat num"]
    by (auto simp: number_digits_def digits_val_def digit_of_def decode_digit_def isxdigit_range tolower_def isupper_ascii)
  show ?thesis
    using simple_strtoul_cstr [OF c nb(3) radix refl] tw val nb(1) by simp
qed

lemma flag_zeropad_left: "(t :: u32) AND (ZEROPAD + LEFT) = 0 \<longleftrightarrow> t AND ZEROPAD = 0 \<and> t AND LEFT = 0"
proof -
  have "t AND (ZEROPAD + LEFT) = (t AND ZEROPAD) OR (t AND LEFT)"
    by (simp flip: bit.conj_disj_distrib)
  then show ?thesis by (simp add: or_eq_0_iff)
qed

text \<open>Clearing \<open>ZEROPAD\<close> keeps the other flags; \<open>-2\<close> is the normal form of \<open>NOT 1\<close>.\<close>

lemma flag_clear_simps [simp]:
  "((t :: u32) AND - 2) AND 1 = 0" "(t AND - 2) AND 2 = t AND 2" "(t AND - 2) AND 4 = t AND 4"
  "(t AND - 2) AND 8 = t AND 8" "(t AND - 2) AND 16 = t AND 16" "(t AND - 2) AND 32 = t AND 32"
  by (simp_all add: and.assoc)

lemma number_sign_clear:
  "number_sign num s (if c then t AND NOT ZEROPAD else t) = number_sign num s t"
  by (simp add: number_sign_def)

text \<open>Whatever the flags, the padding loops write the missing width exactly once.\<close>

lemma pads_once:
  fixes s :: int and A B :: bool and c :: u8
  defines "P1 \<equiv> (if A then pad_post 32 0 s else ([], s))"
  defines "P2 \<equiv> (if B then pad_post c 0 (snd P1) else ([], snd P1))"
  shows "length (fst P1) + (length (fst P2) + length (fst (pad_post 32 0 (snd P2)))) = nat s"
  unfolding P1_def P2_def by (auto simp: pad_post_eq min_def)

text \<open>\<open>number\<close> with its local variables named.\<close>

definition number_pre :: "int \<Rightarrow> u32 \<Rightarrow> bool \<Rightarrow> u8 list" where
  "number_pre base t small =
    (if t AND SPECIAL \<noteq> 0 then
       (if base = 8 then [48] else if base = 16 then [48, if small then 120 else 88] else [])
     else [])"

lemma number_eq:
  assumes b: "2 \<le> base" "base \<le> 36"
    and small: "small = (type AND SMALL \<noteq> 0)"
    and t: "t = (if type AND LEFT \<noteq> 0 then type AND NOT ZEROPAD else type)"
    and sg: "number_sign num size' type = (sg, num', size1)"
    and tmp: "tmp = (if num' = 0 then [48] else number_tmp small (nat base) (unat num'))"
    and w: "w = max (int (length tmp)) prec"
    and sz: "sz = size1 - int (length (number_pre base t small)) - w"
    and P1: "(pa, sa) = (if t AND (ZEROPAD + LEFT) = 0 then pad_post 32 0 sz else ([], sz))"
    and P2: "(pb, sb) = (if t AND LEFT = 0 then pad_post (if t AND ZEROPAD \<noteq> 0 then 48 else 32) 0 sa else ([], sa))"
  shows "number num base size' prec type = Some (pa @ (if sg \<noteq> 0 then [sg] else []) @ number_pre base t small @ pb
      @ fst (pad_post 48 (int (length tmp)) w) @ rev tmp @ fst (pad_post 32 0 sb))"
proof -
  have t': "number_sign num size' t = (sg, num', size1)" using sg by (simp add: t number_sign_clear)
  have w': "(if int (length tmp) > prec then int (length tmp) else prec) = w"
    unfolding w by (simp add: max_def)
  have sz': "(if t AND SPECIAL \<noteq> 0 then (if base = 16 then size1 - 2 else if base = 8 then size1 - 1 else size1)
      else size1) - w = sz"
    unfolding sz number_pre_def by simp
  have nb: "(base < 2 \<or> base > 36) = False" using b by simp
  show ?thesis
    unfolding number_def Let_def
    unfolding t [symmetric] small [symmetric] t' prod.case tmp [symmetric] w' sz'
      P1 [symmetric] P2 [symmetric] nb if_False number_pre_def ..
qed

lemma number_length:
  assumes b: "2 \<le> base" "base \<le> 36" and out: "number num base size' prec type = Some out"
    and sg: "number_sign num size' type = (sg, num', size1)"
    and k: "k = int (length (number_pre base type (type AND SMALL \<noteq> 0)))"
    and w: "w = max (int (length (number_digits num' (nat base) (type AND SMALL \<noteq> 0)))) prec"
  shows "int (length out) = (if sg \<noteq> 0 then 1 else 0) + k + w + max 0 (size1 - k - w)"
proof -
  let ?t = "if type AND LEFT \<noteq> 0 then type AND NOT ZEROPAD else type"
  let ?small = "type AND SMALL \<noteq> 0"
  let ?tmp = "if num' = 0 then [48] else number_tmp ?small (nat base) (unat num')"
  let ?P1 = "if ?t AND (ZEROPAD + LEFT) = 0 then pad_post 32 0 (size1 - k - w) else ([], size1 - k - w)"
  let ?P2 = "if ?t AND LEFT = 0 then pad_post (if ?t AND ZEROPAD \<noteq> 0 then 48 else 32) 0 (snd ?P1) else ([], snd ?P1)"
  have len: "length ?tmp = length (number_digits num' (nat base) ?small)"
    by (simp add: number_digits_def)
  have k': "number_pre base ?t ?small = number_pre base type ?small"
    by (simp add: number_pre_def)
  have "number num base size' prec type = Some (fst ?P1 @ (if sg \<noteq> 0 then [sg] else [])
      @ number_pre base ?t ?small @ fst ?P2 @ fst (pad_post 48 (int (length ?tmp)) w) @ rev ?tmp
      @ fst (pad_post 32 0 (snd ?P2)))"
    by (rule number_eq [OF b refl refl sg refl]) (simp_all only: len w k k' prod.collapse)
  then have "length out = length (fst ?P1) + (length (fst ?P2) + length (fst (pad_post 32 0 (snd ?P2))))
      + (if sg \<noteq> 0 then 1 else 0) + nat k + (nat (w - int (length ?tmp)) + length ?tmp)"
    unfolding out k k' by (simp only: option.inject length_append length_rev) (simp add: pad_post_eq)
  then have "length out = nat (size1 - k - w) + (if sg \<noteq> 0 then 1 else 0) + nat k
      + (nat (w - int (length ?tmp)) + length ?tmp)"
    unfolding pads_once .
  moreover have "int (length ?tmp) \<le> w" "0 \<le> k" unfolding len w k by simp_all
  ultimately show ?thesis by simp
qed

lemma number_plain:
  assumes "2 \<le> base" "base \<le> 36" "type = 0 \<or> type = SMALL"
  shows "number num base (- 1) (- 1) type = Some (number_digits num (nat base) (type = SMALL))"
proof -
  let ?tmp = "if num = 0 then [48] else number_tmp (type AND SMALL \<noteq> 0) (nat base) (unat num)"
  have sg: "number_sign num (- 1) type = (0, num, - 1)" "number_pre base type s = []" for s
    using assms(3) by (auto simp: number_sign_def number_pre_def)
  have t: "(type AND LEFT \<noteq> 0) = False" "type AND (ZEROPAD + LEFT) = 0" "type AND LEFT = 0"
    "type AND ZEROPAD = 0" "(type AND SMALL \<noteq> 0) = (type = SMALL)"
    using assms(3) by auto
  have "number num base (- 1) (- 1) type = Some ([] @ (if (0 :: u8) \<noteq> 0 then [0] else [])
      @ number_pre base type (type AND SMALL \<noteq> 0) @ []
      @ fst (pad_post 48 (int (length ?tmp)) (int (length ?tmp))) @ rev ?tmp
      @ fst (pad_post 32 0 (- 3 - int (length ?tmp))))"
    by (rule number_eq [OF assms(1,2) refl _ sg(1) refl _ refl,
          where sa = "- 2 - int (length ?tmp)"])
      (insert assms(3), auto simp: sg pad_post_eq min_def)
  then show ?thesis
    by (simp add: sg t pad_post_eq number_digits_def)
qed

end
