(* ===== verification/Quest_Printk_Props.thy ===== *)
theory Quest_Printk_Props
  imports Quest_Printk_Lemmas Quest_String_Props
begin

text \<open>
  The properties of the console formatter and log: what \<open>number\<close> prints is what the number
  parsers read back, the width of a converted number, and that recording messages before
  the console is ready loses and reorders nothing.
\<close>

unbundle bit_operations_syntax

section \<open>The log\<close>

text \<open>A sequence of messages, each a format and its arguments.\<close>

fun printk_all :: "mem \<Rightarrow> printk_state \<Rightarrow> (u8 list \<times> u64 list) list \<Rightarrow> (mem \<times> printk_state) cres" where
  "printk_all m s [] = Done (m, s)"
| "printk_all m s ((fmt, args) # ms) =
    cbind (printk m s fmt args) (\<lambda>(m', s', _). printk_all m' s' ms)"

lemma printk_recorded:
  "printk_all m s ms = Done (m', s') \<Longrightarrow> g_printk_status s = PRINTK_STATUS_DOWN \<Longrightarrow>
   g_printk_status t = PRINTK_STATUS_READY \<Longrightarrow>
   console s' = console s \<and> g_printk_status s' = PRINTK_STATUS_DOWN
   \<and> (\<exists>tx. g_record s' = g_record s @ tx
        \<and> printk_all m t ms = Done (m', t\<lparr>console := console t @ tx\<rparr>))"
proof (induction ms arbitrary: m s t)
  case (Cons msg ms)
  obtain fmt args where msg: "msg = (fmt, args)" by (cases msg)
  obtain m1 s1 r where p: "printk m s fmt args = Done (m1, s1, r)" and r: "printk_all m1 s1 ms = Done (m', s')"
    using Cons.prems(1) by (auto simp: msg cbind_Done)
  from p Cons.prems(2) obtain tx where
    tx: "myprintf m fmt args = Done (m1, tx)" "length tx < PRINT_BUF_SIZE"
      "s1 = s\<lparr>g_record := g_record s @ tx\<rparr>"
    by (cases "myprintf m fmt args") (auto simp: printk_def split: if_splits)
  have t1: "printk m t fmt args = Done (m1, t\<lparr>console := console t @ tx\<rparr>, int (length tx))"
    using tx(1,2) Cons.prems(3) by (simp add: printk_def)
  obtain tx' where "console s' = console s1" "g_printk_status s' = PRINTK_STATUS_DOWN"
    "g_record s' = g_record s1 @ tx'"
    "printk_all m1 (t\<lparr>console := console t @ tx\<rparr>) ms = Done (m', t\<lparr>console := (console t @ tx) @ tx'\<rparr>)"
    using Cons.IH [OF r, of "t\<lparr>console := console t @ tx\<rparr>"] Cons.prems(2,3) tx(3) by auto
  then show ?case
    by (intro conjI exI [of _ "tx @ tx'"]) (simp_all add: msg t1 tx(3))
qed simp

lemma printk_all_append:
  "printk_all m s (ms @ ms') = cbind (printk_all m s ms) (\<lambda>(m', s'). printk_all m' s' ms')"
proof (induction ms arbitrary: m s)
  case (Cons msg ms)
  then show ?case by (cases msg; cases "printk m s (fst msg) (snd msg)") auto
qed simp

section \<open>Properties\<close>

text \<open>
  C23. Printing a number and parsing it back is the identity: the text of \<open>%lu\<close> read by
  \<open>dectoul\<close> and the text of \<open>%lx\<close> read by \<open>hextoul\<close> give the 64-bit number that was
  printed, and the parser consumes the whole text.
\<close>

theorem myprintf_strtoul_roundtrip:
  "\<exists>dec hex. myprintf m [37, 108, 117] [n] = Done (m, dec) \<and> myprintf m [37, 108, 120] [n] = Done (m, hex)
    \<and> (\<forall>m' s. cstr m' s dec \<longrightarrow> dectoul m' s = Some (n, s + length dec))
    \<and> (\<forall>m' s. cstr m' s hex \<longrightarrow> hextoul m' s = Some (n, s + length hex))"
proof -
  have "myprintf m [37, 108, 117] [n] = Done (m, number_digits n 10 False)"
    using number_plain [of 10 0 n]
    by (simp add: myprintf_def convert_def scan_width_def scan_precision_def scan_qualifier_def
        chr_at_def is_digit_def convert_spec_def Let_def emit_num_def va_arg_def fetch_num_def)
  moreover have "myprintf m [37, 108, 120] [n] = Done (m, number_digits n 16 True)"
    using number_plain [of 16 SMALL n]
    by (simp add: myprintf_def convert_def scan_width_def scan_precision_def scan_qualifier_def
        chr_at_def is_digit_def convert_spec_def Let_def emit_num_def va_arg_def fetch_num_def)
  moreover have "dectoul m' s = Some (n, s + length (number_digits n 10 False))"
    if "cstr m' s (number_digits n 10 False)" for m' s
    using number_digits_parse [of 10 m' s n False] that by (simp add: dectoul_def)
  moreover have "hextoul m' s = Some (n, s + length (number_digits n 16 True))"
    if "cstr m' s (number_digits n 16 True)" for m' s
    using number_digits_parse [of 16 m' s n True] that by (simp add: hextoul_def)
  ultimately show ?thesis by blast
qed

theorem myprintf_strtoul_roundtrip_witness:
  "\<exists>dec. myprintf (\<lambda>_. 0) [37, 108, 117] [0] = Done (\<lambda>_. 0, dec) \<and> cstr (mem_at 8 [48]) 8 [48]
    \<and> (dec = [48] \<longrightarrow> dectoul (mem_at 8 [48]) 8 = Some (0, 9))"
proof -
  have "cstr (mem_at 8 [48]) 8 [48]" by (simp add: mem_at_def)
  then show ?thesis using myprintf_strtoul_roundtrip [of "\<lambda>_. 0" 0] by fastforce
qed

text \<open>
  C25. The width of a converted number: with the sign, the prefix and at least
  \<open>precision\<close> digits as body, the text is as long as the body or the field width, whichever
  is larger, except that a negative number makes the field one character wider than asked,
  since the code takes the minus sign out of no width.
\<close>

theorem number_width:
  assumes "2 \<le> base" and "base \<le> 36" and "number num base size' prec type = Some out"
    and "number_sign num size' type = (sg, num', size1)"
  shows "int (length out) = max
     ((if sg \<noteq> 0 then 1 else 0) + int (length (number_pre base type (type AND SMALL \<noteq> 0)))
       + max (int (length (number_digits num' (nat base) (type AND SMALL \<noteq> 0)))) prec)
     (size' + (if sg = 45 then 1 else 0))"
proof -
  have "(if sg \<noteq> 0 then 1 else 0) + size1 = size' + (if sg = 45 then 1 else 0)"
    using assms(4) by (auto simp: number_sign_def split: if_splits)
  then show ?thesis
    using number_length [OF assms refl refl] by (simp split: if_splits) linarith+
qed

theorem number_width_witness:
  "\<exists>out. number (- 42) 10 5 (- 1) SIGN = Some out \<and> length out = 6"
proof -
  have out: "number (- 42) 10 5 (- 1) SIGN = Some [32, 32, 32, 45, 52, 50]"
    by code_simp
  have sg: "number_sign (- 42) 5 SIGN = (45, 42, 5)" by (simp add: number_sign_def)
  show ?thesis
    using number_width [OF _ _ out sg] out by simp
qed


text \<open>
  C24. The log refines a console that is ready from the start: recording the messages printed
  before \<open>init_printf_done\<close> and replaying them there gives, message for message, the output
  and the memory of a machine on which every message went straight to the console.
\<close>

theorem printk_log_refines_console:
  assumes "printk_all m printk_init early = Done (m1, s1)"
    and "printk_all m1 (init_printf_done s1) late = Done (m2, s2)"
  shows "\<exists>t. printk_all m (printf_set_ready printk_init) (early @ late) = Done (m2, t)
    \<and> console t = console s2 \<and> console s1 = [] \<and> g_record s2 = []"
proof -
  let ?t = "printf_set_ready printk_init"
  have st: "g_printk_status printk_init = PRINTK_STATUS_DOWN" "g_printk_status ?t = PRINTK_STATUS_READY"
    "console printk_init = []" "g_record printk_init = []" "console ?t = []" "g_record ?t = []"
    by (simp_all add: printk_init_def printf_set_ready_def)
  obtain tx where s1: "console s1 = []" "g_record s1 = tx"
    and t1: "printk_all m ?t early = Done (m1, ?t\<lparr>console := tx\<rparr>)"
    using printk_recorded [OF assms(1) st(1,2)] st by auto
  have "init_printf_done s1 = ?t\<lparr>console := tx\<rparr>"
    using s1 by (cases s1) (simp add: init_printf_done_def printf_set_ready_def printk_init_def)
  then have t2: "printk_all m ?t (early @ late) = Done (m2, s2)"
    using t1 assms(2) by (simp add: printk_all_append)
  have "g_record s2 = g_record u" if "printk_all k u ms = Done (k', s2)"
    "g_printk_status u = PRINTK_STATUS_READY" for k u ms k'
    using that
    by (induction ms arbitrary: k u) (auto simp: cbind_Done printk_def split: if_splits)
  from this [OF t2 st(2)] show ?thesis using t2 s1(1) st(6) by auto
qed

theorem printk_log_refines_console_witness:
  "\<exists>t. printk_all (\<lambda>_. 0) (printf_set_ready printk_init) ([([97], [])] @ [([98], [])]) = Done (\<lambda>_. 0, t)
    \<and> console t = [97, 98]"
proof -
  have e: "printk_all (\<lambda>_. 0) printk_init [([97], [])] = Done (\<lambda>_. 0, printk_init\<lparr>g_record := [97]\<rparr>)"
    by (simp add: printk_def printk_init_def myprintf_def PRINT_BUF_SIZE_def LOG_BUF_LEN_def)
  have l: "printk_all (\<lambda>_. 0) (init_printf_done (printk_init\<lparr>g_record := [97]\<rparr>)) [([98], [])] =
    Done (\<lambda>_. 0, printk_init\<lparr>g_printk_status := PRINTK_STATUS_READY, console := [97, 98]\<rparr>)"
    by (simp add: printk_def printk_init_def init_printf_done_def myprintf_def PRINT_BUF_SIZE_def)
  from printk_log_refines_console [OF e l] show ?thesis
    by (elim exE conjE) (intro exI conjI; assumption | simp)
qed

end
