(* ===== verification/Quest_Process.thy ===== *)
theory Quest_Process
  imports Quest_String Memblock_Alloc
begin

text \<open>
  User processes: \<open>src/schedule/process.c\<close> with the structures of \<open>include/process.h\<close>. A
  package of process images lies in kernel memory; the loader checks its header, its
  descriptors, every ELF program header and the metadata block, and builds one
  \<open>process_struct\<close> per accepted image.

  Kernel memory is the byte map of the heap record of the allocator, read at 64-bit
  addresses; structures in the package are decoded from it field by field, little endian.
  A kernel object is its allocated address and a record; the singly linked lists of the
  code are lists of such pairs.
\<close>

unbundle bit_operations_syntax

section \<open>Memory access\<close>

definition heap_mem :: "kheap \<Rightarrow> mem" where
  "heap_mem h = (\<lambda>a. kh_bytes h (word_of_nat a))"

definition set_heap_mem :: "mem \<Rightarrow> kheap \<Rightarrow> kheap" where
  "set_heap_mem m h = h\<lparr>kh_bytes := (\<lambda>a. m (unat a))\<rparr>"

definition rd16 :: "mem \<Rightarrow> nat \<Rightarrow> u16" where
  "rd16 m a = ucast (m a) OR push_bit 8 (ucast (m (a + 1)))"

definition rd32 :: "mem \<Rightarrow> nat \<Rightarrow> u32" where
  "rd32 m a = ucast (m a) OR push_bit 8 (ucast (m (a + 1)))
    OR push_bit 16 (ucast (m (a + 2))) OR push_bit 24 (ucast (m (a + 3)))"

abbreviation rd64 :: "mem \<Rightarrow> nat \<Rightarrow> u64" where
  "rd64 \<equiv> get_word"

section \<open>Structures\<close>

abbreviation PROCESS_MAX_COUNT :: int where "PROCESS_MAX_COUNT \<equiv> 128"
abbreviation PROCESS_MAX_NAME_LEN :: nat where "PROCESS_MAX_NAME_LEN \<equiv> 128"
abbreviation PROCESS_IMAGE_START :: u64 where "PROCESS_IMAGE_START \<equiv> 0x40000000"
abbreviation PROCESS_IMAGE_END :: u64 where "PROCESS_IMAGE_END \<equiv> 0x140000000"
abbreviation PROCESS_META_START :: u64 where "PROCESS_META_START \<equiv> 0x140000000"
abbreviation PROCESS_STACK_TOP :: u64 where "PROCESS_STACK_TOP \<equiv> 0x41C0000000"
abbreviation THREAD_SIZE :: u64 where "THREAD_SIZE \<equiv> 0x4000"
abbreviation PROCESS_DEFAULT_STACK_SIZE :: u64 where "PROCESS_DEFAULT_STACK_SIZE \<equiv> 0x2000"
abbreviation PROCESS_MAX_STACK_SIZE :: u64 where "PROCESS_MAX_STACK_SIZE \<equiv> 0x10000"
abbreviation PROCESS_DEFAULT_HEAP_SIZE :: u64 where "PROCESS_DEFAULT_HEAP_SIZE \<equiv> 0x10000"
abbreviation PROCESS_MAX_IMAGE_SIZE :: u64 where "PROCESS_MAX_IMAGE_SIZE \<equiv> 0x8000000"
abbreviation PROCESS_MAX_META_SIZE :: u64 where "PROCESS_MAX_META_SIZE \<equiv> 0x100000"
abbreviation PROC_PKG_MAGIC :: u32 where "PROC_PKG_MAGIC \<equiv> 0x504B4750"
abbreviation PROC_IMG_ELF :: u32 where "PROC_IMG_ELF \<equiv> 1"
abbreviation PROC_IMG_FLAT :: u32 where "PROC_IMG_FLAT \<equiv> 2"

record proc_pkg_header =
  h_magic :: u32
  h_version :: u16
  h_header_size :: u16
  h_image_count :: u32
  h_desc_offset :: u32
  h_desc_size :: u32
  h_total_size :: u64

definition read_pkg_header :: "mem \<Rightarrow> nat \<Rightarrow> proc_pkg_header" where
  "read_pkg_header m a =
    \<lparr>h_magic = rd32 m a, h_version = rd16 m (a + 4), h_header_size = rd16 m (a + 6),
     h_image_count = rd32 m (a + 8), h_desc_offset = rd32 m (a + 12),
     h_desc_size = rd32 m (a + 16), h_total_size = rd64 m (a + 24)\<rparr>"

record proc_image_desc =
  d_type :: u32
  d_image_offset :: u64
  d_image_size :: u64
  d_meta_offset :: u64
  d_meta_size :: u64

definition read_image_desc :: "mem \<Rightarrow> nat \<Rightarrow> proc_image_desc" where
  "read_image_desc m a =
    \<lparr>d_type = rd32 m a, d_image_offset = rd64 m (a + 8), d_image_size = rd64 m (a + 16),
     d_meta_offset = rd64 m (a + 24), d_meta_size = rd64 m (a + 32)\<rparr>"

record proc_image_meta =
  m_argv_count :: u32
  m_env_count :: u32
  m_auxv_count :: u32
  m_string_table_size :: u32
  m_name_offset :: u32
  m_argv_offset :: u32
  m_env_offset :: u32
  m_auxv_offset :: u32
  m_string_table_offset :: u32
  m_reserved :: u32
  m_stack_size :: u64

definition read_image_meta :: "mem \<Rightarrow> nat \<Rightarrow> proc_image_meta" where
  "read_image_meta m a =
    \<lparr>m_argv_count = rd32 m a, m_env_count = rd32 m (a + 4), m_auxv_count = rd32 m (a + 8),
     m_string_table_size = rd32 m (a + 12), m_name_offset = rd32 m (a + 16),
     m_argv_offset = rd32 m (a + 20), m_env_offset = rd32 m (a + 24),
     m_auxv_offset = rd32 m (a + 28), m_string_table_offset = rd32 m (a + 32),
     m_reserved = rd32 m (a + 36), m_stack_size = rd64 m (a + 40)\<rparr>"

record elf64_phdr =
  p_type :: u32
  p_flags :: u32
  p_offset :: u64
  p_vaddr :: u64
  p_filesz :: u64
  p_memsz :: u64

definition read_phdr :: "mem \<Rightarrow> nat \<Rightarrow> elf64_phdr" where
  "read_phdr m a =
    \<lparr>p_type = rd32 m a, p_flags = rd32 m (a + 4), p_offset = rd64 m (a + 8),
     p_vaddr = rd64 m (a + 16), p_filesz = rd64 m (a + 32), p_memsz = rd64 m (a + 40)\<rparr>"

abbreviation ELF_EHDR_SIZE :: u64 where "ELF_EHDR_SIZE \<equiv> 64"
abbreviation ELF_PHDR_SIZE :: u64 where "ELF_PHDR_SIZE \<equiv> 56"

abbreviation e_machine :: "mem \<Rightarrow> nat \<Rightarrow> u16" where "e_machine m a \<equiv> rd16 m (a + 18)"
abbreviation e_entry :: "mem \<Rightarrow> nat \<Rightarrow> u64" where "e_entry m a \<equiv> rd64 m (a + 24)"
abbreviation e_phoff :: "mem \<Rightarrow> nat \<Rightarrow> u64" where "e_phoff m a \<equiv> rd64 m (a + 32)"
abbreviation e_phentsize :: "mem \<Rightarrow> nat \<Rightarrow> u16" where "e_phentsize m a \<equiv> rd16 m (a + 54)"
abbreviation e_phnum :: "mem \<Rightarrow> nat \<Rightarrow> u16" where "e_phnum m a \<equiv> rd16 m (a + 56)"

datatype process_state =
  PROCESS_NEW | PROCESS_READY | PROCESS_RUNNING | PROCESS_BLOCKED | PROCESS_ZOMBIE

record vmem_segment =
  seg_pa :: phys_addr
  va_start :: u64
  va_end :: u64
  seg_flags :: u64
  zero_start :: u64
  zero_size :: u64

record process_image =
  image_date :: u64
  image_date_size :: u32
  meta_data :: u64
  meta_size :: u32
  argc :: u32
  argv :: "u64 list"
  env_count :: u32
  env :: "u64 list"
  auxv_count :: u32
  auxv :: "u64 list"
  img_stack_size :: u64
  entry_point :: u64

text \<open>
  \<open>vm_segments\<close> is the list that starts at \<open>mm->vm_segments\<close>, each segment with its address;
  its last element is \<open>mm->vm_region_last\<close>. \<open>pgtable_mem\<close> is the list of page tables
  allocated for the process.
\<close>

record memory_struct =
  pg_dir_unaligned :: u64
  pg_dir :: u64
  stack :: u64
  stack_size :: u64
  heap :: u64
  heap_size :: u64
  vm_region_count :: nat
  vm_segments :: "(u64 \<times> vmem_segment) list"
  pgtable_mem :: "u64 list"

record process_struct =
  sp :: u64
  name :: "u8 list"
  cpu :: u32
  pid :: int
  pc :: u64
  kernel_stack :: u64
  kernel_stack_size :: u64
  last_run_timestamp :: u64
  image :: process_image
  mm :: memory_struct
  kthread :: u64
  last_wake :: "u64 option"
  state :: process_state

definition zero_image :: process_image where
  "zero_image =
    \<lparr>image_date = 0, image_date_size = 0, meta_data = 0, meta_size = 0, argc = 0, argv = [],
     env_count = 0, env = [], auxv_count = 0, auxv = [], img_stack_size = 0, entry_point = 0\<rparr>"

definition zero_mm :: memory_struct where
  "zero_mm =
    \<lparr>pg_dir_unaligned = 0, pg_dir = 0, stack = 0, stack_size = 0, heap = 0, heap_size = 0,
     vm_region_count = 0, vm_segments = [], pgtable_mem = []\<rparr>"

definition zero_process :: process_struct where
  "zero_process =
    \<lparr>sp = 0, name = [], cpu = 0, pid = 0, pc = 0, kernel_stack = 0, kernel_stack_size = 0,
     last_run_timestamp = 0, image = zero_image, mm = zero_mm, kthread = 0, last_wake = None,
     state = PROCESS_NEW\<rparr>"

text \<open>The sizes that the allocations of the loader ask for.\<close>

abbreviation SIZEOF_PROCESS_STRUCT :: u64 where "SIZEOF_PROCESS_STRUCT \<equiv> 3416"
abbreviation SIZEOF_VMEM_SEGMENT :: u64 where "SIZEOF_VMEM_SEGMENT \<equiv> 56"

section \<open>Checking a package\<close>

abbreviation SIZEOF_PKG_HEADER :: u64 where "SIZEOF_PKG_HEADER \<equiv> 32"
abbreviation SIZEOF_IMAGE_DESC :: u64 where "SIZEOF_IMAGE_DESC \<equiv> 56"
abbreviation SIZEOF_IMAGE_META :: u64 where "SIZEOF_IMAGE_META \<equiv> 48"

definition check_pkg_header :: "mem \<Rightarrow> nat \<Rightarrow> u64 \<Rightarrow> int" where
  "check_pkg_header m base blob_size =
    (if blob_size < SIZEOF_PKG_HEADER then - EINVAL
     else let h = read_pkg_header m base in
     if h_magic h \<noteq> PROC_PKG_MAGIC then - EINVAL
     else if h_version h < 1 then - EINVAL
     else if ucast (h_header_size h) < SIZEOF_PKG_HEADER \<or> ucast (h_header_size h) > blob_size then - EINVAL
     else if h_total_size h < ucast (h_header_size h) \<or> h_total_size h > blob_size then - EINVAL
     else if h_image_count h = 0 then - EINVAL
     else if ucast (h_image_count h) > 0xffffffff div SIZEOF_IMAGE_DESC
          \<or> ucast (h_desc_size h) \<noteq> ucast (h_image_count h) * SIZEOF_IMAGE_DESC then - EINVAL
     else if h_desc_offset h < ucast (h_header_size h) \<or> ucast (h_desc_offset h) \<ge> h_total_size h then - EINVAL
     else if ucast (h_desc_size h) > h_total_size h - ucast (h_desc_offset h) then - EINVAL
     else
       let desc_end = ucast (h_desc_offset h + h_desc_size h) :: u64;
           payload_start = (desc_end + 0xfff) AND NOT 0xfff in
       if payload_start > h_total_size h then - EINVAL else 0)"

text \<open>Here the alignment is computed on the 32-bit sum.\<close>

definition payload_start :: "proc_pkg_header \<Rightarrow> u64" where
  "payload_start h = ucast ((h_desc_offset h + h_desc_size h + 0xfff) AND NOT 0xfff)"

definition check_image_desc :: "proc_pkg_header \<Rightarrow> proc_image_desc \<Rightarrow> int" where
  "check_image_desc h d =
    (if d_image_offset d \<ge> h_total_size h \<or> d_meta_offset d \<ge> h_total_size h then - EINVAL
     else if d_image_offset d < payload_start h \<or> d_meta_offset d < payload_start h then - EINVAL
     else if d_image_size d = 0 \<or> d_image_size d > PROCESS_MAX_IMAGE_SIZE
          \<or> d_meta_size d = 0 \<or> d_meta_size d > PROCESS_MAX_META_SIZE then - EINVAL
     else if d_image_size d > h_total_size h - d_image_offset d
          \<or> d_meta_size d > h_total_size h - d_meta_offset d then - EINVAL
     else if d_image_offset d AND 0xfff \<noteq> 0 \<or> d_meta_offset d AND 0xfff \<noteq> 0 then - EINVAL
     else if d_type d = PROC_IMG_ELF \<or> d_type d = PROC_IMG_FLAT then 0
     else - EINVAL)"

definition check_elf64_aarch64 :: "mem \<Rightarrow> nat \<Rightarrow> u64 \<Rightarrow> int" where
  "check_elf64_aarch64 m base size' =
    (if size' < ELF_EHDR_SIZE then - EINVAL
     else if m base \<noteq> 0x7f \<or> m (base + 1) \<noteq> 69 \<or> m (base + 2) \<noteq> 76 \<or> m (base + 3) \<noteq> 70 then - EINVAL
     else if m (base + 4) \<noteq> 2 then - EINVAL
     else if m (base + 5) \<noteq> 1 then - EINVAL
     else if e_machine m base \<noteq> 183 then - EINVAL
     else if ucast (e_phentsize m base) \<noteq> ELF_PHDR_SIZE then - EINVAL
     else if e_phnum m base = 0 then - EINVAL
     else if e_phoff m base + ucast (e_phnum m base) * ELF_PHDR_SIZE > size' then - EINVAL
     else 0)"

definition check_elf_ph :: "elf64_phdr \<Rightarrow> u64 \<Rightarrow> int" where
  "check_elf_ph ph elf_size =
    (if p_offset ph > elf_size then - EINVAL
     else if p_filesz ph > elf_size - p_offset ph then - EINVAL
     else if p_memsz ph < p_filesz ph then - EINVAL
     else if p_vaddr ph AND 0xfff \<noteq> p_offset ph AND 0xfff then - EINVAL
     else 0)"

fun overlap_loop :: "(u64 \<times> vmem_segment) list \<Rightarrow> u64 \<Rightarrow> u64 \<Rightarrow> int" where
  "overlap_loop [] start end' = 0"
| "overlap_loop ((p, segment) # segments) start end' =
    (if va_start segment \<ge> end' \<or> va_end segment \<le> start then overlap_loop segments start end'
     else - EINVAL)"

definition check_vmem_region_overlap :: "process_struct \<Rightarrow> u64 \<Rightarrow> u64 \<Rightarrow> int" where
  "check_vmem_region_overlap process start end' =
    (if vm_region_count (mm process) = 0 then 0
     else overlap_loop (vm_segments (mm process)) start end')"

definition check_section_region_valid :: "process_struct \<Rightarrow> elf64_phdr \<Rightarrow> int" where
  "check_section_region_valid process ph =
    (if p_vaddr ph < PROCESS_IMAGE_START
        \<or> p_vaddr ph + p_memsz ph > PROCESS_IMAGE_END
        \<or> p_vaddr ph + p_memsz ph < p_vaddr ph then - EINVAL
     else check_vmem_region_overlap process (p_vaddr ph) (p_memsz ph))"

section \<open>Loading an ELF image\<close>

definition new_segment :: "u64 \<Rightarrow> u64 \<Rightarrow> elf64_phdr \<Rightarrow> vmem_segment" where
  "new_segment voffset elf_base ph =
    \<lparr>seg_pa = elf_base + p_offset ph - voffset,
     va_start = p_vaddr ph, va_end = p_vaddr ph + p_memsz ph, seg_flags = ucast (p_flags ph),
     zero_start = elf_base + p_offset ph + p_filesz ph, zero_size = p_memsz ph - p_filesz ph\<rparr>"

definition add_segment :: "u64 \<Rightarrow> vmem_segment \<Rightarrow> process_struct \<Rightarrow> process_struct" where
  "add_segment ptr seg process =
    process\<lparr>mm := (mm process)\<lparr>vm_region_count := Suc (vm_region_count (mm process)),
                              vm_segments := vm_segments (mm process) @ [(ptr, seg)]\<rparr>\<rparr>"

text \<open>
  The loop over the program headers: the error, the process built so far and the heap.
  The result of the segment allocation is not checked by the code.
\<close>

fun load_segments ::
  "u64 \<Rightarrow> u64 \<Rightarrow> u64 \<Rightarrow> nat \<Rightarrow> u64 \<Rightarrow> process_struct \<Rightarrow> kheap \<Rightarrow> (int \<times> process_struct \<times> kheap) outcome" where
  "load_segments voffset elf_base elf_size 0 ph_addr process h = Ret (0, process, h)"
| "load_segments voffset elf_base elf_size (Suc n) ph_addr process h =
    (let ph = read_phdr (heap_mem h) (unat ph_addr) in
     if p_type ph \<noteq> 1 then
       load_segments voffset elf_base elf_size n (ph_addr + ELF_PHDR_SIZE) process h
     else if check_elf_ph ph elf_size \<noteq> 0 then Ret (check_elf_ph ph elf_size, process, h)
     else if check_section_region_valid process ph \<noteq> 0 then
       Ret (check_section_region_valid process ph, process, h)
     else
       obind (kzalloc SIZEOF_VMEM_SEGMENT 0 h) (\<lambda>(h1, ptr).
         load_segments voffset elf_base elf_size n (ph_addr + ELF_PHDR_SIZE)
           (add_segment ptr (new_segment voffset elf_base ph) process) h1))"

fun free_list :: "u64 list \<Rightarrow> kheap \<Rightarrow> kheap outcome" where
  "free_list [] h = Ret h"
| "free_list (p # ps) h = obind (kfree p h) (\<lambda>h1. free_list ps h1)"

text \<open>\<open>free_user_elf\<close>, and the failure path of \<open>load_user_elf\<close>.\<close>

definition free_user_elf :: "u64 \<Rightarrow> process_struct \<Rightarrow> kheap \<Rightarrow> kheap outcome" where
  "free_user_elf ptr process h =
    obind (free_list (map fst (vm_segments (mm process))) h) (\<lambda>h1. kfree ptr h1)"

text \<open>The result is the error with the heap, or the address and contents of the process.\<close>

definition load_user_elf ::
  "u64 \<Rightarrow> u64 \<Rightarrow> u64 \<Rightarrow> kheap \<Rightarrow> (kheap \<times> (int + u64 \<times> process_struct)) outcome" where
  "load_user_elf voffset elf_base elf_size h =
    (let m = heap_mem h; eh = unat elf_base; err = check_elf64_aarch64 m eh elf_size in
     if err \<noteq> 0 then Ret (h, Inl err)
     else
       obind (kzalloc SIZEOF_PROCESS_STRUCT 0 h) (\<lambda>(h1, ptr).
         if ptr = 0 then Ret (h1, Inl (- ENOMEM))
         else
           let process0 = zero_process\<lparr>image := zero_image\<lparr>image_date := elf_base,
                                                        image_date_size := ucast elf_size\<rparr>\<rparr> in
           obind (load_segments voffset elf_base elf_size (unat (e_phnum m eh))
                    (elf_base + e_phoff m eh) process0 h1) (\<lambda>(err, process, h2).
             if err \<noteq> 0 then obind (free_user_elf ptr process h2) (\<lambda>h3. Ret (h3, Inl err))
             else Ret (h2, Inr (ptr,
               process\<lparr>image := (image process)\<lparr>entry_point := e_entry m eh\<rparr>\<rparr>)))))"

section \<open>Loading the metadata\<close>

definition check_meta_array :: "u32 \<Rightarrow> u32 \<Rightarrow> u64 \<Rightarrow> u64 \<Rightarrow> int" where
  "check_meta_array offset count elem_size meta_size' =
    (if count = 0 then 0
     else if ucast offset \<ge> meta_size' then - EINVAL
     else if ucast count * elem_size > meta_size' - ucast offset then - EINVAL
     else 0)"

definition check_string_ref :: "mem \<Rightarrow> nat \<Rightarrow> u32 \<Rightarrow> u32 \<Rightarrow> int" where
  "check_string_ref m string_table string_table_size str_off =
    (if str_off \<ge> string_table_size then - EINVAL
     else
       let remain = unat (string_table_size - str_off) in
       if strnlen m (string_table + unat str_off) remain = remain then - EINVAL else 0)"

fun check_string_refs :: "mem \<Rightarrow> nat \<Rightarrow> u32 \<Rightarrow> nat \<Rightarrow> nat \<Rightarrow> int" where
  "check_string_refs m string_table string_table_size offsets 0 = 0"
| "check_string_refs m string_table string_table_size offsets (Suc n) =
    (if check_string_ref m string_table string_table_size (rd32 m offsets) \<noteq> 0 then - EINVAL
     else check_string_refs m string_table string_table_size (offsets + 4) n)"

definition check_image_meta :: "mem \<Rightarrow> nat \<Rightarrow> u64 \<Rightarrow> int" where
  "check_image_meta m base meta_size' =
    (if meta_size' < SIZEOF_IMAGE_META then - EINVAL
     else
       let meta = read_image_meta m base;
           strings = base + unat (m_string_table_offset meta) in
       if m_argv_count meta > 128 \<or> m_env_count meta > 128 \<or> m_auxv_count meta > 128 then - EINVAL
       else if check_meta_array (m_argv_offset meta) (m_argv_count meta) 4 meta_size' \<noteq> 0
            \<or> check_meta_array (m_env_offset meta) (m_env_count meta) 4 meta_size' \<noteq> 0
            \<or> check_meta_array (m_auxv_offset meta) (m_auxv_count meta) 16 meta_size' \<noteq> 0 then - EINVAL
       else if m_auxv_count meta \<noteq> 0 \<and> m_auxv_offset meta AND 7 \<noteq> 0 then - EINVAL
       else if ucast (m_string_table_offset meta) > meta_size'
            \<or> ucast (m_string_table_size meta) > meta_size' - ucast (m_string_table_offset meta) then - EINVAL
       else if (m_argv_count meta \<noteq> 0 \<or> m_env_count meta \<noteq> 0) \<and> m_string_table_size meta = 0 then - EINVAL
       else if check_string_ref m strings (m_string_table_size meta) (m_name_offset meta) \<noteq> 0 then - EINVAL
       else if check_string_refs m strings (m_string_table_size meta)
                 (base + unat (m_argv_offset meta)) (unat (m_argv_count meta)) \<noteq> 0 then - EINVAL
       else if check_string_refs m strings (m_string_table_size meta)
                 (base + unat (m_env_offset meta)) (unat (m_env_count meta)) \<noteq> 0 then - EINVAL
       else if m_stack_size meta AND 0xfff \<noteq> 0 then - EINVAL
       else 0)"

text \<open>The pointers \<open>string_table + offsets[i]\<close>.\<close>

definition string_ptrs :: "mem \<Rightarrow> u64 \<Rightarrow> nat \<Rightarrow> nat \<Rightarrow> u64 list" where
  "string_ptrs m strings offsets n = map (\<lambda>i. strings + ucast (rd32 m (offsets + 4 * i))) [0..<n]"

text \<open>
  The bytes that \<open>strscpy\<close> leaves in \<open>process->name\<close>: the string cut to the array without
  its terminator.
\<close>

definition strscpy_bytes :: "mem \<Rightarrow> nat \<Rightarrow> nat \<Rightarrow> u8 list" where
  "strscpy_bytes m src count = map m [src ..< src + strnlen m src (count - 1)]"

definition load_user_meta :: "mem \<Rightarrow> u64 \<Rightarrow> u64 \<Rightarrow> process_struct \<Rightarrow> int + process_struct" where
  "load_user_meta m meta_base meta_size' process =
    (let base = unat meta_base; err = check_image_meta m base meta_size' in
     if err \<noteq> 0 then Inl err
     else
       let meta = read_image_meta m base;
           strings = meta_base + ucast (m_string_table_offset meta) in
       Inr (process\<lparr>
         name := strscpy_bytes m (unat (strings + ucast (m_name_offset meta))) PROCESS_MAX_NAME_LEN,
         image := (image process)\<lparr>
           meta_data := meta_base, meta_size := ucast meta_size',
           argc := m_argv_count meta,
           argv := string_ptrs m strings (base + unat (m_argv_offset meta)) (unat (m_argv_count meta)),
           env_count := m_env_count meta,
           env := string_ptrs m strings (base + unat (m_env_offset meta)) (unat (m_env_count meta)),
           auxv_count := m_auxv_count meta,
           auxv := map (\<lambda>i. meta_base + ucast (m_auxv_offset meta) + 16 * word_of_nat i)
                     [0..<unat (m_auxv_count meta)],
           img_stack_size := m_stack_size meta\<rparr>\<rparr>))"

section \<open>The process table\<close>

text \<open>
  The loader state: the heap, the process objects by address, the array \<open>g_processes\<close> with
  its count, and the next process identifier.
\<close>

record proc_state =
  ps_heap :: kheap
  ps_obj :: "u64 \<Rightarrow> process_struct option"
  g_processes :: "u64 list"
  g_processes_count :: int
  max_pid :: int

definition process_add_to_global :: "u64 \<Rightarrow> proc_state \<Rightarrow> proc_state" where
  "process_add_to_global p s =
    s\<lparr>g_processes := (g_processes s)[nat (g_processes_count s) := p],
      g_processes_count := g_processes_count s + 1\<rparr>"

definition load_one_image :: "u64 \<Rightarrow> u64 \<Rightarrow> nat \<Rightarrow> proc_state \<Rightarrow> (int \<times> proc_state) outcome" where
  "load_one_image voffset header index s =
    (let m = heap_mem (ps_heap s);
         h = read_pkg_header m (unat header);
         desc = read_image_desc m (unat (header + ucast (h_desc_offset h)
                                         + word_of_nat index * SIZEOF_IMAGE_DESC));
         err = check_image_desc h desc in
     if err \<noteq> 0 then Ret (err, s)
     else if d_type desc = PROC_IMG_ELF then
       obind (load_user_elf voffset (header + d_image_offset desc) (d_image_size desc) (ps_heap s))
         (\<lambda>(h1, r).
           case r of
             Inl e \<Rightarrow> Ret (e, s\<lparr>ps_heap := h1\<rparr>)
           | Inr (ptr, process) \<Rightarrow>
               (case load_user_meta (heap_mem h1) (header + d_meta_offset desc) (d_meta_size desc) process of
                  Inl e \<Rightarrow> obind (free_user_elf ptr process h1) (\<lambda>h2. Ret (e, s\<lparr>ps_heap := h2\<rparr>))
                | Inr process' \<Rightarrow>
                    Ret (0, process_add_to_global ptr
                              (s\<lparr>ps_heap := h1, ps_obj := (ps_obj s)(ptr \<mapsto> process')\<rparr>))))
     else Ret (- EINVAL, s))"

text \<open>The loop of \<open>load_processes\<close>: \<open>n\<close> images left, the first of them \<open>i\<close>.\<close>

fun load_images :: "u64 \<Rightarrow> u64 \<Rightarrow> nat \<Rightarrow> nat \<Rightarrow> nat \<Rightarrow> proc_state \<Rightarrow> (nat \<times> proc_state) outcome" where
  "load_images voffset header i 0 loaded s = Ret (loaded, s)"
| "load_images voffset header i (Suc n) loaded s =
    (if g_processes_count s \<ge> PROCESS_MAX_COUNT then Ret (loaded, s)
     else
       obind (load_one_image voffset header i s) (\<lambda>(err, s1).
         load_images voffset header (Suc i) n (if err \<noteq> 0 then loaded else Suc loaded) s1))"

definition load_processes :: "u64 \<Rightarrow> u64 \<Rightarrow> u64 \<Rightarrow> proc_state \<Rightarrow> (int \<times> proc_state) outcome" where
  "load_processes voffset blob_start blob_end s =
    (let m = heap_mem (ps_heap s) in
     if check_pkg_header m (unat blob_start) (blob_end - blob_start) \<noteq> 0 then Ret (- ENOENT, s)
     else
       obind (load_images voffset blob_start 0
                (unat (h_image_count (read_pkg_header m (unat blob_start)))) 0 s)
         (\<lambda>(loaded, s1). Ret (int loaded, s1)))"

end
