(* ===== verification/Quest_Process_Init.thy ===== *)
theory Quest_Process_Init
  imports Quest_Process
begin

text \<open>
  The second half of \<open>src/schedule/process.c\<close>: the address space and the initial stack of
  a loaded process, its destruction, and the initialisation of the whole process table.
  The routine that enters a range into a page table, \<open>vmap_phys_range_noflush\<close>, is an
  argument \<open>vmap\<close> of the operations that call it: it takes the memory descriptor, the
  physical and virtual start, the size, the attributes and the heap.
\<close>

unbundle bit_operations_syntax

type_synonym vmap_fn =
  "memory_struct \<Rightarrow> phys_addr \<Rightarrow> u64 \<Rightarrow> u64 \<Rightarrow> u64 \<Rightarrow> kheap \<Rightarrow> (int \<times> memory_struct \<times> kheap) outcome"

section \<open>Mapping\<close>

abbreviation PTE_TYPE_PAGE :: u64 where "PTE_TYPE_PAGE \<equiv> 0x3"
abbreviation PTE_USER :: u64 where "PTE_USER \<equiv> 0x40"
abbreviation PTE_RDONLY :: u64 where "PTE_RDONLY \<equiv> 0x80"
abbreviation PTE_SHARED :: u64 where "PTE_SHARED \<equiv> 0x300"
abbreviation PTE_AF :: u64 where "PTE_AF \<equiv> 0x400"
abbreviation PTE_WRITE :: u64 where "PTE_WRITE \<equiv> 0x8000000000000"
abbreviation PTE_PXN :: u64 where "PTE_PXN \<equiv> 0x20000000000000"
abbreviation PTE_UXN :: u64 where "PTE_UXN \<equiv> 0x40000000000000"
abbreviation PF_X :: u64 where "PF_X \<equiv> 1"
abbreviation PF_W :: u64 where "PF_W \<equiv> 2"
abbreviation PF_R :: u64 where "PF_R \<equiv> 4"

definition process_get_segment_pgprot :: "vmem_segment \<Rightarrow> u64" where
  "process_get_segment_pgprot segment =
    (let prot0 = PTE_SHARED OR PTE_AF OR PTE_PXN OR PTE_USER OR PTE_TYPE_PAGE;
         prot1 = (if seg_flags segment AND PF_X = 0 then prot0 OR PTE_UXN else prot0) in
     if seg_flags segment AND PF_W \<noteq> 0 then prot1 OR PTE_WRITE
     else if seg_flags segment AND PF_R \<noteq> 0 then prot1 OR PTE_RDONLY
     else prot1 AND NOT PTE_USER)"

definition PGPROT_USER_RW :: u64 where
  "PGPROT_USER_RW =
    PTE_SHARED OR PTE_AF OR PTE_WRITE OR PTE_PXN OR PTE_UXN OR PTE_USER OR PTE_TYPE_PAGE"

text \<open>
  On failure the clean-up loop tests \<open>mm->pgtable_mem\<close>, which its body never changes, so it
  does not return once a table has been recorded.
\<close>

definition process_map_memory ::
  "vmap_fn \<Rightarrow> memory_struct \<Rightarrow> phys_addr \<Rightarrow> u64 \<Rightarrow> u64 \<Rightarrow> u64 \<Rightarrow> kheap \<Rightarrow> (int \<times> memory_struct \<times> kheap) outcome" where
  "process_map_memory vmap mm0 phys virt size' pgprot h =
    obind (vmap mm0 phys virt size' pgprot h) (\<lambda>(err, mm1, h1).
      if err \<noteq> 0 \<and> pgtable_mem mm1 \<noteq> [] then Bug else Ret (err, mm1, h1))"

definition process_map_rw ::
  "vmap_fn \<Rightarrow> memory_struct \<Rightarrow> phys_addr \<Rightarrow> u64 \<Rightarrow> u64 \<Rightarrow> kheap \<Rightarrow> (int \<times> memory_struct \<times> kheap) outcome" where
  "process_map_rw vmap mm0 phys virt size' h = process_map_memory vmap mm0 phys virt size' PGPROT_USER_RW h"

fun process_map_segments ::
  "vmap_fn \<Rightarrow> (u64 \<times> vmem_segment) list \<Rightarrow> memory_struct \<Rightarrow> kheap \<Rightarrow> (int \<times> memory_struct \<times> kheap) outcome" where
  "process_map_segments vmap [] mm0 h = Ret (0, mm0, h)"
| "process_map_segments vmap ((p, segment) # segments) mm0 h =
    obind (process_map_memory vmap mm0 (seg_pa segment) (va_start segment)
             (va_end segment - va_start segment) (process_get_segment_pgprot segment) h)
      (\<lambda>(err, mm1, h1).
        if err \<noteq> 0 then Ret (err, mm1, h1) else process_map_segments vmap segments mm1 h1)"

definition process_map_stack ::
  "vmap_fn \<Rightarrow> memory_struct \<Rightarrow> kheap \<Rightarrow> (int \<times> memory_struct \<times> kheap) outcome" where
  "process_map_stack vmap mm0 h =
    process_map_rw vmap mm0 (virt_to_phys (stack mm0)) (PROCESS_STACK_TOP - stack_size mm0) (stack_size mm0) h"

definition page_align_up :: "u64 \<Rightarrow> u64" where
  "page_align_up x = (x + 0xfff) AND NOT 0xfff"

definition process_map_meta ::
  "vmap_fn \<Rightarrow> u64 \<Rightarrow> process_image \<Rightarrow> memory_struct \<Rightarrow> kheap \<Rightarrow> (int \<times> memory_struct \<times> kheap) outcome" where
  "process_map_meta vmap voffset img mm0 h =
    process_map_rw vmap mm0 (meta_data img - voffset) PROCESS_META_START
      (page_align_up (ucast (meta_size img))) h"

section \<open>The initial stack\<close>

text \<open>
  \<open>ALIGN_UP(size, 16U)\<close>: the mask is built from an \<open>unsigned int\<close>, so it has no bits above
  the low 32.
\<close>

definition calculate_stack_meta_size :: "process_image \<Rightarrow> u64" where
  "calculate_stack_meta_size img =
    (let size' = 8 + 8 * ucast (argc img + 1) + 8 * ucast (env_count img + 1) + 16 * ucast (auxv_count img) in
     (size' + 16 - 1) AND 0xfffffff0)"

definition meta_to_user_addr :: "u64 \<Rightarrow> u64 \<Rightarrow> u64" where
  "meta_to_user_addr meta_base p = p - meta_base + PROCESS_META_START"

fun put_words :: "mem \<Rightarrow> nat \<Rightarrow> u64 list \<Rightarrow> mem" where
  "put_words m a [] = m"
| "put_words m a (w # ws) = put_words (put_word m a w) (a + 8) ws"

fun put_auxv :: "mem \<Rightarrow> nat \<Rightarrow> u64 list \<Rightarrow> mem" where
  "put_auxv m a [] = m"
| "put_auxv m a (p # ps) = put_auxv (memcpy m a (unat p) 16) (a + 16) ps"

text \<open>
  The result is the error, the used size that the code stores through its non-NULL
  argument (meaningful when the error is 0) and the memory.
\<close>

definition process_stack_init :: "process_struct \<Rightarrow> mem \<Rightarrow> (int \<times> u64 \<times> mem) outcome" where
  "process_stack_init proc m =
    (let img = image proc;
         sp_top = stack (mm proc) + stack_size (mm proc);
         used_size = calculate_stack_meta_size img in
     if sp_top AND 0xf \<noteq> 0 then Bug
     else if used_size > stack_size (mm proc) then Ret (- ENOMEM, 0, m)
     else
       let sp0 = unat (sp_top - used_size);
           m1 = put_word m sp0 (ucast (argc img));
           sp1 = sp0 + 8;
           m2 = put_words m1 sp1 (map (meta_to_user_addr (meta_data img)) (argv img) @ [0]);
           sp2 = sp1 + 8 * (length (argv img) + 1);
           m3 = put_words m2 sp2 (map (meta_to_user_addr (meta_data img)) (env img) @ [0]);
           sp3 = sp2 + 8 * (length (env img) + 1);
           m4 = put_auxv m3 sp3 (auxv img);
           sp4 = sp3 + 16 * length (auxv img) in
       if sp4 > unat sp_top then Bug
       else
         let m5 = (if sp4 < unat sp_top then memset m4 sp4 0 (unat sp_top - sp4) else m4) in
         Ret (0, used_size, m5))"

section \<open>Memory of a process\<close>

definition clear_page :: "u64 \<Rightarrow> kheap \<Rightarrow> kheap" where
  "clear_page p h = set_heap_mem (memset (heap_mem h) (unat p) 0 4096) h"

definition stack_size_of :: "process_image \<Rightarrow> u64" where
  "stack_size_of img =
    (if img_stack_size img > PROCESS_MAX_STACK_SIZE then PROCESS_MAX_STACK_SIZE
     else if img_stack_size img = 0 then PROCESS_DEFAULT_STACK_SIZE
     else img_stack_size img)"

text \<open>The labels at the end of \<open>process_memory_init\<close>, from the first one reached.\<close>

definition undo_memory_init :: "bool \<Rightarrow> bool \<Rightarrow> memory_struct \<Rightarrow> kheap \<Rightarrow> kheap outcome" where
  "undo_memory_init clear free_heap mm0 h =
    (let h1 = (if clear then clear_page (pg_dir mm0) h else h) in
     obind (if free_heap then kfree (heap mm0) h1 else Ret h1) (\<lambda>h2. kfree (stack mm0) h2))"

definition process_map_all ::
  "vmap_fn \<Rightarrow> u64 \<Rightarrow> process_struct \<Rightarrow> kheap \<Rightarrow> (int \<times> memory_struct \<times> kheap) outcome" where
  "process_map_all vmap voffset proc h =
    obind (process_map_segments vmap (vm_segments (mm proc)) (mm proc) h) (\<lambda>(e1, mm1, h1).
      if e1 \<noteq> 0 then Ret (e1, mm1, h1)
      else obind (process_map_meta vmap voffset (image proc) mm1 h1) (\<lambda>(e2, mm2, h2).
        if e2 \<noteq> 0 then Ret (e2, mm2, h2)
        else process_map_stack vmap mm2 h2))"

definition process_memory_init ::
  "vmap_fn \<Rightarrow> u64 \<Rightarrow> process_struct \<Rightarrow> kheap \<Rightarrow> (int \<times> process_struct \<times> kheap) outcome" where
  "process_memory_init vmap voffset proc h =
    (let sz = stack_size_of (image proc) in
     obind (kmalloc sz GFP_ZERO h) (\<lambda>(h1, st).
       if st = 0 then Ret (- ENOMEM, proc\<lparr>mm := (mm proc)\<lparr>stack := 0\<rparr>\<rparr>, h1)
       else
         let mm1 = (mm proc)\<lparr>stack := page_align_up st, stack_size := sz\<rparr> in
         obind (kmalloc PROCESS_DEFAULT_HEAP_SIZE GFP_ZERO h1) (\<lambda>(h2, hp).
           if hp = 0 then
             obind (undo_memory_init False False mm1 h2) (\<lambda>h3.
               Ret (- ENOMEM, proc\<lparr>mm := mm1\<lparr>heap := 0\<rparr>\<rparr>, h3))
           else
             let mm2 = mm1\<lparr>heap := hp, heap_size := PROCESS_DEFAULT_HEAP_SIZE\<rparr> in
             obind (kmalloc 4096 GFP_ZERO h2) (\<lambda>(h3, pg).
               if pg = 0 then
                 obind (undo_memory_init False True mm2 h3) (\<lambda>h4.
                   Ret (- ENOMEM, proc\<lparr>mm := mm2\<lparr>pg_dir_unaligned := 0\<rparr>\<rparr>, h4))
               else
                 let mm3 = mm2\<lparr>pg_dir_unaligned := pg, pg_dir := page_align_up pg\<rparr> in
                 obind (process_map_all vmap voffset (proc\<lparr>mm := mm3\<rparr>) h3) (\<lambda>(err, mm4, h4).
                   if err \<noteq> 0 then
                     obind (undo_memory_init True True mm4 h4) (\<lambda>h5. Ret (err, proc\<lparr>mm := mm4\<rparr>, h5))
                   else Ret (0, proc\<lparr>mm := mm4\<rparr>, h4))))))"

section \<open>Destruction\<close>

text \<open>
  The search loop of \<open>process_destroy\<close>. On a match the inner loop moves the later entries
  down and leaves the index at the last entry, so the search ends.
\<close>

fun shift_down :: "u64 list \<Rightarrow> nat \<Rightarrow> nat \<Rightarrow> u64 list" where
  "shift_down ps i 0 = ps"
| "shift_down ps i (Suc n) = shift_down (ps[i := ps ! Suc i]) (Suc i) n"

fun destroy_loop :: "u64 list \<Rightarrow> nat \<Rightarrow> nat \<Rightarrow> u64 \<Rightarrow> u64 list" where
  "destroy_loop ps i 0 proc = ps"
| "destroy_loop ps i (Suc n) proc =
    (if ps ! i \<noteq> proc then destroy_loop ps (Suc i) n proc else shift_down ps i n)"

definition process_destroy :: "u64 \<Rightarrow> proc_state \<Rightarrow> proc_state outcome" where
  "process_destroy ptr s =
    (if ptr = 0 then Ret s
     else case ps_obj s ptr of
       None \<Rightarrow> Bug
     | Some proc \<Rightarrow>
         obind (free_list (map fst (take (vm_region_count (mm proc)) (vm_segments (mm proc)))) (ps_heap s))
           (\<lambda>h1. obind (kfree ptr h1) (\<lambda>h2.
             Ret (s\<lparr>ps_heap := h2, ps_obj := (ps_obj s)(ptr := None),
                    g_processes := destroy_loop (g_processes s) 0 (nat (g_processes_count s)) ptr,
                    g_processes_count := g_processes_count s - 1\<rparr>))))"

section \<open>Initialising the process table\<close>

abbreviation INIT_EL0_PSTATE :: u64 where "INIT_EL0_PSTATE \<equiv> 0x01000000"
abbreviation SIZEOF_USER_PT_REGS :: u64 where "SIZEOF_USER_PT_REGS \<equiv> 272"

definition process_calculate_init_regval ::
  "process_struct \<Rightarrow> u64 \<Rightarrow> kheap \<Rightarrow> process_struct \<times> kheap" where
  "process_calculate_init_regval proc sp_el0 h =
    (let sp0 = kernel_stack proc + THREAD_SIZE - SIZEOF_USER_PT_REGS;
         m1 = memset (heap_mem h) (unat sp0) 0 272;
         m2 = put_word m1 (unat sp0 + 256) (entry_point (image proc));
         m3 = put_word m2 (unat sp0 + 248) sp_el0;
         m4 = put_word m3 (unat sp0 + 264) INIT_EL0_PSTATE
     in (proc\<lparr>sp := sp0\<rparr>, set_heap_mem m4 h))"

definition release_mm_resource :: "process_struct \<Rightarrow> kheap \<Rightarrow> kheap outcome" where
  "release_mm_resource proc h = undo_memory_init True True (mm proc) h"

text \<open>
  One round of \<open>user_processes_struct_init\<close>: the process is initialised and gets its
  identifier, or its resources are released and it is destroyed.
\<close>

definition init_one_process :: "vmap_fn \<Rightarrow> u64 \<Rightarrow> u64 \<Rightarrow> proc_state \<Rightarrow> proc_state outcome" where
  "init_one_process vmap voffset ptr s =
    (case ps_obj s ptr of
       None \<Rightarrow> Bug
     | Some proc \<Rightarrow>
         obind (process_memory_init vmap voffset proc (ps_heap s)) (\<lambda>(err, proc1, h1).
           let s1 = s\<lparr>ps_heap := h1, ps_obj := (ps_obj s)(ptr \<mapsto> proc1)\<rparr> in
           if err \<noteq> 0 then process_destroy ptr s1
           else
             obind (process_stack_init proc1 (heap_mem h1)) (\<lambda>(err2, used, m2).
               let h2 = set_heap_mem m2 h1 in
               if err2 \<noteq> 0 then
                 obind (release_mm_resource proc1 h2) (\<lambda>h3. process_destroy ptr (s1\<lparr>ps_heap := h3\<rparr>))
               else
                 obind (kzalloc THREAD_SIZE 0 h2) (\<lambda>(h3, ks).
                   let proc2 = proc1\<lparr>kernel_stack := ks\<rparr> in
                   if ks = 0 then
                     obind (release_mm_resource proc2 h3) (\<lambda>h4. process_destroy ptr (s1\<lparr>ps_heap := h4\<rparr>))
                   else
                     case process_calculate_init_regval proc2 (PROCESS_STACK_TOP - used) h3 of
                       (proc3, h4) \<Rightarrow>
                         Ret (s1\<lparr>ps_heap := h4,
                                 ps_obj := (ps_obj s1)(ptr \<mapsto> proc3\<lparr>pid := max_pid s1\<rparr>),
                                 max_pid := max_pid s1 + 1\<rparr>)))))"

text \<open>\<open>for_each_process\<close>: at most as many rounds as there are processes at the start.\<close>

fun struct_init_loop :: "vmap_fn \<Rightarrow> u64 \<Rightarrow> nat \<Rightarrow> nat \<Rightarrow> proc_state \<Rightarrow> proc_state outcome" where
  "struct_init_loop vmap voffset i 0 s = Ret s"
| "struct_init_loop vmap voffset i (Suc n) s =
    (if int i < g_processes_count s then
       obind (init_one_process vmap voffset (g_processes s ! i) s) (\<lambda>s1.
         struct_init_loop vmap voffset (Suc i) n s1)
     else Ret s)"

definition user_processes_struct_init :: "vmap_fn \<Rightarrow> u64 \<Rightarrow> proc_state \<Rightarrow> proc_state outcome" where
  "user_processes_struct_init vmap voffset s =
    struct_init_loop vmap voffset 0 (nat (g_processes_count s)) s"

definition user_processes_init :: "vmap_fn \<Rightarrow> u64 \<Rightarrow> u64 \<Rightarrow> u64 \<Rightarrow> proc_state \<Rightarrow> proc_state outcome" where
  "user_processes_init vmap voffset blob_start blob_end s =
    obind (load_processes voffset blob_start blob_end s) (\<lambda>(count, s1).
      if count \<le> 0 then Ret s1 else user_processes_struct_init vmap voffset s1)"

end
