(* ===== verification/Quest_Sched.thy ===== *)
theory Quest_Sched
  imports Quest_Process_Init
begin

text \<open>
  The scheduler: \<open>src/schedule/sched.c\<close>, the round-robin class of
  \<open>src/schedule/scheduler/sched_round_robin.c\<close>, \<open>include/sched.h\<close>, \<open>include/preempt.h\<close>, and
  the parts of \<open>src/schedule/process.c\<close> that hand processes to it.

  The state holds the process objects by address and one record of per-CPU variables for
  every CPU. A pointer that is NULL is 0. \<open>current\<close> is the value of the register \<open>sp_el0\<close>
  while the kernel runs. An access through an address that holds no process is \<open>Bug\<close>.
\<close>

unbundle bit_operations_syntax

abbreviation MAX_CPUS :: nat where "MAX_CPUS \<equiv> 4"
abbreviation MAX_PROCESS_COUNT :: nat where "MAX_PROCESS_COUNT \<equiv> 128"
abbreviation TIME_SLICE_NS :: u64 where "TIME_SLICE_NS \<equiv> 10000000"

datatype sched_type = SCHED_ROUND_ROBIN

text \<open>The only scheduling class; its function pointers are the \<open>round_robin\<close> operations.\<close>

datatype sched_class = Sched_round_robin

record cpu_data =
  g_num_processes :: nat
  rr_processes :: "u64 list"
  g_next_process :: nat
  need_resched_flag :: u8
  entry_task :: u64
  preempt_count :: int
  idle_process :: u64
  current :: u64
  irqs_enabled :: bool

record sched_state =
  objs :: "u64 \<Rightarrow> process_struct option"
  cpus :: "nat \<Rightarrow> cpu_data"
  g_sched_classes :: "sched_class option"
  g_sched_class :: "sched_class option"

definition set_cpu :: "nat \<Rightarrow> (cpu_data \<Rightarrow> cpu_data) \<Rightarrow> sched_state \<Rightarrow> sched_state" where
  "set_cpu c f s = s\<lparr>cpus := (cpus s)(c := f (cpus s c))\<rparr>"

definition set_obj :: "u64 \<Rightarrow> (process_struct \<Rightarrow> process_struct) \<Rightarrow> sched_state \<Rightarrow> sched_state outcome" where
  "set_obj p f s =
    (case objs s p of None \<Rightarrow> Bug | Some q \<Rightarrow> Ret (s\<lparr>objs := (objs s)(p \<mapsto> f q)\<rparr>))"

section \<open>Rescheduling flag and preemption count\<close>

text \<open>\<open>set_resched\<close> stores 1 whatever its argument.\<close>

definition set_resched :: "bool \<Rightarrow> nat \<Rightarrow> sched_state \<Rightarrow> sched_state" where
  "set_resched b c s = set_cpu c (\<lambda>d. d\<lparr>need_resched_flag := 1\<rparr>) s"

definition need_resched :: "nat \<Rightarrow> sched_state \<Rightarrow> bool" where
  "need_resched c s \<longleftrightarrow> need_resched_flag (cpus s c) \<noteq> 0"

definition preempt_disable :: "nat \<Rightarrow> sched_state \<Rightarrow> sched_state" where
  "preempt_disable c s = set_cpu c (\<lambda>d. d\<lparr>preempt_count := preempt_count d + 1\<rparr>) s"

definition preempt_enable :: "nat \<Rightarrow> sched_state \<Rightarrow> sched_state" where
  "preempt_enable c s = set_cpu c (\<lambda>d. d\<lparr>preempt_count := preempt_count d - 1\<rparr>) s"

definition local_irq_enable :: "nat \<Rightarrow> sched_state \<Rightarrow> sched_state" where
  "local_irq_enable c s = set_cpu c (\<lambda>d. d\<lparr>irqs_enabled := True\<rparr>) s"

definition local_irq_disable :: "nat \<Rightarrow> sched_state \<Rightarrow> sched_state" where
  "local_irq_disable c s = set_cpu c (\<lambda>d. d\<lparr>irqs_enabled := False\<rparr>) s"

section \<open>The round-robin class\<close>

definition runnable :: "process_struct \<Rightarrow> bool" where
  "runnable p \<longleftrightarrow> state p = PROCESS_READY \<or> state p = PROCESS_RUNNING"

fun rr_pick_loop :: "(u64 \<Rightarrow> process_struct option) \<Rightarrow> u64 list \<Rightarrow> nat \<Rightarrow> nat \<Rightarrow> nat \<Rightarrow> nat option outcome" where
  "rr_pick_loop ob procs num i 0 = Ret None"
| "rr_pick_loop ob procs num i (Suc j) =
    (case ob (procs ! i) of
       None \<Rightarrow> Bug
     | Some p \<Rightarrow>
         if \<not> runnable p then rr_pick_loop ob procs num ((i + 1) mod num) j
         else Ret (Some i))"

text \<open>The result is the address of the process, or 0 for NULL.\<close>

definition round_robin_pick_next :: "nat \<Rightarrow> sched_state \<Rightarrow> (u64 \<times> sched_state) outcome" where
  "round_robin_pick_next c s =
    (let d = cpus s c; num = g_num_processes d in
     if num = 0 then Ret (0, s)
     else
       obind (rr_pick_loop (objs s) (rr_processes d) num (g_next_process d) num) (\<lambda>r.
         case r of
           None \<Rightarrow> Ret (0, s)
         | Some i \<Rightarrow>
             Ret (rr_processes d ! i, set_cpu c (\<lambda>d. d\<lparr>g_next_process := (i + 1) mod num\<rparr>) s)))"

text \<open>The array has \<open>MAX_PROCESS_COUNT\<close> entries and the code does not check for its end.\<close>

definition round_robin_load_process :: "nat \<Rightarrow> u64 \<Rightarrow> sched_state \<Rightarrow> (int \<times> sched_state) outcome" where
  "round_robin_load_process c process s =
    (if process = 0 then Ret (- EINVAL, s)
     else
       obind (set_obj process (\<lambda>p. p\<lparr>state := PROCESS_READY, cpu := word_of_nat c\<rparr>) s) (\<lambda>s1.
         let num = g_num_processes (cpus s1 c) in
         if num \<ge> MAX_PROCESS_COUNT then Bug
         else Ret (0, set_cpu c (\<lambda>d. d\<lparr>rr_processes := (rr_processes d)[num := process],
                                       g_num_processes := num + 1\<rparr>) s1)))"

text \<open>The clock: the counter value times $10^9$, wrapped to 64 bits, over the frequency.\<close>

definition COUNT_TO_NS :: "u64 \<Rightarrow> u32 \<Rightarrow> u64" where
  "COUNT_TO_NS count freq = count * 1000000000 div ucast freq"

text \<open>The argument \<open>proc\<close> of the code is not used: the current process is looked at.\<close>

definition round_robin_need_resched :: "nat \<Rightarrow> u64 \<Rightarrow> u32 \<Rightarrow> sched_state \<Rightarrow> bool outcome" where
  "round_robin_need_resched c counter freq s =
    (case objs s (current (cpus s c)) of
       None \<Rightarrow> Bug
     | Some p \<Rightarrow> Ret (COUNT_TO_NS counter freq - last_run_timestamp p > TIME_SLICE_NS))"

definition round_robin_get_timeslice :: u64 where
  "round_robin_get_timeslice = TIME_SLICE_NS"

definition round_robin_init :: int where
  "round_robin_init = 0"

section \<open>Scheduling classes\<close>

text \<open>\<open>None\<close> is the NULL class; a class carries its type, whose only value is below the limit.\<close>

definition class_type :: "sched_class \<Rightarrow> sched_type" where
  "class_type cl = (case cl of Sched_round_robin \<Rightarrow> SCHED_ROUND_ROBIN)"

definition sched_class_register :: "sched_class option \<Rightarrow> sched_state \<Rightarrow> int \<times> sched_state" where
  "sched_class_register cl s =
    (case cl of None \<Rightarrow> (- EINVAL, s) | Some c \<Rightarrow> (0, s\<lparr>g_sched_classes := Some c\<rparr>))"

definition round_robin_sched_register :: "sched_state \<Rightarrow> int \<times> sched_state" where
  "round_robin_sched_register s = sched_class_register (Some Sched_round_robin) s"

definition class_init :: "sched_class \<Rightarrow> int" where
  "class_init cl = (case cl of Sched_round_robin \<Rightarrow> round_robin_init)"

definition sched_init :: "sched_type \<Rightarrow> sched_state \<Rightarrow> int \<times> sched_state" where
  "sched_init t s =
    (case g_sched_classes s of
       None \<Rightarrow> (- ENOENT, s)
     | Some cl \<Rightarrow> (class_init cl, s\<lparr>g_sched_class := Some cl\<rparr>))"

definition pick_next :: "nat \<Rightarrow> sched_state \<Rightarrow> (u64 \<times> sched_state) outcome" where
  "pick_next c s =
    (case g_sched_class s of None \<Rightarrow> Bug | Some Sched_round_robin \<Rightarrow> round_robin_pick_next c s)"

definition sched_register_process :: "nat \<Rightarrow> u64 \<Rightarrow> sched_state \<Rightarrow> (int \<times> sched_state) outcome" where
  "sched_register_process c process s =
    (case g_sched_class s of
       None \<Rightarrow> Bug
     | Some Sched_round_robin \<Rightarrow> round_robin_load_process c process s)"

definition preempt_check_resched :: "nat \<Rightarrow> u64 \<Rightarrow> u32 \<Rightarrow> sched_state \<Rightarrow> sched_state outcome" where
  "preempt_check_resched c counter freq s =
    (case g_sched_class s of
       None \<Rightarrow> Bug
     | Some Sched_round_robin \<Rightarrow>
         obind (round_robin_need_resched c counter freq s) (\<lambda>b.
           Ret (if b then set_resched True c s else s)))"

section \<open>Running a process\<close>

definition IDLE_PREFIX :: "u8 list" where
  "IDLE_PREFIX = [105, 100, 108, 101]"

text \<open>\<open>strncmp(proc->name, "idle", 4) == 0\<close> on the NUL-terminated name.\<close>

definition is_idle_name :: "u8 list \<Rightarrow> bool" where
  "is_idle_name nm \<longleftrightarrow> take 4 nm = IDLE_PREFIX"

text \<open>
  \<open>run_process\<close> up to the switch: the current (idle) process becomes ready, the process that
  ran before is made ready if it was running, and the chosen process is entered. The result
  tells whether the idle function is called or the CPU switches to the process.
\<close>

definition preempt_entry_task :: "nat \<Rightarrow> sched_state \<Rightarrow> sched_state outcome" where
  "preempt_entry_task c s =
    (let e = entry_task (cpus s c) in
     if e = 0 then Ret s
     else case objs s e of
       None \<Rightarrow> Bug
     | Some q \<Rightarrow>
         if state q = PROCESS_RUNNING then set_obj e (\<lambda>q. q\<lparr>state := PROCESS_READY\<rparr>) s else Ret s)"

definition run_process_enter :: "nat \<Rightarrow> u64 \<Rightarrow> u64 \<Rightarrow> sched_state \<Rightarrow> (bool \<times> sched_state) outcome" where
  "run_process_enter c proc now_ns s =
    obind (set_obj (current (cpus s c)) (\<lambda>q. q\<lparr>state := PROCESS_READY\<rparr>) s) (\<lambda>s1.
    obind (preempt_entry_task c s1) (\<lambda>s2.
    obind (set_obj proc (\<lambda>q. q\<lparr>state := PROCESS_RUNNING,
                              last_wake := (if entry_task (cpus s2 c) = 0 then None
                                            else Some (entry_task (cpus s2 c))),
                              last_run_timestamp := now_ns\<rparr>) s2) (\<lambda>s3.
      let s4 = set_cpu c (\<lambda>d. d\<lparr>entry_task := proc\<rparr>) s3 in
      case objs s4 proc of
        None \<Rightarrow> Bug
      | Some q \<Rightarrow> Ret (is_idle_name (name q), s4))))"

text \<open>The end of \<open>run_process\<close>, when the CPU is back in the idle context.\<close>

definition run_process_leave :: "nat \<Rightarrow> sched_state \<Rightarrow> sched_state outcome" where
  "run_process_leave c s = set_obj (current (cpus s c)) (\<lambda>q. q\<lparr>state := PROCESS_RUNNING\<rparr>) s"

text \<open>
  \<open>schdule\<close>: the result is \<open>None\<close> when no process was picked. What happens between entering
  the process and coming back to the idle context is a state change \<open>work\<close> of the process
  itself (or of the idle function).
\<close>

definition schdule_enter :: "nat \<Rightarrow> u64 \<Rightarrow> sched_state \<Rightarrow> (bool option \<times> sched_state) outcome" where
  "schdule_enter c now_ns s =
    obind (pick_next c (preempt_enable c (local_irq_disable c s))) (\<lambda>(p, s1).
      if p = 0 then Ret (None, s1)
      else
        obind (run_process_enter c p now_ns (set_resched False c s1)) (\<lambda>(idle, s2). Ret (Some idle, s2)))"

definition schdule ::
  "(bool \<Rightarrow> sched_state \<Rightarrow> sched_state outcome) \<Rightarrow> nat \<Rightarrow> u64 \<Rightarrow> sched_state \<Rightarrow> sched_state outcome" where
  "schdule work c now_ns s =
    obind (schdule_enter c now_ns s) (\<lambda>(r, s1).
      case r of
        None \<Rightarrow> Ret s1
      | Some idle \<Rightarrow> obind (work idle s1) (\<lambda>s2. run_process_leave c s2))"

text \<open>One round of the endless loop of \<open>run_idle\<close>; \<open>wfi\<close> changes nothing.\<close>

definition run_idle_round ::
  "(bool \<Rightarrow> sched_state \<Rightarrow> sched_state outcome) \<Rightarrow> nat \<Rightarrow> u64 \<Rightarrow> sched_state \<Rightarrow> sched_state outcome" where
  "run_idle_round work c now_ns s =
    (let s1 = local_irq_enable c (preempt_disable c s) in
     if need_resched c s1 then schdule work c now_ns s1 else Ret s1)"

section \<open>Registering processes and idle threads\<close>

fun register_loop :: "u64 list \<Rightarrow> nat \<Rightarrow> nat \<Rightarrow> sched_state \<Rightarrow> sched_state outcome" where
  "register_loop procs i 0 s = Ret s"
| "register_loop procs i (Suc n) s =
    obind (sched_register_process (i mod MAX_CPUS) (procs ! i) s) (\<lambda>(err, s1).
      register_loop procs (Suc i) n s1)"

definition user_processes_register :: "u64 list \<Rightarrow> nat \<Rightarrow> sched_state \<Rightarrow> sched_state outcome" where
  "user_processes_register procs count s = register_loop procs 0 count s"

abbreviation SIZEOF_KERNEL_THREAD :: u64 where "SIZEOF_KERNEL_THREAD \<equiv> 24"

text \<open>\<open>idle->name[4] = '0' + cpu\<close> on a name of at least five bytes.\<close>

definition idle_name :: "u8 list \<Rightarrow> nat \<Rightarrow> u8 list" where
  "idle_name nm c = nm[4 := 48 + word_of_nat c]"

definition idle_thread_create ::
  "process_struct \<Rightarrow> nat \<Rightarrow> kheap \<Rightarrow> sched_state \<Rightarrow> (int \<times> kheap \<times> sched_state) outcome" where
  "idle_thread_create g_kernel_init_process c h s =
    obind (kmalloc SIZEOF_PROCESS_STRUCT 0 h) (\<lambda>(h1, idle).
      if idle = 0 then Ret (- ENOMEM, h1, s)
      else
        obind (kmalloc SIZEOF_KERNEL_THREAD 0 h1) (\<lambda>(h2, kth).
          if kth = 0 then obind (kfree idle h2) (\<lambda>h3. Ret (- ENOMEM, h3, s))
          else
            obind (kmalloc THREAD_SIZE 0 h2) (\<lambda>(h3, ks).
              if ks = 0 then obind (kfree idle h3) (\<lambda>h4. Ret (- ENOMEM, h4, s))
              else
                let p = g_kernel_init_process\<lparr>kthread := kth, sp := idle, kernel_stack := ks, pid := 0,
                          cpu := word_of_nat c, name := idle_name (name g_kernel_init_process) c\<rparr> in
                Ret (0, h3, set_cpu c (\<lambda>d. d\<lparr>idle_process := idle\<rparr>)
                              (s\<lparr>objs := (objs s)(idle \<mapsto> p)\<rparr>)))))"

definition get_idle_process :: "nat \<Rightarrow> sched_state \<Rightarrow> u64" where
  "get_idle_process c s = idle_process (cpus s c)"

text \<open>The state changes of \<open>switch_to_kernel_init_task\<close> before its jump.\<close>

definition switch_to_kernel_init_task :: "nat \<Rightarrow> u64 \<Rightarrow> sched_state \<Rightarrow> sched_state outcome" where
  "switch_to_kernel_init_task c ret s =
    (let p = idle_process (cpus s c) in
     obind (set_obj p (\<lambda>q. q\<lparr>pc := ret, sp := (kernel_stack q + kernel_stack_size q - SIZEOF_USER_PT_REGS) AND NOT 0xf\<rparr>) s)
       (\<lambda>s1. Ret (set_cpu c (\<lambda>d. d\<lparr>current := p\<rparr>) s1)))"

end
