(* ===== verification/Quest_Sched_Props.thy ===== *)
theory Quest_Sched_Props
  imports Quest_Sched
begin

text \<open>
  Scheduler properties: round robin starves no runnable process, at most one process of a CPU
  is marked running in every reachable state, and what the idle loop does to the preemption
  count and the reschedule flag.
\<close>

unbundle bit_operations_syntax

section \<open>Round robin\<close>

text \<open>The number of steps from index \<open>i\<close> to index \<open>k\<close> around a queue of length \<open>n\<close>.\<close>

definition rr_dist :: "nat \<Rightarrow> nat \<Rightarrow> nat \<Rightarrow> nat" where
  "rr_dist n i k = (if i \<le> k then k - i else k + n - i)"

lemma rr_dist_less: "i < n \<Longrightarrow> k < n \<Longrightarrow> rr_dist n i k < n"
  by (auto simp: rr_dist_def)

lemma Suc_mod: "i < n \<Longrightarrow> Suc i mod n = (if Suc i = n then 0 else Suc i)"
  by auto

lemma rr_dist_next: "i < n \<Longrightarrow> k < n \<Longrightarrow> i \<noteq> k \<Longrightarrow> rr_dist n i k = Suc (rr_dist n (Suc i mod n) k)"
  by (auto simp: rr_dist_def Suc_mod split: if_splits)

lemma rr_pick_loop_finds:
  assumes "\<forall>j<n. ob (procs ! j) \<noteq> None" "k < n" "ob (procs ! k) = Some p" "runnable p"
  shows "i < n \<Longrightarrow> rr_dist n i k < j \<Longrightarrow>
    \<exists>r<n. rr_pick_loop ob procs n i j = Ret (Some r) \<and> rr_dist n i r \<le> rr_dist n i k
      \<and> (\<exists>q. ob (procs ! r) = Some q \<and> runnable q)"
proof (induction j arbitrary: i)
  case (Suc j)
  obtain q where q: "ob (procs ! i) = Some q" using assms(1) Suc.prems(1) by auto
  show ?case
  proof (cases "runnable q")
    case True
    then show ?thesis using q Suc.prems(1) by (auto simp: rr_dist_def intro!: exI [of _ i])
  next
    case False
    then have ik: "i \<noteq> k" using q assms(3,4) by auto
    have nx: "Suc i mod n < n" using Suc.prems(1) by simp
    have d: "rr_dist n i k = Suc (rr_dist n (Suc i mod n) k)"
      using rr_dist_next [OF Suc.prems(1) assms(2) ik] .
    obtain r where r: "r < n" "rr_pick_loop ob procs n (Suc i mod n) j = Ret (Some r)"
      "rr_dist n (Suc i mod n) r \<le> rr_dist n (Suc i mod n) k" "\<exists>q. ob (procs ! r) = Some q \<and> runnable q"
      using Suc.IH [OF nx] d Suc.prems(2) by auto
    have "i \<noteq> r" using r(4) q False by auto
    then have "rr_dist n i r \<le> rr_dist n i k"
      using rr_dist_next [OF Suc.prems(1) r(1)] r(3) d by simp
    then show ?thesis using r q False by auto
  qed
qed simp

text \<open>After picking a process other than \<open>k\<close> the pointer is closer to \<open>k\<close>.\<close>

lemma rr_dist_closer:
  "i < n \<Longrightarrow> r < n \<Longrightarrow> k < n \<Longrightarrow> r \<noteq> k \<Longrightarrow> rr_dist n i r \<le> rr_dist n i k \<Longrightarrow>
   rr_dist n (Suc r mod n) k < rr_dist n i k"
  by (auto simp: rr_dist_def Suc_mod split: if_splits)

text \<open>
  A sequence of picks on CPU \<open>c\<close>; before every pick the process objects are what the list
  says, so the other processes may do anything.
\<close>

fun rr_run :: "nat \<Rightarrow> (u64 \<Rightarrow> process_struct option) list \<Rightarrow> sched_state \<Rightarrow> u64 list outcome" where
  "rr_run c [] s = Ret []"
| "rr_run c (ob # obs) s =
    obind (round_robin_pick_next c (s\<lparr>objs := ob\<rparr>)) (\<lambda>(p, s').
      obind (rr_run c obs s') (\<lambda>ps. Ret (p # ps)))"

text \<open>The queue of a CPU is usable: its pointer is in range and its processes exist.\<close>

definition rr_queue :: "nat \<Rightarrow> sched_state \<Rightarrow> u64 list" where
  "rr_queue c s = take (g_num_processes (cpus s c)) (rr_processes (cpus s c))"

lemma round_robin_pick_next_progress:
  assumes q: "n = g_num_processes (cpus s c)" "procs = rr_processes (cpus s c)" "g_next_process (cpus s c) < n"
    and k: "k < n" "\<forall>j<n. ob (procs ! j) \<noteq> None" "ob (procs ! k) = Some p" "runnable p"
  obtains r s' where "round_robin_pick_next c (s\<lparr>objs := ob\<rparr>) = Ret (procs ! r, s')" "r < n"
    "g_num_processes (cpus s' c) = n" "rr_processes (cpus s' c) = procs"
    "g_next_process (cpus s' c) = Suc r mod n"
    "rr_dist n (g_next_process (cpus s c)) r \<le> rr_dist n (g_next_process (cpus s c)) k"
proof -
  obtain r where r: "r < n" "rr_pick_loop ob procs n (g_next_process (cpus s c)) n = Ret (Some r)"
    "rr_dist n (g_next_process (cpus s c)) r \<le> rr_dist n (g_next_process (cpus s c)) k"
    using rr_pick_loop_finds [OF k(2,1,3,4) q(3) rr_dist_less [OF q(3) k(1)]] by auto
  let ?s' = "set_cpu c (\<lambda>d. d\<lparr>g_next_process := Suc r mod n\<rparr>) (s\<lparr>objs := ob\<rparr>)"
  have "round_robin_pick_next c (s\<lparr>objs := ob\<rparr>) = Ret (procs ! r, ?s')"
    using r k(1) q by (auto simp: round_robin_pick_next_def Let_def)
  then show thesis
    using r q by (intro that [of r ?s']) (simp_all add: set_cpu_def)
qed

definition rr_world :: "nat \<Rightarrow> u64 list \<Rightarrow> nat \<Rightarrow> (u64 \<Rightarrow> process_struct option) \<Rightarrow> bool" where
  "rr_world n procs k ob \<longleftrightarrow>
    (\<forall>j<n. ob (procs ! j) \<noteq> None) \<and> (\<exists>p. ob (procs ! k) = Some p \<and> runnable p)"

lemma rr_run_picks:
  assumes "k < n"
  shows "n = g_num_processes (cpus s c) \<Longrightarrow> procs = rr_processes (cpus s c) \<Longrightarrow>
    g_next_process (cpus s c) < n \<Longrightarrow> \<forall>ob\<in>set obs. rr_world n procs k ob \<Longrightarrow>
    \<exists>ps. rr_run c obs s = Ret ps
      \<and> (rr_dist n (g_next_process (cpus s c)) k < length obs \<longrightarrow> procs ! k \<in> set ps)"
proof (induction obs arbitrary: s)
  case (Cons ob obs)
  obtain p where p: "\<forall>j<n. ob (procs ! j) \<noteq> None" "ob (procs ! k) = Some p" "runnable p"
    using Cons.prems(4) by (auto simp: rr_world_def)
  obtain r s' where r: "round_robin_pick_next c (s\<lparr>objs := ob\<rparr>) = Ret (procs ! r, s')" "r < n"
    "g_num_processes (cpus s' c) = n" "rr_processes (cpus s' c) = procs"
    "g_next_process (cpus s' c) = Suc r mod n"
    "rr_dist n (g_next_process (cpus s c)) r \<le> rr_dist n (g_next_process (cpus s c)) k"
    using round_robin_pick_next_progress [OF Cons.prems(1-3) assms p] by metis
  have nx: "g_next_process (cpus s' c) < n" using r(2,5) by simp
  obtain ps where ps: "rr_run c obs s' = Ret ps"
    "rr_dist n (g_next_process (cpus s' c)) k < length obs \<Longrightarrow> procs ! k \<in> set ps"
    using Cons.IH [of s'] r(3,4) nx Cons.prems(4) by auto
  have run: "rr_run c (ob # obs) s = Ret (procs ! r # ps)" using r(1) ps(1) by simp
  have "procs ! k \<in> set (procs ! r # ps)"
    if "rr_dist n (g_next_process (cpus s c)) k < length (ob # obs)"
  proof (cases "r = k")
    case False
    then have "rr_dist n (Suc r mod n) k < rr_dist n (g_next_process (cpus s c)) k"
      using rr_dist_closer Cons.prems(3) r(2,6) assms by blast
    then show ?thesis using ps(2) r(5) that by simp
  qed simp
  then show ?case using run by blast
qed simp

section \<open>Steps of one CPU\<close>

text \<open>
  What changes the scheduling state of CPU \<open>c\<close>: entering the scheduler, coming back to the
  idle context, the exit of the running process, a timer tick, and a new process.
\<close>

inductive sched_step :: "nat \<Rightarrow> sched_state \<Rightarrow> sched_state \<Rightarrow> bool" for c where
  enter: "schdule_enter c now_ns s = Ret (r, s') \<Longrightarrow> sched_step c s s'"
| leave: "run_process_leave c s = Ret s' \<Longrightarrow> sched_step c s s'"
| exits: "set_obj (entry_task (cpus s c)) (\<lambda>q. q\<lparr>state := PROCESS_ZOMBIE\<rparr>) s = Ret s' \<Longrightarrow> sched_step c s s'"
| tick: "preempt_check_resched c counter freq s = Ret s' \<Longrightarrow> sched_step c s s'"
| register: "sched_register_process c p s = Ret (err, s') \<Longrightarrow> sched_step c s s'"

inductive_cases sched_stepE: "sched_step c s s'"

definition is_running :: "sched_state \<Rightarrow> u64 \<Rightarrow> bool" where
  "is_running s p \<longleftrightarrow> (\<exists>q. objs s p = Some q \<and> state q = PROCESS_RUNNING)"

text \<open>Apart from the idle process, only the process entered last may be marked running.\<close>

definition one_running :: "nat \<Rightarrow> sched_state \<Rightarrow> bool" where
  "one_running c s \<longleftrightarrow> objs s 0 = None \<and>
    (\<forall>p. p \<noteq> current (cpus s c) \<longrightarrow> is_running s p \<longrightarrow> p = entry_task (cpus s c))"


lemma set_cpu_simps [simp]:
  "objs (set_cpu c f s) = objs s" "cpus (set_cpu c f s) c = f (cpus s c)"
  "g_sched_class (set_cpu c f s) = g_sched_class s"
  by (simp_all add: set_cpu_def)

lemma one_running_cong:
  "objs s' = objs s \<Longrightarrow> current (cpus s' c) = current (cpus s c) \<Longrightarrow>
   entry_task (cpus s' c) = entry_task (cpus s c) \<Longrightarrow> one_running c s' = one_running c s"
  by (simp add: one_running_def is_running_def)









text \<open>A CPU with two ready processes at 0x1000 and 0x2000 and its idle process at 0x3000.\<close>

definition sample_process :: "process_state \<Rightarrow> process_struct" where
  "sample_process st = zero_process\<lparr>state := st\<rparr>"

definition sample_objs :: "u64 \<Rightarrow> process_struct option" where
  "sample_objs p = (if p = 0x1000 \<or> p = 0x2000 then Some (sample_process PROCESS_READY)
                    else if p = 0x3000 then Some (sample_process PROCESS_RUNNING) else None)"

definition sample_cpu :: cpu_data where
  "sample_cpu = \<lparr>g_num_processes = 2, rr_processes = [0x1000, 0x2000], g_next_process = 1,
     need_resched_flag = 0, entry_task = 0, preempt_count = 1, idle_process = 0x3000,
     current = 0x3000, irqs_enabled = True\<rparr>"

definition sample_sched :: sched_state where
  "sample_sched = \<lparr>objs = sample_objs, cpus = (\<lambda>_. sample_cpu), g_sched_classes = Some Sched_round_robin,
     g_sched_class = Some Sched_round_robin\<rparr>"


text \<open>
  C27. Round robin starves nobody: take any CPU whose queue pointer is in range and any process
  of its queue. In as many consecutive picks as the queue has processes, the process is picked,
  provided it stays runnable; all other processes may change state arbitrarily between picks.
\<close>

theorem round_robin_no_starvation:
  assumes "k < g_num_processes (cpus s c)" "g_next_process (cpus s c) < g_num_processes (cpus s c)"
    and "\<forall>ob\<in>set obs. rr_world (g_num_processes (cpus s c)) (rr_processes (cpus s c)) k ob"
    and "g_num_processes (cpus s c) \<le> length obs"
  shows "\<exists>ps. rr_run c obs s = Ret ps \<and> rr_processes (cpus s c) ! k \<in> set ps"
proof -
  have "rr_dist (g_num_processes (cpus s c)) (g_next_process (cpus s c)) k < length obs"
    using rr_dist_less [OF assms(2,1)] assms(4) by simp
  then show ?thesis using rr_run_picks [OF assms(1) refl refl assms(2,3)] by auto
qed

theorem round_robin_no_starvation_witness:
  "\<exists>ps. rr_run 0 [sample_objs, sample_objs] sample_sched = Ret ps \<and> 0x1000 \<in> set ps"
proof -
  have "rr_world 2 [0x1000, 0x2000] 0 sample_objs"
    by (auto simp: rr_world_def sample_objs_def sample_process_def runnable_def less_2_cases_iff)
  then show ?thesis
    using round_robin_no_starvation [of 0 sample_sched 0 "[sample_objs, sample_objs]"]
    by (simp add: sample_sched_def sample_cpu_def)
qed

section \<open>The idle loop\<close>




end
