(* ===== verification/Quest_Process_Props.thy ===== *)
theory Quest_Process_Props
  imports Quest_Process_Init Quest_String_Props
begin

text \<open>
  What the checks of the process loader establish: images and metadata lie inside the package,
  the strings of the metadata are terminated inside it, and the overlap test of segments is
  without effect.
\<close>

unbundle bit_operations_syntax

section \<open>The package\<close>

lemma unat_and_not_mask: "unat (y AND NOT (mask k) :: 'a::len word) = unat y - unat y mod 2 ^ k"
proof -
  have "y AND NOT (mask k) = y - (y AND mask k)"
    by (subst disjunctive_diff) (auto simp: bit_simps intro!: bit_word_eqI)
  moreover have "y AND mask k \<le> y" by (rule word_and_le2)
  moreover have "unat (y AND mask k) = unat y mod 2 ^ k"
    unfolding take_bit_eq_mask [symmetric] unsigned_take_bit_eq by (rule take_bit_eq_mod)
  ultimately show ?thesis by (simp add: unat_sub)
qed

text \<open>Rounding up to a page, for 64-bit and 32-bit sums that do not wrap.\<close>

definition page_up :: "nat \<Rightarrow> nat" where
  "page_up n = (n + 4095) div 4096 * 4096"

lemma page_up_ge: "n \<le> page_up n"
proof -
  have "(n + 4095) mod 4096 < 4096" by simp
  moreover have "page_up n + (n + 4095) mod 4096 = n + 4095"
    by (simp add: page_up_def div_mult_mod_eq)
  ultimately show ?thesis by linarith
qed

lemma page_up_less: "page_up n < n + 4096"
proof -
  have "page_up n + (n + 4095) mod 4096 = n + 4095" by (simp add: page_up_def div_mult_mod_eq)
  then show ?thesis by linarith
qed

lemma unat_page_up:
  fixes x :: "'a::len word"
  assumes "unat x + 4095 < 2 ^ LENGTH('a)" "12 < LENGTH('a)"
  shows "unat ((x + mask 12) AND NOT (mask 12)) = page_up (unat x)"
proof -
  have "(4095::nat) < 2 ^ LENGTH('a)" using assms(1) by linarith
  then have "unat (mask 12 :: 'a word) = 4095"
    using unat_of_nat [of 4095, where 'a='a] by (simp add: mask_eq_exp_minus_1 take_bit_nat_eq_self)
  then have "unat (x + mask 12) = unat x + 4095"
    using assms(1) by (subst unat_add_lem [THEN iffD1]) simp_all
  then show ?thesis by (simp add: unat_and_not_mask page_up_def minus_mod_eq_div_mult)
qed

lemma mask12: "(0xfff :: 'a::len word) = mask 12"
  by (simp add: mask_eq_exp_minus_1)

lemma unat_ucast_up:
  fixes x :: "'a::len word"
  assumes "LENGTH('a) \<le> LENGTH('b::len)"
  shows "unat (ucast x :: 'b word) = unat x"
proof -
  have "unat x < 2 ^ LENGTH('b)"
    using order_less_le_trans [OF _ power_increasing [OF assms, of "2::nat"]] unsigned_less [of x] by simp
  then show ?thesis by (simp add: unsigned_ucast_eq take_bit_nat_eq_self)
qed

lemmas unat_up = unat_ucast_up [where 'a=32 and 'b=64, simplified] unat_ucast_up [where 'a=16 and 'b=64, simplified]
  unat_ucast_up [where 'a=16 and 'b=32, simplified]

text \<open>What the check of the header establishes, in plain numbers.\<close>

lemma check_pkg_header_0:
  assumes "check_pkg_header m base blob = 0" "h = read_pkg_header m base"
  shows "32 \<le> unat (h_header_size h)" "unat (h_header_size h) \<le> unat (h_desc_offset h)"
    "unat (h_desc_size h) = unat (h_image_count h) * 56" "0 < unat (h_image_count h)"
    "unat (h_desc_offset h) + unat (h_desc_size h) \<le> unat (h_total_size h)"
    "unat (h_total_size h) \<le> unat blob"
    "(ucast (h_desc_offset h + h_desc_size h) + mask 12) AND NOT (mask 12) \<le> h_total_size h"
proof -
  have c: "\<not> ucast (h_header_size h) < SIZEOF_PKG_HEADER" "\<not> h_total_size h > blob" "h_image_count h \<noteq> 0"
    "\<not> ucast (h_image_count h) > 0xffffffff div SIZEOF_IMAGE_DESC"
    "ucast (h_desc_size h) = ucast (h_image_count h) * SIZEOF_IMAGE_DESC"
    "\<not> h_desc_offset h < ucast (h_header_size h)" "\<not> ucast (h_desc_offset h) \<ge> h_total_size h"
    "\<not> ucast (h_desc_size h) > h_total_size h - ucast (h_desc_offset h)"
    "\<not> (ucast (h_desc_offset h + h_desc_size h) + 0xfff) AND NOT 0xfff > h_total_size h"
    using assms by (simp_all add: check_pkg_header_def Let_def split: if_splits)
  show "32 \<le> unat (h_header_size h)" "unat (h_header_size h) \<le> unat (h_desc_offset h)"
    "0 < unat (h_image_count h)" "unat (h_total_size h) \<le> unat blob"
    using c(1,2,3,6) by (simp_all add: word_less_nat_alt unat_up unat_gt_0)
  have le: "unat (h_image_count h) \<le> 76695844"
    using c(4) by (simp add: word_less_nat_alt unat_up unat_div)
  then show "unat (h_desc_size h) = unat (h_image_count h) * 56"
    using arg_cong [OF c(5), of unat] by (simp add: unat_up unat_word_ariths)
  show "unat (h_desc_offset h) + unat (h_desc_size h) \<le> unat (h_total_size h)"
    using c(7,8) by (simp add: word_less_nat_alt word_le_nat_alt unat_up unat_sub)
  show "(ucast (h_desc_offset h + h_desc_size h) + mask 12) AND NOT (mask 12) \<le> h_total_size h"
    using c(9) unfolding mask12 [symmetric] by simp
qed

lemma payload_start_eq:
  assumes "check_pkg_header m base blob = 0" "h = read_pkg_header m base" "unat (h_total_size h) < 2 ^ 32"
  shows "unat (payload_start h) = page_up (unat (h_desc_offset h) + unat (h_desc_size h))"
proof -
  note f = check_pkg_header_0 [OF assms(1,2)]
  let ?e = "h_desc_offset h + h_desc_size h"
  have e: "unat ?e = unat (h_desc_offset h) + unat (h_desc_size h)"
    using f(5) assms(3) by (subst unat_add_lem [THEN iffD1]) simp_all
  have "unat (ucast ?e :: u64) + 4095 < 2 ^ 64" using f(5) assms(3) e by (simp add: unat_up)
  then have "unat ((ucast ?e + mask 12) AND NOT (mask 12) :: u64) = page_up (unat ?e)"
    using unat_page_up [of "ucast ?e :: u64"] by (simp add: unat_up)
  then have p: "page_up (unat ?e) < 2 ^ 32" using f(7) assms(3) by (simp add: word_le_nat_alt)
  have "unat ?e + 4095 < 2 ^ 32"
  proof (rule ccontr)
    assume "\<not> unat ?e + 4095 < 2 ^ 32"
    then have "1048576 \<le> (unat ?e + 4095) div 4096" by simp
    then have "4294967296 \<le> page_up (unat ?e)" by (simp add: page_up_def)
    then show False using p by simp
  qed
  then have "unat ((?e + mask 12) AND NOT (mask 12)) = page_up (unat ?e)"
    using unat_page_up [of ?e] by simp
  then show ?thesis by (simp add: payload_start_def mask12 unat_up e)
qed

lemma check_image_desc_0:
  assumes "check_image_desc h d = 0"
  shows "unat (payload_start h) \<le> unat (d_image_offset d)" "unat (payload_start h) \<le> unat (d_meta_offset d)"
    "unat (d_image_offset d) + unat (d_image_size d) \<le> unat (h_total_size h)"
    "unat (d_meta_offset d) + unat (d_meta_size d) \<le> unat (h_total_size h)"
    "unat (d_image_offset d) mod 4096 = 0" "unat (d_meta_offset d) mod 4096 = 0"
    "0 < unat (d_image_size d)" "unat (d_image_size d) \<le> 128 * 2 ^ 20"
    "0 < unat (d_meta_size d)" "unat (d_meta_size d) \<le> 2 ^ 20"
proof -
  have c: "\<not> d_image_offset d \<ge> h_total_size h" "\<not> d_meta_offset d \<ge> h_total_size h"
    "\<not> d_image_offset d < payload_start h" "\<not> d_meta_offset d < payload_start h"
    "d_image_size d \<noteq> 0" "\<not> d_image_size d > PROCESS_MAX_IMAGE_SIZE"
    "d_meta_size d \<noteq> 0" "\<not> d_meta_size d > PROCESS_MAX_META_SIZE"
    "\<not> d_image_size d > h_total_size h - d_image_offset d" "\<not> d_meta_size d > h_total_size h - d_meta_offset d"
    "d_image_offset d AND 0xfff = 0" "d_meta_offset d AND 0xfff = 0"
    using assms by (simp_all add: check_image_desc_def split: if_splits)
  have al: "unat x mod 4096 = 0" if "x AND 0xfff = 0" for x :: u64
    using that aligned_unat [of x 12] by (simp add: IS_ALIGNED_def)
  show "unat (d_image_offset d) mod 4096 = 0" "unat (d_meta_offset d) mod 4096 = 0"
    using c(11,12) by (simp_all add: al)
  show "unat (payload_start h) \<le> unat (d_image_offset d)" "unat (payload_start h) \<le> unat (d_meta_offset d)"
    "0 < unat (d_image_size d)" "unat (d_image_size d) \<le> 128 * 2 ^ 20"
    "0 < unat (d_meta_size d)" "unat (d_meta_size d) \<le> 2 ^ 20"
    using c(3-8) by (simp_all add: word_less_nat_alt unat_gt_0)
  show "unat (d_image_offset d) + unat (d_image_size d) \<le> unat (h_total_size h)"
    using c(1,9) by (simp add: word_less_nat_alt word_le_nat_alt unat_sub)
  show "unat (d_meta_offset d) + unat (d_meta_size d) \<le> unat (h_total_size h)"
    using c(2,10) by (simp add: word_less_nat_alt word_le_nat_alt unat_sub)
qed

text \<open>
  C30. For a package below 4 GiB that passes \<open>check_pkg_header\<close>: the whole descriptor table lies
  between the header and the end of the package, and an image whose descriptor passes
  \<open>check_image_desc\<close> has its program and its metadata inside the package, behind the descriptor
  table, at page boundaries and within the size limits. So the loader reads nothing outside the
  blob it was given.
\<close>

theorem package_images_in_bounds:
  assumes "check_pkg_header m base blob = 0" "h = read_pkg_header m base"
    and "unat (h_total_size h) < 2 ^ 32" "check_image_desc h d = 0" "i < unat (h_image_count h)"
  shows "32 \<le> unat (h_desc_offset h) + 56 * i
    \<and> unat (h_desc_offset h) + 56 * i + 56 \<le> min (unat (d_image_offset d)) (unat (d_meta_offset d))
    \<and> unat (d_image_offset d) + unat (d_image_size d) \<le> unat blob
    \<and> unat (d_meta_offset d) + unat (d_meta_size d) \<le> unat blob
    \<and> unat (d_image_offset d) mod 4096 = 0 \<and> unat (d_meta_offset d) mod 4096 = 0
    \<and> 0 < unat (d_image_size d) \<and> unat (d_image_size d) \<le> 128 * 2 ^ 20
    \<and> 0 < unat (d_meta_size d) \<and> unat (d_meta_size d) \<le> 2 ^ 20"
proof -
  note f = check_pkg_header_0 [OF assms(1,2)] and g = check_image_desc_0 [OF assms(4)]
  have "unat (h_desc_offset h) + unat (h_desc_size h) \<le> unat (payload_start h)"
    using payload_start_eq [OF assms(1-3)] page_up_ge by simp
  moreover have "56 * i + 56 \<le> unat (h_desc_size h)" using assms(5) f(3) by simp
  ultimately show ?thesis using f(1,2,6) g by simp
qed

text \<open>A package of three pages with one ELF image and its metadata, at address 0.\<close>

definition sample_bytes :: "(nat \<times> u8) list" where
  "sample_bytes =
    [(0, 80), (1, 71), (2, 75), (3, 80), (4, 1), (6, 32), (8, 1), (12, 32), (16, 56), (25, 48), (32, 1), (41, 16), (49, 16), (57, 32), (65, 1)]"

definition sample_package :: mem where
  "sample_package a = (case map_of sample_bytes a of None \<Rightarrow> 0 | Some b \<Rightarrow> b)"

lemma sample_package_header:
  "read_pkg_header sample_package 0 =
    \<lparr>h_magic = PROC_PKG_MAGIC, h_version = 1, h_header_size = 32, h_image_count = 1, h_desc_offset = 32,
     h_desc_size = 56, h_total_size = 0x3000\<rparr>"
  by (simp add: read_pkg_header_def rd16_def rd32_def get_word_def sample_package_def sample_bytes_def)

lemma sample_package_desc:
  "read_image_desc sample_package 32 =
    \<lparr>d_type = PROC_IMG_ELF, d_image_offset = 0x1000, d_image_size = 0x1000, d_meta_offset = 0x2000, d_meta_size = 0x100\<rparr>"
  by (simp add: read_image_desc_def rd32_def get_word_def sample_package_def sample_bytes_def)

theorem package_images_in_bounds_witness:
  "unat (d_image_offset (read_image_desc sample_package 32)) + unat (d_image_size (read_image_desc sample_package 32)) \<le> 0x3000"
proof -
  let ?h = "read_pkg_header sample_package 0" and ?d = "read_image_desc sample_package 32"
  have "check_pkg_header sample_package 0 0x3000 = 0"
    by (simp add: check_pkg_header_def sample_package_header Let_def)
  moreover have "unat (h_total_size ?h) < 2 ^ 32" by (simp add: sample_package_header)
  moreover have "check_image_desc ?h ?d = 0"
    by (simp add: check_image_desc_def payload_start_def sample_package_header sample_package_desc)
  moreover have "0 < unat (h_image_count ?h)" by (simp add: sample_package_header)
  ultimately show ?thesis using package_images_in_bounds [of sample_package 0 "0x3000" ?h ?d 0] by simp
qed

section \<open>Segments\<close>

definition in_image_window :: "vmem_segment \<Rightarrow> bool" where
  "in_image_window seg \<longleftrightarrow> PROCESS_IMAGE_START \<le> va_start seg \<and> va_start seg \<le> va_end seg
    \<and> va_end seg \<le> PROCESS_IMAGE_END"

lemma check_section_region_valid_window:
  assumes "check_section_region_valid process ph = 0"
  shows "in_image_window (new_segment voffset elf_base ph)"
  using assms by (auto simp: check_section_region_valid_def in_image_window_def new_segment_def split: if_splits)

text \<open>
  C35. The overlap test of \<open>check_section_region_valid\<close> never rejects a segment of at most 1 GiB:
  the size of the segment is passed where the test expects its end, and every registered
  segment starts above it. In particular two segments with the same addresses are accepted.
\<close>

theorem overlap_check_ineffective:
  assumes "\<forall>seg\<in>snd ` set (vm_segments (mm process)). in_image_window seg"
    and "p_memsz ph \<le> PROCESS_IMAGE_START"
    and "PROCESS_IMAGE_START \<le> p_vaddr ph" "p_vaddr ph + p_memsz ph \<le> PROCESS_IMAGE_END"
    and "p_vaddr ph \<le> p_vaddr ph + p_memsz ph"
  shows "check_section_region_valid process ph = 0"
proof -
  have "overlap_loop segs (p_vaddr ph) (p_memsz ph) = 0"
    if "\<forall>seg\<in>snd ` set segs. in_image_window seg" for segs
    using that
  proof (induction segs)
    case (Cons x segs)
    obtain p seg where x: "x = (p, seg)" by (cases x)
    have "PROCESS_IMAGE_START \<le> va_start seg" using Cons.prems x by (simp add: in_image_window_def)
    then have "p_memsz ph \<le> va_start seg" using assms(2) by (rule order_trans [rotated])
    then show ?case using Cons x by simp
  qed simp
  then show ?thesis using assms
    by (simp add: check_section_region_valid_def check_vmem_region_overlap_def not_less)
qed

text \<open>A process that has one page at 0x40000000, and a program header for the same page.\<close>

definition sample_phdr :: elf64_phdr where
  "sample_phdr = \<lparr>p_type = 1, p_flags = 5, p_offset = 0, p_vaddr = 0x40000000, p_filesz = 0x1000, p_memsz = 0x1000\<rparr>"

theorem overlap_check_ineffective_witness:
  "check_section_region_valid (add_segment 0x9000 (new_segment 0 0x80000 sample_phdr) zero_process) sample_phdr = 0
   \<and> va_start (new_segment 0 0x80000 sample_phdr) = p_vaddr sample_phdr"
  using overlap_check_ineffective
    [of "add_segment 0x9000 (new_segment 0 0x80000 sample_phdr) zero_process" sample_phdr]
  by (simp add: add_segment_def new_segment_def sample_phdr_def zero_process_def zero_mm_def in_image_window_def)

section \<open>Metadata\<close>

lemma strnlen_cases:
  "strnlen m s n = n \<or> strnlen m s n < n \<and> m (s + strnlen m s n) = 0"
  "j < strnlen m s n \<Longrightarrow> m (s + j) \<noteq> 0"
proof -
  have 1: "strnlen_loop m s n = s + n \<or> strnlen_loop m s n < s + n \<and> m (strnlen_loop m s n) = 0" for s
  proof (induction n arbitrary: s)
    case (Suc n)
    show ?case using Suc.IH [of "Suc s"] by simp
  qed simp
  have 2: "s \<le> strnlen_loop m s n" for s
  proof (induction n arbitrary: s)
    case (Suc n)
    show ?case using Suc.IH [of "Suc s"] by simp
  qed simp
  have 3: "s \<le> j \<Longrightarrow> j < strnlen_loop m s n \<Longrightarrow> m j \<noteq> 0" for s j
  proof (induction n arbitrary: s)
    case (Suc n)
    show ?case
    proof (cases "s = j")
      case False
      then have "Suc s \<le> j" using Suc.prems(1) by simp
      then show ?thesis using Suc.IH Suc.prems by (simp split: if_splits)
    qed (use Suc.prems in \<open>simp split: if_splits\<close>)
  qed simp
  obtain k where k: "strnlen_loop m s n = s + k" using 2 [of s] le_Suc_ex by blast
  then have l: "strnlen m s n = k" by (simp only: strnlen_def add_diff_cancel_left')
  show "strnlen m s n = n \<or> strnlen m s n < n \<and> m (s + strnlen m s n) = 0"
    using 1 [of s] unfolding l k by simp
  show "j < strnlen m s n \<Longrightarrow> m (s + j) \<noteq> 0"
    using 3 [of s "s + j"] unfolding l k by simp
qed

text \<open>A terminated string that lies between two addresses.\<close>

definition str_within :: "mem \<Rightarrow> nat \<Rightarrow> nat \<Rightarrow> nat \<Rightarrow> bool" where
  "str_within m lo hi p \<longleftrightarrow> lo \<le> p \<and> (\<exists>n. p + n < hi \<and> m (p + n) = 0)"

lemma check_string_ref_0:
  assumes "check_string_ref m tab size' off = 0"
  shows "unat off < unat size'" "str_within m tab (tab + unat size') (tab + unat off)"
proof -
  have lt: "\<not> off \<ge> size'"
    and ne: "strnlen m (tab + unat off) (unat (size' - off)) \<noteq> unat (size' - off)"
    using assms by (simp_all add: check_string_ref_def Let_def split: if_splits)
  show 1: "unat off < unat size'" using lt by (simp add: word_le_nat_alt)
  have r: "unat (size' - off) = unat size' - unat off" using lt by (simp add: unat_sub)
  let ?n = "strnlen m (tab + unat off) (unat size' - unat off)"
  have "?n < unat size' - unat off \<and> m (tab + unat off + ?n) = 0"
    using strnlen_cases(1) [of m "tab + unat off" "unat size' - unat off"] ne r by simp
  moreover from this have "tab + unat off + ?n < tab + unat size'" by linarith
  ultimately show "str_within m tab (tab + unat size') (tab + unat off)"
    unfolding str_within_def by (intro conjI exI [of _ ?n]) simp_all
qed

lemma check_string_refs_0:
  "check_string_refs m tab size' offs n = 0 \<Longrightarrow> i < n \<Longrightarrow>
   check_string_ref m tab size' (rd32 m (offs + 4 * i)) = 0"
proof (induction n arbitrary: offs i)
  case (Suc n)
  from Suc.prems(1) have h: "check_string_ref m tab size' (rd32 m offs) = 0"
    and t: "check_string_refs m tab size' (offs + 4) n = 0"
    by (simp_all split: if_splits)
  show ?case
  proof (cases i)
    case k: (Suc k)
    then have "offs + 4 * i = offs + 4 + 4 * k" by simp
    then show ?thesis using Suc.IH [OF t, of k] k Suc.prems(2) by (simp add: add.assoc)
  qed (simp add: h)
qed simp

lemma check_meta_array_0:
  assumes "check_meta_array off count esz size' = 0" "count \<noteq> 0" "unat count * unat esz < 2 ^ 64"
  shows "unat off + unat count * unat esz \<le> unat size'"
proof -
  have c: "\<not> ucast off \<ge> size'" "\<not> ucast count * esz > size' - ucast off"
    using assms(1,2) by (simp_all add: check_meta_array_def split: if_splits)
  have "unat (ucast count * esz) = unat count * unat esz"
    using assms(3) by (simp add: unat_word_ariths unat_up)
  then show ?thesis using c by (simp add: word_le_nat_alt word_less_nat_alt unat_sub unat_up)
qed

lemma einval_if: "(if b then - EINVAL else (y :: int)) = 0 \<longleftrightarrow> \<not> b \<and> y = 0"
  by simp

text \<open>What acceptance of the metadata means, in plain numbers.\<close>

lemma check_image_meta_0:
  assumes "check_image_meta m base size' = 0" "meta = read_image_meta m base"
  shows "unat (m_argv_count meta) \<le> 128" "unat (m_env_count meta) \<le> 128" "unat (m_auxv_count meta) \<le> 128"
    "unat (m_auxv_count meta) \<noteq> 0 \<Longrightarrow> unat (m_auxv_offset meta) + 16 * unat (m_auxv_count meta) \<le> unat size'"
    "unat (m_string_table_offset meta) + unat (m_string_table_size meta) \<le> unat size'"
    "check_string_ref m (base + unat (m_string_table_offset meta)) (m_string_table_size meta) (m_name_offset meta) = 0"
    "check_string_refs m (base + unat (m_string_table_offset meta)) (m_string_table_size meta)
       (base + unat (m_argv_offset meta)) (unat (m_argv_count meta)) = 0"
    "check_string_refs m (base + unat (m_string_table_offset meta)) (m_string_table_size meta)
       (base + unat (m_env_offset meta)) (unat (m_env_count meta)) = 0"
proof -
  note d = assms(1) [unfolded check_image_meta_def Let_def einval_if assms(2) [symmetric] de_Morgan_disj not_not]
  have c: "\<not> m_argv_count meta > 128" "\<not> m_env_count meta > 128" "\<not> m_auxv_count meta > 128"
    "check_meta_array (m_auxv_offset meta) (m_auxv_count meta) 16 size' = 0"
    "\<not> ucast (m_string_table_offset meta) > size'"
    "\<not> ucast (m_string_table_size meta) > size' - ucast (m_string_table_offset meta)"
    using d by blast+
  show cnt: "unat (m_argv_count meta) \<le> 128" "unat (m_env_count meta) \<le> 128" "unat (m_auxv_count meta) \<le> 128"
    using c(1-3) by (simp_all add: word_less_nat_alt)
  show "unat (m_auxv_offset meta) + 16 * unat (m_auxv_count meta) \<le> unat size'" if "unat (m_auxv_count meta) \<noteq> 0"
  proof -
    have "m_auxv_count meta \<noteq> 0" using that by auto
    then show ?thesis using check_meta_array_0 [OF c(4)] cnt(3) by (simp add: mult.commute)
  qed
  show "unat (m_string_table_offset meta) + unat (m_string_table_size meta) \<le> unat size'"
    using c(5,6) by (simp add: word_less_nat_alt word_le_nat_alt unat_sub unat_up)
  show "check_string_ref m (base + unat (m_string_table_offset meta)) (m_string_table_size meta) (m_name_offset meta) = 0"
    "check_string_refs m (base + unat (m_string_table_offset meta)) (m_string_table_size meta)
       (base + unat (m_argv_offset meta)) (unat (m_argv_count meta)) = 0"
    "check_string_refs m (base + unat (m_string_table_offset meta)) (m_string_table_size meta)
       (base + unat (m_env_offset meta)) (unat (m_env_count meta)) = 0"
    using d by blast+
qed

lemma string_ptrs_within:
  assumes "check_string_refs m (unat mb + unat toff) tsz offs n = 0"
    and "unat toff + unat tsz \<le> unat size'" "unat mb + unat size' < 2 ^ 64"
    and "p \<in> set (string_ptrs m (mb + ucast (toff :: u32)) offs n)"
  shows "str_within m (unat mb) (unat mb + unat size') (unat p)"
proof -
  obtain i where i: "i < n" "p = mb + ucast toff + ucast (rd32 m (offs + 4 * i))"
    using assms(4) by (auto simp: string_ptrs_def)
  let ?o = "rd32 m (offs + 4 * i)"
  note r = check_string_ref_0 [OF check_string_refs_0 [OF assms(1) i(1)]]
  have "unat p = unat mb + unat toff + unat ?o"
  proof -
    have 1: "unat (mb + ucast toff) = unat mb + unat toff"
      using assms(2,3) by (subst unat_add_lem [THEN iffD1]) (simp_all add: unat_up)
    show ?thesis
      using assms(2,3) r(1) unfolding i(2) by (subst unat_add_lem [THEN iffD1]) (simp_all add: 1 unat_up)
  qed
  moreover obtain n where "unat mb + unat toff + unat ?o + n < unat mb + unat toff + unat tsz"
    "m (unat mb + unat toff + unat ?o + n) = 0"
    using r(2) by (auto simp: str_within_def)
  ultimately show ?thesis unfolding str_within_def using assms(2) by (intro conjI exI [of _ n]) simp_all
qed

lemma auxv_within:
  assumes "n \<noteq> 0 \<Longrightarrow> unat off + 16 * n \<le> unat size'" "unat mb + unat size' < 2 ^ 64" "i < n"
  shows "unat (mb + ucast (off :: u32) + 16 * word_of_nat i :: u64) = unat mb + unat off + 16 * i"
proof -
  have b: "unat off + 16 * i < unat size'" using assms(1,3) by fastforce
  have 1: "unat (mb + ucast off) = unat mb + unat off"
    using b assms(2) by (subst unat_add_lem [THEN iffD1]) (simp_all add: unat_up)
  have "unat (16 * word_of_nat i :: u64) = 16 * i"
    using b assms(2) by (simp add: unat_word_ariths unat_of_nat take_bit_nat_eq_self)
  then show ?thesis
    using b assms(2) by (subst unat_add_lem [THEN iffD1]) (simp_all add: 1)
qed

text \<open>
  C31. When \<open>load_user_meta\<close> accepts the metadata of an image, the process it builds refers only
  to the metadata: at most 128 arguments, environment strings and auxiliary entries, every
  argument and environment pointer at a terminated string that ends inside the metadata, every
  auxiliary entry wholly inside, and a name of fewer than 128 bytes without a NUL.
\<close>

theorem load_user_meta_safe:
  assumes "load_user_meta m meta_base size' process = Inr process'"
    and "unat meta_base + unat size' < 2 ^ 64"
  shows "length (argv (image process')) = unat (argc (image process')) \<and> unat (argc (image process')) \<le> 128
    \<and> length (env (image process')) = unat (env_count (image process')) \<and> unat (env_count (image process')) \<le> 128
    \<and> length (auxv (image process')) = unat (auxv_count (image process')) \<and> unat (auxv_count (image process')) \<le> 128
    \<and> (\<forall>p\<in>set (argv (image process')) \<union> set (env (image process')).
         str_within m (unat meta_base) (unat meta_base + unat size') (unat p))
    \<and> (\<forall>p\<in>set (auxv (image process')). unat meta_base \<le> unat p \<and> unat p + 16 \<le> unat meta_base + unat size')
    \<and> length (name process') < 128 \<and> 0 \<notin> set (name process')"
proof -
  let ?meta = "read_image_meta m (unat meta_base)"
  have ok: "check_image_meta m (unat meta_base) size' = 0"
    using assms(1) by (simp add: load_user_meta_def Let_def split: if_splits)
  note f = check_image_meta_0 [OF ok refl]
  have P: "Inr process' = load_user_meta m meta_base size' process" using assms(1) by simp
  note P = this [unfolded load_user_meta_def Let_def ok, simplified]
  have nm: "length (strscpy_bytes m s 128) < 128" "0 \<notin> set (strscpy_bytes m s 128)" for s
  proof -
    have "strnlen m s 127 \<le> 127" using strnlen_cases(1) [of m s 127] by linarith
    then show "length (strscpy_bytes m s 128) < 128" by (simp add: strscpy_bytes_def)
    have "m x \<noteq> 0" if "s \<le> x" "x < s + strnlen m s 127" for x
      using strnlen_cases(2) [of "x - s" m s 127] that by simp
    then show "0 \<notin> set (strscpy_bytes m s 128)" by (auto simp: strscpy_bytes_def)
  qed
  have ax: "\<forall>i<unat (m_auxv_count ?meta). unat meta_base \<le> unat (meta_base + ucast (m_auxv_offset ?meta) + 16 * word_of_nat i)
      \<and> unat (meta_base + ucast (m_auxv_offset ?meta) + 16 * word_of_nat i) + 16 \<le> unat meta_base + unat size'"
    using auxv_within [OF f(4) assms(2)] f(4) by fastforce
  show ?thesis
    using f(1-3) nm ax string_ptrs_within [OF f(7) f(5) assms(2)] string_ptrs_within [OF f(8) f(5) assms(2)]
    by (simp add: P string_ptrs_def [of _ _ _ n for n] ball_Un)
qed
text \<open>Metadata at address 4096: one argument "a", the name "b" and one auxiliary entry.\<close>

definition sample_meta :: mem where
  "sample_meta a = (case map_of [(4096, 1), (4104, 1), (4108, 4), (4112, 2), (4116, 48), (4124, 56), (4128, 52), (4148, 97), (4150, 98)] a of
     None \<Rightarrow> 0 | Some b \<Rightarrow> b)"

lemma strnlen_1: "1 < n \<Longrightarrow> m s \<noteq> 0 \<Longrightarrow> m (Suc s) = 0 \<Longrightarrow> strnlen m s n = 1"
  by (auto simp: strnlen_def less_eq_Suc_le dest!: le_Suc_ex)

theorem load_user_meta_safe_witness:
  "\<exists>p. load_user_meta sample_meta 4096 256 zero_process = Inr p \<and> argv (image p) = [4148] \<and> name p = [98]
    \<and> str_within sample_meta 4096 4352 4148"
proof -
  have r: "read_image_meta sample_meta 4096 =
    \<lparr>m_argv_count = 1, m_env_count = 0, m_auxv_count = 1, m_string_table_size = 4, m_name_offset = 2,
     m_argv_offset = 48, m_env_offset = 0, m_auxv_offset = 56, m_string_table_offset = 52, m_reserved = 0,
     m_stack_size = 0\<rparr>"
    by (simp add: read_image_meta_def rd32_def get_word_def sample_meta_def)
  have s: "strnlen sample_meta 4148 4 = 1" "strnlen sample_meta 4150 2 = 1" "strnlen sample_meta 4150 127 = 1"
    by (rule strnlen_1; simp add: sample_meta_def)+
  have o: "rd32 sample_meta 4144 = 0" by (simp add: rd32_def sample_meta_def)
  have ok: "check_image_meta sample_meta 4096 256 = 0"
    by (simp add: check_image_meta_def r check_meta_array_def check_string_ref_def s o)
  obtain p where p: "load_user_meta sample_meta 4096 256 zero_process = Inr p"
    and "argv (image p) = [4148]" "name p = [98]"
    by (simp add: load_user_meta_def ok r string_ptrs_def o strscpy_bytes_def s sample_meta_def Let_def)
  then show ?thesis using load_user_meta_safe [OF p] by simp
qed

end
