(* ===== verification/Quest_Table_Props.thy ===== *)
theory Quest_Table_Props
  imports Quest_Process_Props Memblock_Props
begin

text \<open>
  The initial stack of a process and the process table: the layout of the first frame, loading
  a package and destroying a process.
\<close>

unbundle bit_operations_syntax

section \<open>The initial stack\<close>

lemma get_word_cong: "(\<And>k. k < 8 \<Longrightarrow> m (a + k) = m' (a' + k)) \<Longrightarrow> get_word m a = get_word m' a'"
proof -
  assume e: "\<And>k. k < 8 \<Longrightarrow> m (a + k) = m' (a' + k)"
  show ?thesis
    using e [of 0] e [of 1] e [of 2] e [of 3] e [of 4] e [of 5] e [of 6] e [of 7] by (simp add: get_word_def)
qed

lemma get_put_word [simp]: "get_word (put_word m a w) a = w"
proof (rule bit_word_eqI)
  fix n assume n: "n < LENGTH(64)"
  define k j where "k = n div 8" and "j = n mod 8"
  have kj: "k < 8" "j < 8" "n = 8 * k + j" using n by (auto simp: k_def j_def)
  have "bit (get_word (put_word m a w) a) (8 * k + j) \<longleftrightarrow> bit (ucast (drop_bit (8 * k) w) :: u8) j"
    using kj(1,2) by (simp add: bit_get_word put_word_def)
  then show "bit (get_word (put_word m a w) a) n \<longleftrightarrow> bit w n"
    using kj(2) by (simp add: kj(3) bit_ucast_iff bit_drop_bit_eq)
qed

lemma put_word_frame: "x < a \<or> a + 8 \<le> x \<Longrightarrow> put_word m a w x = m x"
  by (auto simp: put_word_def)

lemma put_words_frame: "x < a \<or> a + 8 * length ws \<le> x \<Longrightarrow> put_words m a ws x = m x"
  by (induction ws arbitrary: m a) (auto simp: put_word_frame)

lemma get_put_words: "i < length ws \<Longrightarrow> get_word (put_words m a ws) (a + 8 * i) = ws ! i"
proof (induction ws arbitrary: m a i)
  case (Cons w ws)
  show ?case
  proof (cases i)
    case 0
    have "get_word (put_words (put_word m a w) (a + 8) ws) a = get_word (put_word m a w) a"
      by (rule get_word_cong) (simp add: put_words_frame)
    then show ?thesis using 0 by simp
  next
    case (Suc j)
    then show ?thesis using Cons.IH [of j "put_word m a w" "a + 8"] Cons.prems by (simp add: add.assoc)
  qed
qed simp

lemma put_words_append: "put_words m a (xs @ ys) = put_words (put_words m a xs) (a + 8 * length xs) ys"
  by (induction xs arbitrary: m a) (simp_all add: add.assoc)

text \<open>Where the entries are copied from lies outside of where they are copied to.\<close>

definition outside :: "nat \<Rightarrow> nat \<Rightarrow> u64 \<Rightarrow> bool" where
  "outside lo hi p \<longleftrightarrow> unat p + 16 \<le> lo \<or> hi \<le> unat p"

lemma memcpy_outside: "outside lo hi p \<Longrightarrow> lo \<le> a \<Longrightarrow> a + 16 \<le> hi \<Longrightarrow> memcpy m a (unat p) 16 = copy m a (unat p) 16"
  by (rule memcpy_eq_copy) (auto simp: outside_def forward_ok_def)

lemma put_auxv_at:
  assumes "\<forall>p\<in>set ps. outside lo hi p" "lo \<le> a" "a + 16 * length ps \<le> hi"
  shows "put_auxv m a ps x =
    (if a \<le> x \<and> x < a + 16 * length ps then m (unat (ps ! ((x - a) div 16)) + (x - a) mod 16) else m x)"
  using assms
proof (induction ps arbitrary: m a)
  case (Cons p ps)
  have c: "memcpy m a (unat p) 16 = copy m a (unat p) 16"
    using Cons.prems by (intro memcpy_outside [of lo hi]) auto
  have ih: "put_auxv (copy m a (unat p) 16) (a + 16) ps x =
    (if a + 16 \<le> x \<and> x < a + 16 + 16 * length ps
     then copy m a (unat p) 16 (unat (ps ! ((x - (a + 16)) div 16)) + (x - (a + 16)) mod 16) else copy m a (unat p) 16 x)"
    using Cons.prems by (intro Cons.IH) auto
  consider "x < a" | "a \<le> x" "x < a + 16" | "a + 16 \<le> x" "x < a + 16 + 16 * length ps" | "a + 16 + 16 * length ps \<le> x"
    by linarith
  then show ?case
  proof cases
    case 3
    then obtain y where y: "x = a + 16 + y" "y < 16 * length ps" using le_Suc_ex by force
    have "outside lo hi (ps ! (y div 16))" using Cons.prems(1) y(2) by (simp add: less_mult_imp_div_less mult.commute)
    then have "copy m a (unat p) 16 (unat (ps ! (y div 16)) + y mod 16) = m (unat (ps ! (y div 16)) + y mod 16)"
      using Cons.prems(2,3) mod_less_divisor [of 16 y] by (auto simp: copy_def outside_def)
    moreover have "(16 + y) div 16 = Suc (y div 16)" by simp
    ultimately show ?thesis using y ih c by simp
  qed (use ih c in \<open>simp_all add: copy_def\<close>)
qed auto

text \<open>The words at the top of the new stack, below the auxiliary vector.\<close>

definition stack_words :: "process_image \<Rightarrow> u64 list" where
  "stack_words img = ucast (argc img) # map (meta_to_user_addr (meta_data img)) (argv img) @ [0]
     @ map (meta_to_user_addr (meta_data img)) (env img) @ [0]"

definition image_counts_ok :: "process_image \<Rightarrow> bool" where
  "image_counts_ok img \<longleftrightarrow> length (argv img) = unat (argc img) \<and> unat (argc img) \<le> 128
    \<and> length (env img) = unat (env_count img) \<and> unat (env_count img) \<le> 128
    \<and> length (auxv img) = unat (auxv_count img) \<and> unat (auxv_count img) \<le> 128"

lemma and_fffffff0: "unat x < 2 ^ 32 \<Longrightarrow> unat (x AND 0xfffffff0 :: u64) = unat x - unat x mod 16"
proof -
  assume "unat x < 2 ^ 32"
  then have "take_bit 32 x = x"
    by (simp add: unsigned_take_bit_eq take_bit_nat_eq_self word_unat_eq_iff)
  then have "x AND mask 32 = x" by (simp add: take_bit_eq_mask)
  moreover have "(0xfffffff0 :: u64) = mask 32 AND NOT (mask 4)" by (simp add: mask_eq_exp_minus_1)
  ultimately have "x AND 0xfffffff0 = x AND NOT (mask 4)" by (metis and.assoc)
  then show ?thesis by (simp add: unat_and_not_mask)
qed

lemma calculate_stack_meta_size_eq:
  assumes "image_counts_ok img"
  shows "unat (calculate_stack_meta_size img) =
    (8 * length (stack_words img) + 16 * length (auxv img) + 15) div 16 * 16"
proof -
  have a: "unat (argc img + 1) = Suc (unat (argc img))" "unat (env_count img + 1) = Suc (unat (env_count img))"
    using assms by (simp_all add: image_counts_ok_def unat_word_ariths)
  let ?s = "8 + 8 * ucast (argc img + 1) + 8 * ucast (env_count img + 1) + 16 * ucast (auxv_count img) + 16 - 1 :: u64"
  have e: "?s = 8 + 8 * ucast (argc img + 1) + 8 * ucast (env_count img + 1) + 16 * ucast (auxv_count img) + 15" by simp
  have "unat ?s = 8 * length (stack_words img) + 16 * length (auxv img) + 15"
    using assms unfolding e by (simp add: unat_word_ariths unat_up a image_counts_ok_def stack_words_def)
  moreover from this have "unat ?s < 2 ^ 32" using assms by (simp add: image_counts_ok_def stack_words_def)
  ultimately show ?thesis
    using and_fffffff0 [of ?s] by (simp add: calculate_stack_meta_size_def Let_def minus_mod_eq_div_mult)
qed

text \<open>Memory \<open>m'\<close> is \<open>m\<close> with the initial frame of a process between \<open>sp0\<close> and \<open>hi\<close>.\<close>

definition stack_layout :: "mem \<Rightarrow> mem \<Rightarrow> nat \<Rightarrow> nat \<Rightarrow> process_image \<Rightarrow> bool" where
  "stack_layout m m' sp0 hi img \<longleftrightarrow>
    (\<forall>i<length (stack_words img). get_word m' (sp0 + 8 * i) = stack_words img ! i)
    \<and> (\<forall>j<length (auxv img). \<forall>k<16.
         m' (sp0 + 8 * length (stack_words img) + 16 * j + k) = m (unat (auxv img ! j) + k))
    \<and> (\<forall>x. sp0 + 8 * length (stack_words img) + 16 * length (auxv img) \<le> x \<and> x < hi \<longrightarrow> m' x = 0)
    \<and> (\<forall>x. x < sp0 \<or> hi \<le> x \<longrightarrow> m' x = m x)"

lemma stack_layoutI:
  assumes "\<forall>p\<in>set (auxv img). outside lo hi p" "lo \<le> sp0"
    and "sp0 + 8 * length (stack_words img) + 16 * length (auxv img) \<le> hi"
  defines "e \<equiv> sp0 + 8 * length (stack_words img) + 16 * length (auxv img)"
  shows "stack_layout m (fill (put_auxv (put_words m sp0 (stack_words img))
    (sp0 + 8 * length (stack_words img)) (auxv img)) e 0 (hi - e)) sp0 hi img"
proof -
  let ?w = "stack_words img" and ?a = "sp0 + 8 * length (stack_words img)"
  let ?m1 = "put_words m sp0 ?w" and ?m2 = "put_auxv (put_words m sp0 ?w) ?a (auxv img)"
  let ?m3 = "fill ?m2 e 0 (hi - e)"
  have m2: "?m2 x = (if ?a \<le> x \<and> x < e then ?m1 (unat (auxv img ! ((x - ?a) div 16)) + (x - ?a) mod 16) else ?m1 x)" for x
    using put_auxv_at [OF assms(1), of ?a ?m1 x] assms(2,3) by (simp add: e_def)
  have "get_word ?m3 (sp0 + 8 * i) = ?w ! i" if "i < length ?w" for i
  proof -
    have "get_word ?m3 (sp0 + 8 * i) = get_word ?m1 (sp0 + 8 * i)"
      using that by (intro get_word_cong) (auto simp: fill_def m2 e_def)
    then show ?thesis using get_put_words [OF that] by simp
  qed
  moreover have "?m3 (?a + 16 * j + k) = m (unat (auxv img ! j) + k)" if "j < length (auxv img)" "k < 16" for j k
  proof -
    have b: "?a + 16 * j + k < e" using that by (simp add: e_def)
    have d: "(16 * j + k) div 16 = j" "(16 * j + k) mod 16 = k" using that(2) by simp_all
    have "outside lo hi (auxv img ! j)" using assms(1) that(1) by simp
    then have "?m1 (unat (auxv img ! j) + k) = m (unat (auxv img ! j) + k)"
      using assms(2,3) that(2) by (intro put_words_frame) (auto simp: outside_def)
    then show ?thesis using b that(2) by (simp add: fill_def m2 d)
  qed
  moreover have "?m3 x = 0" if "e \<le> x" "x < hi" for x using that by (simp add: fill_def)
  moreover have "?m3 x = m x" if "x < sp0 \<or> hi \<le> x" for x
    using that assms(3) by (auto simp: fill_def m2 put_words_frame e_def)
  ultimately show ?thesis unfolding stack_layout_def e_def [symmetric] by blast
qed

lemma fill_0: "fill m s b 0 = m"
  by (auto simp: fill_def fun_eq_iff)

lemma memset_upto: "e \<le> t \<Longrightarrow> (if e < t then memset m e 0 (t - e) else m) = fill m e 0 (t - e)"
  by (auto simp: memset_eq_fill fill_0)

lemma put_stack_words:
  "put_words (put_words (put_word m a (ucast (argc img))) (a + 8) (map (meta_to_user_addr (meta_data img)) (argv img) @ [0]))
     (a + 8 + 8 * (length (argv img) + 1)) (map (meta_to_user_addr (meta_data img)) (env img) @ [0])
   = put_words m a (stack_words img)"
  by (simp add: stack_words_def put_words_append add.assoc)

text \<open>
  C32. The initial stack of a process. If the frame does not fit, \<open>process_stack_init\<close> returns
  \<open>-ENOMEM\<close> and writes nothing. Otherwise it returns 0 and the frame size, a multiple of 16, and
  just below the stack top there are, in this order: \<open>argc\<close>, the user addresses of the arguments,
  a NULL, the user addresses of the environment strings, a NULL, copies of the auxiliary
  entries, and zero bytes up to the top. Nothing else changes and no \<open>BUG_ON\<close> is hit.
\<close>

theorem process_stack_init_layout:
  fixes proc m
  defines "img \<equiv> image proc" and "lo \<equiv> unat (stack (mm proc))" and "sz \<equiv> unat (stack_size (mm proc))"
  defines "frame \<equiv> (8 * length (stack_words img) + 16 * length (auxv img) + 15) div 16 * 16"
  assumes "image_counts_ok img" "lo + sz < 2 ^ 64" "(lo + sz) mod 16 = 0"
    and "\<forall>p\<in>set (auxv img). outside lo (lo + sz) p"
  shows "if sz < frame then process_stack_init proc m = Ret (- ENOMEM, 0, m)
    else \<exists>m'. process_stack_init proc m = Ret (0, word_of_nat frame, m')
      \<and> stack_layout m m' (lo + sz - frame) (lo + sz) img"
proof -
  let ?n = "8 * length (stack_words img) + 16 * length (auxv img)"
  note u = calculate_stack_meta_size_eq [OF assms(5)]
  have us: "unat (calculate_stack_meta_size img) = frame" using u by (simp add: frame_def)
  then have uw: "calculate_stack_meta_size img = word_of_nat frame" by (auto simp: us [symmetric])
  have top: "unat (stack (mm proc) + stack_size (mm proc)) = lo + sz"
    using assms(6) unfolding lo_def sz_def by (subst unat_add_lem [THEN iffD1]) simp_all
  have al: "(stack (mm proc) + stack_size (mm proc)) AND 0xf = 0"
    using aligned_unat [of "stack (mm proc) + stack_size (mm proc)" 4] assms(7) top by (simp add: IS_ALIGNED_def)
  have fits: "?n \<le> frame" using div_mult_mod_eq [of "?n + 15" 16] mod_less_divisor [of 16 "?n + 15"] unfolding frame_def by linarith
  show ?thesis
  proof (cases "sz < frame")
    case True
    then show ?thesis
      using us al by (simp add: process_stack_init_def Let_def img_def [symmetric] word_less_nat_alt sz_def)
  next
    case False
    have sp: "unat (stack (mm proc) + stack_size (mm proc) - calculate_stack_meta_size img) = lo + sz - frame"
      using False us top by (simp add: unat_sub word_le_nat_alt)
    let ?e = "lo + sz - frame + 8 * length (stack_words img) + 16 * length (auxv img)"
    let ?m4 = "put_auxv (put_words m (lo + sz - frame) (stack_words img))
      (lo + sz - frame + 8 * length (stack_words img)) (auxv img)"
    have e: "?e \<le> lo + sz" using fits False by linarith
    have len: "length (stack_words img) = 3 + length (argv img) + length (env img)" by (simp add: stack_words_def)
    have end': "lo + sz - frame + 8 + 8 * (length (argv img) + 1) + 8 * (length (env img) + 1)
      = lo + sz - frame + 8 * length (stack_words img)" by (simp add: len)
    have "process_stack_init proc m = Ret (0, word_of_nat frame, fill ?m4 ?e 0 (lo + sz - ?e))"
    proof -
      have "\<not> calculate_stack_meta_size img > stack_size (mm proc)"
        using False us by (simp add: word_less_nat_alt sz_def)
      then show ?thesis
        using al e
        unfolding process_stack_init_def Let_def img_def [symmetric] sp top put_stack_words end' memset_upto [OF e]
        by (simp add: uw)
    qed
    moreover have "stack_layout m (fill ?m4 ?e 0 (lo + sz - ?e)) (lo + sz - frame) (lo + sz) img"
      using False e by (intro stack_layoutI [OF assms(8)]) simp_all
    ultimately show ?thesis using False by auto
  qed
qed
text \<open>A process with the argument at 4148 of its metadata, and a stack of two pages.\<close>

definition sample_stack_process :: process_struct where
  "sample_stack_process = zero_process\<lparr>
     image := zero_image\<lparr>meta_data := 4096, argc := 1, argv := [4148], auxv_count := 1, auxv := [4152]\<rparr>,
     mm := zero_mm\<lparr>stack := 0x10000, stack_size := 0x2000\<rparr>\<rparr>"

theorem process_stack_init_layout_witness:
  "\<exists>m'. process_stack_init sample_stack_process sample_meta = Ret (0, 48, m')
     \<and> stack_layout sample_meta m' 73680 73728 (image sample_stack_process)"
  using process_stack_init_layout [of sample_stack_process sample_meta]
  by (simp add: sample_stack_process_def image_counts_ok_def zero_process_def zero_image_def zero_mm_def
      stack_words_def outside_def)

section \<open>The process table\<close>

definition proc_table :: "proc_state \<Rightarrow> u64 list" where
  "proc_table s = take (nat (g_processes_count s)) (g_processes s)"

text \<open>The table has its fixed size, the count is in range, and every entry is a process.\<close>

definition table_ok :: "proc_state \<Rightarrow> bool" where
  "table_ok s \<longleftrightarrow> length (g_processes s) = 128 \<and> 0 \<le> g_processes_count s \<and> g_processes_count s \<le> PROCESS_MAX_COUNT
    \<and> (\<forall>p\<in>set (proc_table s). ps_obj s p \<noteq> None)"

lemma length_proc_table: "table_ok s \<Longrightarrow> int (length (proc_table s)) = g_processes_count s"
  by (auto simp: table_ok_def proc_table_def)













section \<open>Destruction\<close>





end
