(* ===== verification/Quest_List.thy ===== *)
theory Quest_List
  imports Quest_Prelude
begin

text \<open>
  The intrusive lists of \<open>include/linux_modify/list.h\<close>: the circular doubly linked \<open>list_head\<close>
  and the \<open>hlist\<close> with a single head pointer. A store gives, for every address, the two
  pointers kept there: \<open>next\<close> (or \<open>first\<close>) at offset 0, and \<open>prev\<close> (or \<open>pprev\<close>) at offset 8. Since
  \<open>next\<close> is at offset 0, the address of the slot \<open>&n->next\<close> is \<open>n\<close> itself, which is what \<open>pprev\<close>
  holds. The corruption checks are compiled out (\<open>CONFIG_LIST_HARDENED\<close> is not set).
\<close>

type_synonym ptr = u64

record list_store =
  lnext :: "ptr \<Rightarrow> ptr"
  lprev :: "ptr \<Rightarrow> ptr"

abbreviation LIST_POISON1 :: ptr where "LIST_POISON1 \<equiv> 0x100"
abbreviation LIST_POISON2 :: ptr where "LIST_POISON2 \<equiv> 0x122"

definition set_next :: "ptr \<Rightarrow> ptr \<Rightarrow> list_store \<Rightarrow> list_store" where
  "set_next p v s = s\<lparr>lnext := (lnext s)(p := v)\<rparr>"

definition set_prev :: "ptr \<Rightarrow> ptr \<Rightarrow> list_store \<Rightarrow> list_store" where
  "set_prev p v s = s\<lparr>lprev := (lprev s)(p := v)\<rparr>"

section \<open>Doubly linked lists\<close>

definition INIT_LIST_HEAD :: "ptr \<Rightarrow> list_store \<Rightarrow> list_store" where
  "INIT_LIST_HEAD l s = set_prev l l (set_next l l s)"

definition list_add_valid :: "ptr \<Rightarrow> ptr \<Rightarrow> ptr \<Rightarrow> bool" where
  "list_add_valid new prev next = True"

definition list_del_entry_valid :: "ptr \<Rightarrow> bool" where
  "list_del_entry_valid entry = True"

definition list_add_between :: "ptr \<Rightarrow> ptr \<Rightarrow> ptr \<Rightarrow> list_store \<Rightarrow> list_store" where
  "list_add_between new prev next s =
    (if \<not> list_add_valid new prev next then s
     else set_next prev new (set_prev new prev (set_next new next (set_prev next new s))))"

definition list_add :: "ptr \<Rightarrow> ptr \<Rightarrow> list_store \<Rightarrow> list_store" where
  "list_add new head s = list_add_between new head (lnext s head) s"

definition list_add_tail :: "ptr \<Rightarrow> ptr \<Rightarrow> list_store \<Rightarrow> list_store" where
  "list_add_tail new head s = list_add_between new (lprev s head) head s"

definition list_del_between :: "ptr \<Rightarrow> ptr \<Rightarrow> list_store \<Rightarrow> list_store" where
  "list_del_between prev next s = set_next prev next (set_prev next prev s)"

definition list_del_clearprev :: "ptr \<Rightarrow> list_store \<Rightarrow> list_store" where
  "list_del_clearprev entry s =
    set_prev entry 0 (list_del_between (lprev s entry) (lnext s entry) s)"

definition list_del_entry :: "ptr \<Rightarrow> list_store \<Rightarrow> list_store" where
  "list_del_entry entry s =
    (if \<not> list_del_entry_valid entry then s
     else list_del_between (lprev s entry) (lnext s entry) s)"

definition list_del :: "ptr \<Rightarrow> list_store \<Rightarrow> list_store" where
  "list_del entry s =
    set_prev entry LIST_POISON2 (set_next entry LIST_POISON1 (list_del_entry entry s))"

definition list_replace :: "ptr \<Rightarrow> ptr \<Rightarrow> list_store \<Rightarrow> list_store" where
  "list_replace old new s =
    (let s1 = set_next new (lnext s old) s;
         s2 = set_prev (lnext s1 new) new s1;
         s3 = set_prev new (lprev s2 old) s2
     in set_next (lprev s3 new) new s3)"

definition list_replace_init :: "ptr \<Rightarrow> ptr \<Rightarrow> list_store \<Rightarrow> list_store" where
  "list_replace_init old new s = INIT_LIST_HEAD old (list_replace old new s)"

definition list_swap :: "ptr \<Rightarrow> ptr \<Rightarrow> list_store \<Rightarrow> list_store" where
  "list_swap entry1 entry2 s =
    (let pos = lprev s entry2;
         s1 = list_replace entry1 entry2 (list_del entry2 s)
     in list_add entry1 (if pos = entry1 then entry2 else pos) s1)"

definition list_del_init :: "ptr \<Rightarrow> list_store \<Rightarrow> list_store" where
  "list_del_init entry s = INIT_LIST_HEAD entry (list_del_entry entry s)"

definition list_move :: "ptr \<Rightarrow> ptr \<Rightarrow> list_store \<Rightarrow> list_store" where
  "list_move l head s = list_add l head (list_del_entry l s)"

definition list_move_tail :: "ptr \<Rightarrow> ptr \<Rightarrow> list_store \<Rightarrow> list_store" where
  "list_move_tail l head s = list_add_tail l head (list_del_entry l s)"

definition list_bulk_move_tail :: "ptr \<Rightarrow> ptr \<Rightarrow> ptr \<Rightarrow> list_store \<Rightarrow> list_store" where
  "list_bulk_move_tail head first last' s =
    (let s1 = set_next (lprev s first) (lnext s last') s;
         s2 = set_prev (lnext s1 last') (lprev s1 first) s1;
         s3 = set_next (lprev s2 head) first s2;
         s4 = set_prev first (lprev s3 head) s3;
         s5 = set_next last' head s4
     in set_prev head last' s5)"

definition list_is_first :: "ptr \<Rightarrow> ptr \<Rightarrow> list_store \<Rightarrow> bool" where
  "list_is_first l head s \<longleftrightarrow> lprev s l = head"

definition list_is_last :: "ptr \<Rightarrow> ptr \<Rightarrow> list_store \<Rightarrow> bool" where
  "list_is_last l head s \<longleftrightarrow> lnext s l = head"

definition list_is_head :: "ptr \<Rightarrow> ptr \<Rightarrow> bool" where
  "list_is_head l head \<longleftrightarrow> l = head"

definition list_empty :: "ptr \<Rightarrow> list_store \<Rightarrow> bool" where
  "list_empty head s \<longleftrightarrow> lnext s head = head"

definition list_rotate_left :: "ptr \<Rightarrow> list_store \<Rightarrow> list_store" where
  "list_rotate_left head s =
    (if \<not> list_empty head s then list_move_tail (lnext s head) head s else s)"

definition list_rotate_to_front :: "ptr \<Rightarrow> ptr \<Rightarrow> list_store \<Rightarrow> list_store" where
  "list_rotate_to_front l head s = list_move_tail head l s"

definition list_is_singular :: "ptr \<Rightarrow> list_store \<Rightarrow> bool" where
  "list_is_singular head s \<longleftrightarrow> \<not> list_empty head s \<and> lnext s head = lprev s head"

definition list_cut_at :: "ptr \<Rightarrow> ptr \<Rightarrow> ptr \<Rightarrow> list_store \<Rightarrow> list_store" where
  "list_cut_at l head entry s =
    (let new_first = lnext s entry;
         s1 = set_next l (lnext s head) s;
         s2 = set_prev (lnext s1 l) l s1;
         s3 = set_prev l entry s2;
         s4 = set_next entry l s3;
         s5 = set_next head new_first s4
     in set_prev new_first head s5)"

definition list_cut_position :: "ptr \<Rightarrow> ptr \<Rightarrow> ptr \<Rightarrow> list_store \<Rightarrow> list_store" where
  "list_cut_position l head entry s =
    (if list_empty head s then s
     else if list_is_singular head s \<and> \<not> list_is_head entry head \<and> entry \<noteq> lnext s head then s
     else if list_is_head entry head then INIT_LIST_HEAD l s
     else list_cut_at l head entry s)"

definition list_cut_before :: "ptr \<Rightarrow> ptr \<Rightarrow> ptr \<Rightarrow> list_store \<Rightarrow> list_store" where
  "list_cut_before l head entry s =
    (if lnext s head = entry then INIT_LIST_HEAD l s
     else
       let s1 = set_next l (lnext s head) s;
           s2 = set_prev (lnext s1 l) l s1;
           s3 = set_prev l (lprev s2 entry) s2;
           s4 = set_next (lprev s3 l) l s3;
           s5 = set_next head entry s4
       in set_prev entry head s5)"

definition list_splice_between :: "ptr \<Rightarrow> ptr \<Rightarrow> ptr \<Rightarrow> list_store \<Rightarrow> list_store" where
  "list_splice_between l prev next s =
    (let first = lnext s l; last' = lprev s l in
     set_prev next last' (set_next last' next (set_next prev first (set_prev first prev s))))"

definition list_splice :: "ptr \<Rightarrow> ptr \<Rightarrow> list_store \<Rightarrow> list_store" where
  "list_splice l head s =
    (if \<not> list_empty l s then list_splice_between l head (lnext s head) s else s)"

definition list_splice_tail :: "ptr \<Rightarrow> ptr \<Rightarrow> list_store \<Rightarrow> list_store" where
  "list_splice_tail l head s =
    (if \<not> list_empty l s then list_splice_between l (lprev s head) head s else s)"

definition list_splice_init :: "ptr \<Rightarrow> ptr \<Rightarrow> list_store \<Rightarrow> list_store" where
  "list_splice_init l head s =
    (if \<not> list_empty l s then INIT_LIST_HEAD l (list_splice_between l head (lnext s head) s) else s)"

definition list_splice_tail_init :: "ptr \<Rightarrow> ptr \<Rightarrow> list_store \<Rightarrow> list_store" where
  "list_splice_tail_init l head s =
    (if \<not> list_empty l s then INIT_LIST_HEAD l (list_splice_between l (lprev s head) head s) else s)"

text \<open>\<open>list_entry\<close> is \<open>container_of\<close>: the member is \<open>offset\<close> bytes behind the start.\<close>

definition list_entry :: "ptr \<Rightarrow> u64 \<Rightarrow> ptr" where
  "list_entry p offset = p - offset"

definition list_first_entry :: "ptr \<Rightarrow> u64 \<Rightarrow> list_store \<Rightarrow> ptr" where
  "list_first_entry p offset s = list_entry (lnext s p) offset"

definition list_last_entry :: "ptr \<Rightarrow> u64 \<Rightarrow> list_store \<Rightarrow> ptr" where
  "list_last_entry p offset s = list_entry (lprev s p) offset"

definition list_first_entry_or_null :: "ptr \<Rightarrow> u64 \<Rightarrow> list_store \<Rightarrow> ptr" where
  "list_first_entry_or_null p offset s =
    (if lnext s p \<noteq> p then list_entry (lnext s p) offset else 0)"

definition list_next_entry :: "ptr \<Rightarrow> u64 \<Rightarrow> list_store \<Rightarrow> ptr" where
  "list_next_entry pos offset s = list_entry (lnext s (pos + offset)) offset"

definition list_next_entry_circular :: "ptr \<Rightarrow> ptr \<Rightarrow> u64 \<Rightarrow> list_store \<Rightarrow> ptr" where
  "list_next_entry_circular pos head offset s =
    (if list_is_last (pos + offset) head s then list_first_entry head offset s
     else list_next_entry pos offset s)"

definition list_prev_entry :: "ptr \<Rightarrow> u64 \<Rightarrow> list_store \<Rightarrow> ptr" where
  "list_prev_entry pos offset s = list_entry (lprev s (pos + offset)) offset"

definition list_prev_entry_circular :: "ptr \<Rightarrow> ptr \<Rightarrow> u64 \<Rightarrow> list_store \<Rightarrow> ptr" where
  "list_prev_entry_circular pos head offset s =
    (if list_is_first (pos + offset) head s then list_last_entry head offset s
     else list_prev_entry pos offset s)"

text \<open>
  The iteration macros: the cursors visited from \<open>pos\<close> on until the head, \<open>None\<close> if the chain
  never reaches the head.
\<close>

partial_function (option) list_for_each_from :: "ptr \<Rightarrow> ptr \<Rightarrow> list_store \<Rightarrow> ptr list option" where
  "list_for_each_from pos head s =
    (if list_is_head pos head then Some []
     else Option.bind (list_for_each_from (lnext s pos) head s) (\<lambda>ps. Some (pos # ps)))"

partial_function (option) list_for_each_prev_from :: "ptr \<Rightarrow> ptr \<Rightarrow> list_store \<Rightarrow> ptr list option" where
  "list_for_each_prev_from pos head s =
    (if list_is_head pos head then Some []
     else Option.bind (list_for_each_prev_from (lprev s pos) head s) (\<lambda>ps. Some (pos # ps)))"

definition list_for_each :: "ptr \<Rightarrow> list_store \<Rightarrow> ptr list option" where
  "list_for_each head s = list_for_each_from (lnext s head) head s"

definition list_for_each_continue :: "ptr \<Rightarrow> ptr \<Rightarrow> list_store \<Rightarrow> ptr list option" where
  "list_for_each_continue pos head s = list_for_each_from (lnext s pos) head s"

definition list_for_each_prev :: "ptr \<Rightarrow> list_store \<Rightarrow> ptr list option" where
  "list_for_each_prev head s = list_for_each_prev_from (lprev s head) head s"

text \<open>
  The loop that may remove the current entry: the body \<open>f\<close> runs on the cursor after its
  successor has been read.
\<close>

partial_function (option) list_for_each_safe_from ::
  "(ptr \<Rightarrow> list_store \<Rightarrow> list_store) \<Rightarrow> ptr \<Rightarrow> ptr \<Rightarrow> ptr \<Rightarrow> list_store \<Rightarrow> list_store option" where
  "list_for_each_safe_from f pos n head s =
    (if list_is_head pos head then Some s
     else list_for_each_safe_from f n (lnext (f pos s) n) head (f pos s))"

definition list_for_each_safe ::
  "(ptr \<Rightarrow> list_store \<Rightarrow> list_store) \<Rightarrow> ptr \<Rightarrow> list_store \<Rightarrow> list_store option" where
  "list_for_each_safe f head s =
    list_for_each_safe_from f (lnext s head) (lnext s (lnext s head)) head s"

partial_function (option) count_nodes_loop :: "ptr \<Rightarrow> ptr \<Rightarrow> u64 \<Rightarrow> list_store \<Rightarrow> u64 option" where
  "count_nodes_loop pos head count s =
    (if list_is_head pos head then Some count
     else count_nodes_loop (lnext s pos) head (count + 1) s)"

definition list_count_nodes :: "ptr \<Rightarrow> list_store \<Rightarrow> u64 option" where
  "list_count_nodes head s = count_nodes_loop (lnext s head) head 0 s"

section \<open>Lists with a single head pointer\<close>

definition INIT_HLIST_HEAD :: "ptr \<Rightarrow> list_store \<Rightarrow> list_store" where
  "INIT_HLIST_HEAD h s = set_next h 0 s"

definition INIT_HLIST_NODE :: "ptr \<Rightarrow> list_store \<Rightarrow> list_store" where
  "INIT_HLIST_NODE n s = set_prev n 0 (set_next n 0 s)"

definition hlist_unhashed :: "ptr \<Rightarrow> list_store \<Rightarrow> bool" where
  "hlist_unhashed n s \<longleftrightarrow> lprev s n = 0"

definition hlist_empty :: "ptr \<Rightarrow> list_store \<Rightarrow> bool" where
  "hlist_empty h s \<longleftrightarrow> lnext s h = 0"

definition hlist_del_node :: "ptr \<Rightarrow> list_store \<Rightarrow> list_store" where
  "hlist_del_node n s =
    (let next = lnext s n; pprev = lprev s n; s1 = set_next pprev next s in
     if next \<noteq> 0 then set_prev next pprev s1 else s1)"

definition hlist_del :: "ptr \<Rightarrow> list_store \<Rightarrow> list_store" where
  "hlist_del n s = set_prev n LIST_POISON2 (set_next n LIST_POISON1 (hlist_del_node n s))"

definition hlist_del_init :: "ptr \<Rightarrow> list_store \<Rightarrow> list_store" where
  "hlist_del_init n s =
    (if \<not> hlist_unhashed n s then INIT_HLIST_NODE n (hlist_del_node n s) else s)"

definition hlist_add_head :: "ptr \<Rightarrow> ptr \<Rightarrow> list_store \<Rightarrow> list_store" where
  "hlist_add_head n h s =
    (let first = lnext s h;
         s1 = set_next n first s;
         s2 = (if first \<noteq> 0 then set_prev first n s1 else s1)
     in set_prev n h (set_next h n s2))"

definition hlist_add_before :: "ptr \<Rightarrow> ptr \<Rightarrow> list_store \<Rightarrow> list_store" where
  "hlist_add_before n next s =
    (let s1 = set_prev n (lprev s next) s;
         s2 = set_next n next s1;
         s3 = set_prev next n s2
     in set_next (lprev s3 n) n s3)"

definition hlist_add_behind :: "ptr \<Rightarrow> ptr \<Rightarrow> list_store \<Rightarrow> list_store" where
  "hlist_add_behind n prev s =
    (let s1 = set_next n (lnext s prev) s;
         s2 = set_next prev n s1;
         s3 = set_prev n prev s2
     in if lnext s3 n \<noteq> 0 then set_prev (lnext s3 n) n s3 else s3)"

definition hlist_add_fake :: "ptr \<Rightarrow> list_store \<Rightarrow> list_store" where
  "hlist_add_fake n s = set_prev n n s"

definition hlist_fake :: "ptr \<Rightarrow> list_store \<Rightarrow> bool" where
  "hlist_fake n s \<longleftrightarrow> lprev s n = n"

definition hlist_is_singular_node :: "ptr \<Rightarrow> ptr \<Rightarrow> list_store \<Rightarrow> bool" where
  "hlist_is_singular_node n h s \<longleftrightarrow> lnext s n = 0 \<and> lprev s n = h"

definition hlist_move_list :: "ptr \<Rightarrow> ptr \<Rightarrow> list_store \<Rightarrow> list_store" where
  "hlist_move_list old new s =
    (let s1 = set_next new (lnext s old) s;
         s2 = (if lnext s1 new \<noteq> 0 then set_prev (lnext s1 new) new s1 else s1)
     in set_next old 0 s2)"

definition hlist_splice_init :: "ptr \<Rightarrow> ptr \<Rightarrow> ptr \<Rightarrow> list_store \<Rightarrow> list_store" where
  "hlist_splice_init from last' to s =
    (let s1 = (if lnext s to \<noteq> 0 then set_prev (lnext s to) last' s else s);
         s2 = set_next last' (lnext s1 to) s1;
         s3 = set_next to (lnext s2 from) s2;
         s4 = set_prev (lnext s3 from) to s3
     in set_next from 0 s4)"

partial_function (option) hlist_count_loop :: "ptr \<Rightarrow> u64 \<Rightarrow> list_store \<Rightarrow> u64 option" where
  "hlist_count_loop pos count s =
    (if pos = 0 then Some count else hlist_count_loop (lnext s pos) (count + 1) s)"

definition hlist_count_nodes :: "ptr \<Rightarrow> list_store \<Rightarrow> u64 option" where
  "hlist_count_nodes head s = hlist_count_loop (lnext s head) 0 s"

end
