(* ===== verification/Quest_List_Lemmas.thy ===== *)
theory Quest_List_Lemmas
  imports Quest_List
begin

text \<open>
  The abstraction of the pointer lists to lists of addresses: a chain of neighbours, the circle
  \<open>dlist s h xs\<close> of a doubly linked list, and \<open>hlist s h xs\<close>. Every operation that relinks is a
  composition of \<open>link\<close>, and one lemma about \<open>link\<close> carries them all. The interface locales
  \<open>stack_list\<close> and \<open>queue_list\<close> are interpreted for both kinds of list.
\<close>

section \<open>Chains\<close>

fun chain :: "list_store \<Rightarrow> ptr list \<Rightarrow> bool" where
  "chain s (x # y # zs) \<longleftrightarrow> lnext s x = y \<and> lprev s y = x \<and> chain s (y # zs)"
| "chain s _ \<longleftrightarrow> True"

text \<open>The list with head \<open>h\<close> has the entries \<open>xs\<close>, in this order.\<close>

definition dlist :: "list_store \<Rightarrow> ptr \<Rightarrow> ptr list \<Rightarrow> bool" where
  "dlist s h xs \<longleftrightarrow> distinct (h # xs) \<and> chain s (h # xs @ [h])"

lemma chain_append: "chain s (xs @ y # zs) \<longleftrightarrow> chain s (xs @ [y]) \<and> chain s (y # zs)"
proof (induction xs)
  case (Cons x xs)
  then show ?case by (cases xs) auto
qed simp

lemma chain_cong:
  assumes "\<forall>p\<in>set (butlast xs). lnext s' p = lnext s p" "\<forall>p\<in>set (tl xs). lprev s' p = lprev s p"
  shows "chain s' xs = chain s xs"
  using assms by (induction s xs rule: chain.induct) auto

lemma set_simps [simp]:
  "lnext (set_next p v s) = (lnext s)(p := v)" "lprev (set_next p v s) = lprev s"
  "lprev (set_prev p v s) = (lprev s)(p := v)" "lnext (set_prev p v s) = lnext s"
  by (simp_all add: set_next_def set_prev_def)

lemma set_next_prev_commute: "set_next p v (set_prev q w s) = set_prev q w (set_next p v s)"
  by (simp add: set_next_def set_prev_def)

text \<open>Making two entries neighbours.\<close>

definition link :: "ptr \<Rightarrow> ptr \<Rightarrow> list_store \<Rightarrow> list_store" where
  "link p n s = set_next p n (set_prev n p s)"

lemma chain_link:
  assumes "chain s (us @ [p])" "chain s (n # vs)"
    and "p \<notin> set us" "n \<notin> set vs" "p \<notin> set (butlast (n # vs))" "n \<notin> set (tl (us @ [p]))"
  shows "chain (link p n s) (us @ p # n # vs)"
proof -
  have n: "lnext (link p n s) q = (if q = p then n else lnext s q)"
    "lprev (link p n s) q = (if q = n then p else lprev s q)" for q
    by (simp_all add: link_def)
  have "chain (link p n s) (us @ [p]) = chain s (us @ [p])"
  proof (rule chain_cong)
    show "\<forall>q\<in>set (butlast (us @ [p])). lnext (link p n s) q = lnext s q" using assms(3) by (auto simp: n)
    show "\<forall>q\<in>set (tl (us @ [p])). lprev (link p n s) q = lprev s q" using assms(6) by (metis n(2))
  qed
  moreover have "chain (link p n s) (n # vs) = chain s (n # vs)"
  proof (rule chain_cong)
    show "\<forall>q\<in>set (butlast (n # vs)). lnext (link p n s) q = lnext s q" using assms(5) by (metis n(1))
    show "\<forall>q\<in>set (tl (n # vs)). lprev (link p n s) q = lprev s q" using assms(4) by (auto simp: n)
  qed
  ultimately show ?thesis
    using assms(1,2) chain_append [of "link p n s" us p "n # vs"] by (simp add: n)
qed

lemmas list_op_links = list_add_between_def list_del_between_def list_add_valid_def list_del_entry_valid_def
  list_add_def list_add_tail_def list_del_entry_def

lemma list_add_between_link: "list_add_between new prev next s = link prev new (link new next s)"
  by (simp add: list_add_between_def list_add_valid_def link_def)

lemma list_del_between_link: "list_del_between prev next s = link prev next s"
  by (simp add: list_del_between_def link_def)

lemma list_splice_between_link:
  "list_splice_between l prev next s = link (lprev s l) next (link prev (lnext s l) s)"
  by (simp add: list_splice_between_def link_def Let_def set_next_prev_commute)

text \<open>The entry before and the entry behind a place in the circle.\<close>

abbreviation before :: "ptr \<Rightarrow> ptr list \<Rightarrow> ptr" where "before h xs \<equiv> last (h # xs)"
abbreviation behind :: "ptr list \<Rightarrow> ptr \<Rightarrow> ptr" where "behind ys h \<equiv> hd (ys @ [h])"

lemma link_pieces:
  assumes "chain s (h # xs)" "chain s (ys @ [h])" "distinct (h # xs @ ys)"
  shows "chain (link (before h xs) (behind ys h) s) (h # xs @ ys @ [h])"
proof -
  obtain us p where p: "h # xs = us @ [p]" "p = before h xs" by (metis append_butlast_last_id list.distinct(1))
  obtain n vs where n: "ys @ [h] = n # vs" "n = behind ys h" by (cases ys) auto
  have d: "distinct (us @ [p])" using assms(3) unfolding p(1) [symmetric] by simp
  have xs: "xs = tl (us @ [p])" unfolding p(1) [symmetric] by simp
  have ys: "ys = butlast (n # vs)" unfolding n(1) [symmetric] by simp
  have pm: "p \<in> set (h # xs)" unfolding p(1) by simp
  have "chain (link p n s) (us @ p # n # vs)"
  proof (rule chain_link)
    show "chain s (us @ [p])" "chain s (n # vs)" using assms(1,2) unfolding p(1) n(1) by simp_all
    show "p \<notin> set us" using d by simp
    show "n \<notin> set vs" using assms(3) n(1) by (cases ys) auto
    show "p \<notin> set (butlast (n # vs))" unfolding ys [symmetric] using pm assms(3) by auto
    show "n \<notin> set (tl (us @ [p]))" unfolding xs [symmetric] using assms(3) n(1) by (cases ys) auto
  qed
  moreover have "us @ p # n # vs = h # xs @ ys @ [h]" using p(1) n(1) by (metis append.assoc append_Cons append_Nil)
  ultimately show ?thesis unfolding p(2) n(2) by simp
qed

lemma dlist_pieces:
  "dlist s h (xs @ ys) \<longleftrightarrow> distinct (h # xs @ ys) \<and> chain s (h # xs) \<and> chain s (ys @ [h])
    \<and> lnext s (before h xs) = behind ys h \<and> lprev s (behind ys h) = before h xs"
proof -
  obtain us p where p: "h # xs = us @ [p]" "p = before h xs" by (metis append_butlast_last_id list.distinct(1))
  obtain n vs where n: "ys @ [h] = n # vs" "n = behind ys h" by (cases ys) auto
  have "h # (xs @ ys) @ [h] = us @ p # n # vs" using p(1) n(1) by (metis append.assoc append_Cons append_Nil)
  then have "chain s (h # (xs @ ys) @ [h]) \<longleftrightarrow> chain s (h # xs) \<and> lnext s p = n \<and> lprev s n = p \<and> chain s (ys @ [h])"
    unfolding p(1) n(1) using chain_append [of s us p "n # vs"] by simp
  then show ?thesis unfolding dlist_def p(2) n(2) by auto
qed

lemma chain_upd_next: "p \<notin> set (butlast xs) \<Longrightarrow> chain (set_next p v s) xs = chain s xs"
  by (rule chain_cong) auto

lemma chain_upd_prev: "p \<notin> set (tl xs) \<Longrightarrow> chain (set_prev p v s) xs = chain s xs"
  by (rule chain_cong) auto

lemma chain_link_other:
  "p \<notin> set (butlast xs) \<Longrightarrow> n \<notin> set (tl xs) \<Longrightarrow> chain (link p n s) xs = chain s xs"
  by (simp add: link_def chain_upd_next chain_upd_prev)

lemma behind_notin: "distinct (h # xs @ ys) \<Longrightarrow> behind ys h \<notin> set xs"
  by (cases ys) auto

lemma before_notin: "distinct (h # xs @ ys) \<Longrightarrow> before h xs \<notin> set ys"
  using last_in_set [of "h # xs"] by fastforce

lemma pieces_insert:
  assumes d: "distinct (h # xs @ ys)" "chain s (h # xs)" "chain s (ys @ [h])" and fresh: "new \<notin> set (h # xs @ ys)"
  shows "dlist (link (before h xs) new (link new (behind ys h) s)) h (xs @ new # ys)"
proof -
  have d2: "distinct (h # xs @ new # ys)" using d(1) fresh by auto
  let ?s = "link new (behind ys h) s"
  have 1: "chain ?s (h # xs)"
    using d fresh behind_notin [OF d(1)] by (subst chain_link_other) (auto dest: in_set_butlastD)
  obtain n vs where n: "ys @ [h] = n # vs" "n = behind ys h" by (cases ys) auto
  have nv: "n \<notin> set vs" "set (butlast (n # vs)) = set ys" using d(1) n(1) by (cases ys; auto)+
  have "chain ?s ([] @ new # n # vs)"
    unfolding n(2) [symmetric] using d(3) fresh nv by (intro chain_link) (auto simp: n(1))
  then have 2: "chain ?s ((new # ys) @ [h])" using n(1) by simp
  show ?thesis using link_pieces [OF 1 2] d2 unfolding dlist_def by simp
qed

lemma dlist_insert:
  assumes "dlist s h (xs @ ys)" "new \<notin> set (h # xs @ ys)"
  shows "dlist (link (before h xs) new (link new (behind ys h) s)) h (xs @ new # ys)"
  using assms by (intro pieces_insert) (simp_all add: dlist_pieces)

lemma dlist_delete:
  assumes "dlist s h (xs @ x # ys)"
  shows "dlist (link (before h xs) (behind ys h) s) h (xs @ ys)"
    "lprev s x = before h xs" "lnext s x = behind ys h"
proof -
  have 1: "distinct (h # xs @ x # ys)" "chain s (h # xs)" "chain s ((x # ys) @ [h])" "lprev s x = before h xs"
    using assms unfolding dlist_pieces [of s h xs] by auto
  have 2: "chain s (ys @ [h])" "lnext s x = behind ys h"
    using 1(3) by (cases ys; simp)+
  show "dlist (link (before h xs) (behind ys h) s) h (xs @ ys)"
    using link_pieces [OF 1(2) 2(1)] 1(1) unfolding dlist_def by simp
  show "lprev s x = before h xs" "lnext s x = behind ys h" using 1(4) 2(2) by simp_all
qed

section \<open>Operations as list operations\<close>

lemma dlist_INIT: "dlist (INIT_LIST_HEAD h s) h []"
  by (simp add: dlist_def INIT_LIST_HEAD_def)

lemma dlist_upd_other [simp]:
  "p \<notin> set (h # xs) \<Longrightarrow> dlist (set_next p v s) h xs = dlist s h xs"
  "p \<notin> set (h # xs) \<Longrightarrow> dlist (set_prev p v s) h xs = dlist s h xs"
  unfolding dlist_def by (subst chain_cong [of _ _ s]; auto dest: in_set_butlastD)+

lemma dlist_link_other:
  "p \<notin> set (h # xs) \<Longrightarrow> n \<notin> set (h # xs) \<Longrightarrow> dlist (link p n s) h xs = dlist s h xs"
  by (simp add: link_def)

lemma dlist_ends:
  assumes "dlist s h xs"
  shows "lnext s h = behind xs h" "lprev s h = before h xs"
  using assms dlist_pieces [of s h "[]" xs] dlist_pieces [of s h xs "[]"] by simp_all

lemma dlist_add: "dlist s h xs \<Longrightarrow> new \<notin> set (h # xs) \<Longrightarrow> dlist (list_add new h s) h (new # xs)"
  using dlist_insert [of s h "[]" xs new] by (simp add: list_add_def list_add_between_link dlist_ends)

lemma dlist_add_tail: "dlist s h xs \<Longrightarrow> new \<notin> set (h # xs) \<Longrightarrow> dlist (list_add_tail new h s) h (xs @ [new])"
  using dlist_insert [of s h xs "[]" new] by (simp add: list_add_tail_def list_add_between_link dlist_ends)

lemma dlist_del_entry:
  assumes "dlist s h xs" "x \<in> set xs"
  shows "dlist (list_del_entry x s) h (remove1 x xs)"
proof -
  obtain ys zs where xs: "xs = ys @ x # zs" "x \<notin> set ys" using assms(2) by (meson split_list_first)
  note d = dlist_delete [OF assms(1) [unfolded xs(1)]]
  show ?thesis
    using d(1) xs(2) by (simp add: list_del_entry_def list_del_entry_valid_def list_del_between_link d(2,3) xs(1) remove1_append)
qed

lemma dlist_remove1_notin: "dlist s h xs \<Longrightarrow> x \<in> set xs \<Longrightarrow> x \<notin> set (h # remove1 x xs)"
  by (auto simp: dlist_def)

lemma dlist_del: "dlist s h xs \<Longrightarrow> x \<in> set xs \<Longrightarrow> dlist (list_del x s) h (remove1 x xs)"
  using dlist_del_entry dlist_remove1_notin by (simp add: list_del_def)

lemma dlist_del_init:
  assumes "dlist s h xs" "x \<in> set xs"
  shows "dlist (list_del_init x s) h (remove1 x xs)" "dlist (list_del_init x s) x []"
  using dlist_del_entry [OF assms] dlist_remove1_notin [OF assms]
  by (simp_all add: list_del_init_def INIT_LIST_HEAD_def) (simp add: dlist_def)

lemma dlist_move: "dlist s h xs \<Longrightarrow> x \<in> set xs \<Longrightarrow> dlist (list_move x h s) h (x # remove1 x xs)"
  unfolding list_move_def by (intro dlist_add dlist_del_entry dlist_remove1_notin)

lemma dlist_move_tail: "dlist s h xs \<Longrightarrow> x \<in> set xs \<Longrightarrow> dlist (list_move_tail x h s) h (remove1 x xs @ [x])"
  unfolding list_move_tail_def by (intro dlist_add_tail dlist_del_entry dlist_remove1_notin)

lemma dlist_empty: "dlist s h xs \<Longrightarrow> list_empty h s \<longleftrightarrow> xs = []"
  by (cases xs) (auto simp: list_empty_def dlist_ends dlist_def)

lemma dlist_singular:
  assumes "dlist s h xs" shows "list_is_singular h s \<longleftrightarrow> length xs = 1"
proof (cases xs)
  case (Cons x ys)
  have "x = before h xs \<longleftrightarrow> ys = []"
    using assms Cons last_in_set [of ys] by (auto simp: dlist_def)
  then show ?thesis using assms Cons by (simp add: list_is_singular_def dlist_empty [OF assms] dlist_ends [OF assms])
qed (use assms in \<open>simp add: list_is_singular_def dlist_empty\<close>)

lemma dlist_rotate_left: "dlist s h xs \<Longrightarrow> dlist (list_rotate_left h s) h (rotate1 xs)"
proof (cases xs)
  case (Cons x ys)
  then show "dlist s h xs \<Longrightarrow> dlist (list_rotate_left h s) h (rotate1 xs)"
    using dlist_move_tail [of s h xs x] by (simp add: list_rotate_left_def dlist_empty dlist_ends)
qed (simp add: list_rotate_left_def dlist_empty)

text \<open>Moving the head: the same circle seen from another entry.\<close>

lemma dlist_rehead:
  assumes "dlist s h (xs @ x # ys)" shows "dlist s x (ys @ h # xs)"
proof -
  have 1: "distinct (h # xs @ x # ys)" "chain s (h # xs)" "chain s ((x # ys) @ [h])"
    "lnext s (before h xs) = x" "lprev s x = before h xs"
    using assms unfolding dlist_pieces [of s h xs] by auto
  obtain us p where p: "h # xs = us @ [p]" "p = before h xs" by (metis append_butlast_last_id list.distinct(1))
  have "chain s ((x # ys) @ h # xs)" using chain_append [of s "x # ys" h xs] 1(2,3) by blast
  moreover have "(x # ys) @ h # xs = (x # ys @ us) @ [p]" using p(1) by simp
  moreover have "chain s (p # [x])" using 1(4,5) p(2) by simp
  ultimately have "chain s ((x # ys @ us) @ p # [x])"
    using chain_append [of s "x # ys @ us" p "[x]"] by metis
  moreover have "(x # ys @ us) @ p # [x] = x # (ys @ h # xs) @ [x]" using p(1) by simp
  ultimately have "chain s (x # (ys @ h # xs) @ [x])" by metis
  moreover have "distinct (x # ys @ h # xs)" using 1(1) by auto
  ultimately show ?thesis unfolding dlist_def by blast
qed

section \<open>Joining and cutting\<close>

lemma chain_middle: "chain s (xs @ ys) \<Longrightarrow> chain s ys"
proof (induction xs)
  case (Cons x xs)
  then show ?case by (cases "xs @ ys") auto
qed simp

lemma chain_prefix: "chain s (xs @ ys) \<Longrightarrow> chain s xs"
  by (induction s xs rule: chain.induct) auto

lemma dlist_interior: "dlist s l ys \<Longrightarrow> chain s ys"
  unfolding dlist_def using chain_middle [of s "[l]" "ys @ [l]"] chain_prefix [of s ys "[l]"] by simp

text \<open>Appending a chain to another one.\<close>

lemma chain_join:
  assumes "chain s us" "chain s ws" "us \<noteq> []" "ws \<noteq> []" "distinct us" "distinct ws" "set us \<inter> set ws = {}"
  shows "chain (link (last us) (hd ws) s) (us @ ws)"
proof -
  obtain us' p where p: "us = us' @ [p]" using assms(3) by (metis append_butlast_last_id)
  obtain n vs where n: "ws = n # vs" using assms(4) by (meson neq_Nil_conv)
  have "n \<notin> set (tl (us' @ [p]))" using assms(7) p n by (metis disjoint_iff list.set_intros(1) list.set_sel(2) tl_Nil)
  moreover have "p \<notin> set (butlast (n # vs))" using assms(7) p n by (metis disjoint_iff in_set_butlastD in_set_conv_decomp)
  ultimately have "chain (link p n s) (us' @ p # n # vs)"
    using assms p n by (intro chain_link) auto
  then show ?thesis by (simp add: p n)
qed

lemma dlist_splice_between:
  assumes "dlist s h (as @ bs)" "dlist s l ys" "ys \<noteq> []" "set (h # as @ bs) \<inter> set (l # ys) = {}"
  shows "dlist (list_splice_between l (before h as) (behind bs h) s) h (as @ ys @ bs)"
proof -
  have d: "distinct (h # as @ bs)" "chain s (h # as)" "chain s (bs @ [h])" "distinct (l # ys)" "chain s ys"
    using assms(1,2) dlist_interior [OF assms(2)] by (simp_all add: dlist_pieces [of s h] dlist_def [of s l])
  have e: "lnext s l = hd ys" "lprev s l = last ys"
    using dlist_ends [OF assms(2)] assms(3) by simp_all
  let ?s = "link (before h as) (hd ys) s"
  have 1: "chain ?s (h # as @ ys)"
  proof -
    have "set (h # as) \<inter> set ys = {}" "distinct (h # as)" "distinct ys" using assms(4) d(1,4) by auto
    then show ?thesis using chain_join [OF d(2) d(5)] assms(3) by simp
  qed
  have "before h as \<notin> set bs" using before_notin [OF d(1)] .
  moreover have "hd ys \<notin> set (bs @ [h])" using assms(3,4) hd_in_set [of ys] by auto
  ultimately have 2: "chain ?s (bs @ [h])"
    using d(3) by (subst chain_link_other) (auto dest: list.set_sel(2) [rotated])
  have dd: "distinct (h # (as @ ys) @ bs)" using d(1,4) assms(4) by auto
  have "before h (as @ ys) = last ys" using assms(3) by simp
  then show ?thesis
    using link_pieces [of ?s h "as @ ys" bs] 1 2 dd unfolding dlist_def list_splice_between_link e by simp
qed

lemma dlist_splice:
  assumes "dlist s h xs" "dlist s l ys" "set (h # xs) \<inter> set (l # ys) = {}"
  shows "dlist (list_splice l h s) h (ys @ xs)" "dlist (list_splice_tail l h s) h (xs @ ys)"
proof -
  have 1: "dlist (list_splice_between l h (behind xs h) s) h (ys @ xs)" if "ys \<noteq> []"
    using dlist_splice_between [of s h "[]" xs l ys] assms that by simp
  have 2: "dlist (list_splice_between l (before h xs) h s) h (xs @ ys)" if "ys \<noteq> []"
    using dlist_splice_between [of s h xs "[]" l ys] assms that by simp
  show "dlist (list_splice l h s) h (ys @ xs)"
    using 1 assms by (simp add: list_splice_def dlist_empty [OF assms(2)] dlist_ends [OF assms(1)])
  show "dlist (list_splice_tail l h s) h (xs @ ys)"
    using 2 assms by (simp add: list_splice_tail_def dlist_empty [OF assms(2)] dlist_ends [OF assms(1)])
qed

text \<open>The variants that leave the emptied list as a valid empty list.\<close>

lemma dlist_splice_init:
  assumes "dlist s h xs" "dlist s l ys" "set (h # xs) \<inter> set (l # ys) = {}"
  shows "dlist (list_splice_init l h s) h (ys @ xs)" "dlist (list_splice_init l h s) l []"
    "dlist (list_splice_tail_init l h s) h (xs @ ys)" "dlist (list_splice_tail_init l h s) l []"
proof -
  have l: "l \<notin> set (h # ys @ xs)" using assms(2,3) by (auto simp: dlist_def)
  have e: "list_splice_init l h s = (if ys \<noteq> [] then INIT_LIST_HEAD l (list_splice l h s) else s)"
    "list_splice_tail_init l h s = (if ys \<noteq> [] then INIT_LIST_HEAD l (list_splice_tail l h s) else s)"
    by (simp_all add: list_splice_init_def list_splice_tail_init_def list_splice_def list_splice_tail_def
        dlist_empty [OF assms(2)])
  show "dlist (list_splice_init l h s) h (ys @ xs)" "dlist (list_splice_tail_init l h s) h (xs @ ys)"
    using dlist_splice [OF assms] assms(1) l by (simp_all add: e INIT_LIST_HEAD_def)
  show "dlist (list_splice_init l h s) l []" "dlist (list_splice_tail_init l h s) l []"
    using assms(2) by (auto simp: e dlist_INIT)
qed

lemma dlist_close:
  assumes "chain s zs" "zs \<noteq> []" "distinct (l # zs)"
  shows "dlist (link (last zs) l (link l (hd zs) s)) l zs"
proof -
  have "chain (link l (hd zs) s) (l # zs)" using chain_join [of s "[l]" zs] assms by simp
  then show ?thesis
    using link_pieces [of "link l (hd zs) s" l zs "[]"] assms by (simp add: dlist_def)
qed

lemma list_cut_at_link:
  "l \<noteq> entry \<Longrightarrow> list_cut_at l head entry s = link head (lnext s entry) (link entry l (link l (lnext s head) s))"
  by (simp add: list_cut_at_def link_def Let_def set_next_prev_commute)

lemma dlist_cut_position:
  assumes "dlist s h (xs @ e # ys)" "l \<notin> set (h # xs @ e # ys)"
  shows "dlist (list_cut_position l h e s) l (xs @ [e])" "dlist (list_cut_position l h e s) h ys"
proof -
  have d: "distinct (h # xs @ e # ys)" "chain s ((e # ys) @ [h])" "lnext s h = hd (xs @ [e])"
    using assms(1) dlist_ends(1) [OF assms(1)] by (auto simp: dlist_pieces [of s h xs] hd_append)
  have c: "chain s (xs @ [e])" "chain s (ys @ [h])" "lnext s e = behind ys h"
    using dlist_interior [OF assms(1)] chain_prefix [of s "xs @ [e]" ys] d(2) by simp_all (cases ys; simp)+
  have sing: "\<not> (list_is_singular h s \<and> \<not> list_is_head e h \<and> e \<noteq> lnext s h)"
    using dlist_singular [OF assms(1)] d(3) by (cases xs) auto
  have op: "list_cut_position l h e s = link h (behind ys h) (link e l (link l (hd (xs @ [e])) s))" (is "_ = link h ?n ?s")
    using sing d(1,3) assms(2) c(3)
    by (auto simp: list_cut_position_def dlist_empty [OF assms(1)] list_is_head_def list_cut_at_link)
  have L: "dlist ?s l (xs @ [e])" using dlist_close [OF c(1)] d(1) assms(2) by auto
  have n: "?n \<notin> set (l # xs @ [e])" using d(1) assms(2) by (cases ys) auto
  then show "dlist (list_cut_position l h e s) l (xs @ [e])"
    unfolding op using L d(1) assms(2) by (subst dlist_link_other) auto
  have o: "chain (link p n t) (ys @ [h]) = chain t (ys @ [h])" if "p \<notin> set ys" "n \<notin> set (ys @ [h])" for p n t
    using that by (intro chain_link_other) (auto dest: list.set_sel(2) [rotated])
  have "hd (xs @ [e]) \<in> set (xs @ [e])" by (rule hd_in_set) simp
  then have "hd (xs @ [e]) \<notin> set (ys @ [h])" using d(1) by auto
  then have "chain ?s (ys @ [h])" using c(2) d(1) assms(2) by (simp add: o del: hd_append)
  then show "dlist (list_cut_position l h e s) h ys"
    unfolding op using link_pieces [of ?s h "[]" ys] d(1) by (simp add: dlist_def)
qed

lemma dlist_replace:
  assumes "dlist s h (xs @ old # ys)" "new \<notin> set (h # xs @ old # ys)"
  shows "dlist (list_replace old new s) h (xs @ new # ys)"
proof -
  note d = dlist_delete [OF assms(1)]
  have c: "distinct (h # xs @ old # ys)" "chain s (h # xs)" "chain s ((old # ys) @ [h])"
    using assms(1) unfolding dlist_pieces [of s h xs] by auto
  have y: "chain s (ys @ [h])" using c(3) by (cases ys) simp_all
  have n: "behind ys h \<noteq> old" using c(1) by (cases ys) auto
  have "list_replace old new s = link (before h xs) new (link new (behind ys h) s)"
    using d(2,3) n assms(2) by (auto simp: list_replace_def Let_def link_def set_next_def set_prev_def fun_upd_twist)
  then show ?thesis using pieces_insert [of h xs ys s new] c(1,2) y assms(2) by auto
qed

section \<open>Iteration\<close>

lemma list_for_each_from_chain:
  "chain s (ys @ [h]) \<Longrightarrow> h \<notin> set ys \<Longrightarrow> list_for_each_from (behind ys h) h s = Some ys"
proof (induction ys)
  case Nil
  then show ?case by (subst list_for_each_from.simps) (simp add: list_is_head_def)
next
  case (Cons y ys)
  have "lnext s y = behind ys h" "chain s (ys @ [h])" using Cons.prems(1) by (cases ys; simp)+
  then show ?case using Cons by (subst list_for_each_from.simps) (auto simp: list_is_head_def)
qed

lemma count_nodes_loop_chain:
  "chain s (ys @ [h]) \<Longrightarrow> h \<notin> set ys \<Longrightarrow>
   count_nodes_loop (behind ys h) h c s = Some (c + word_of_nat (length ys))"
proof (induction ys arbitrary: c)
  case Nil
  then show ?case by (subst count_nodes_loop.simps) (simp add: list_is_head_def)
next
  case (Cons y ys)
  have "lnext s y = behind ys h" "chain s (ys @ [h])" using Cons.prems(1) by (cases ys; simp)+
  then show ?case using Cons by (subst count_nodes_loop.simps) (auto simp: list_is_head_def)
qed

lemma dlist_iterate:
  assumes "dlist s h xs"
  shows "list_for_each h s = Some xs" "list_count_nodes h s = Some (word_of_nat (length xs))"
proof -
  have "chain s (xs @ [h])" "h \<notin> set xs"
    using assms dlist_pieces [of s h "[]" xs] by (simp_all add: dlist_def)
  then show "list_for_each h s = Some xs" "list_count_nodes h s = Some (word_of_nat (length xs))"
    using list_for_each_from_chain [of s xs h] count_nodes_loop_chain [of s xs h 0]
    by (simp_all add: list_for_each_def list_count_nodes_def dlist_ends [OF assms])
qed

text \<open>Removing entries while iterating with the safe loop.\<close>

lemma list_for_each_safe_from_delete:
  "dlist s h (xs @ ys) \<Longrightarrow> n = lnext s (behind ys h) \<Longrightarrow>
   \<exists>s'. list_for_each_safe_from (\<lambda>p s. if P p then list_del p s else s) (behind ys h) n h s = Some s'
     \<and> dlist s' h (xs @ filter (\<lambda>p. \<not> P p) ys)"
proof (induction ys arbitrary: xs s n)
  case Nil
  then show ?case by (subst list_for_each_safe_from.simps) (simp add: list_is_head_def)
next
  case (Cons y ys)
  let ?f = "\<lambda>p s. if P p then list_del p s else s" and ?xs = "xs @ (if P y then [] else [y])"
  have d: "distinct (h # xs @ y # ys)" using Cons.prems(1) by (simp add: dlist_def)
  have n: "n = behind ys h" using Cons.prems dlist_delete(3) by simp
  have f: "dlist (?f y s) h (?xs @ ys)"
    using Cons.prems(1) dlist_del [of s h "xs @ y # ys" y] d by (auto simp: remove1_append)
  have "list_for_each_safe_from ?f (behind (y # ys) h) n h s
    = list_for_each_safe_from ?f (behind ys h) (lnext (?f y s) (behind ys h)) h (?f y s)"
    using d n by (subst list_for_each_safe_from.simps) (auto simp: list_is_head_def)
  then show ?case using Cons.IH [OF f refl] by auto
qed

section \<open>Lists with a single head pointer\<close>

fun hchain :: "list_store \<Rightarrow> ptr \<Rightarrow> ptr list \<Rightarrow> bool" where
  "hchain s slot [] \<longleftrightarrow> lnext s slot = 0"
| "hchain s slot (x # xs) \<longleftrightarrow> lnext s slot = x \<and> x \<noteq> 0 \<and> lprev s x = slot \<and> hchain s x xs"

definition hlist :: "list_store \<Rightarrow> ptr \<Rightarrow> ptr list \<Rightarrow> bool" where
  "hlist s h xs \<longleftrightarrow> distinct (h # xs) \<and> hchain s h xs"

lemma hchain_cong:
  "\<forall>p\<in>set (h # xs). lnext s' p = lnext s p \<Longrightarrow> \<forall>p\<in>set xs. lprev s' p = lprev s p \<Longrightarrow> hchain s' h xs = hchain s h xs"
  by (induction xs arbitrary: h) auto

lemma hlist_add: "hlist s h xs \<Longrightarrow> n \<notin> set (h # xs) \<Longrightarrow> n \<noteq> 0 \<Longrightarrow> hlist (hlist_add_head n h s) h (n # xs)"
proof (cases xs)
  case (Cons x ys)
  assume a: "hlist s h xs" "n \<notin> set (h # xs)" "n \<noteq> 0"
  have "hchain (hlist_add_head n h s) x ys = hchain s x ys"
    using a Cons by (intro hchain_cong) (auto simp: hlist_add_head_def Let_def hlist_def)
  then show ?thesis using a Cons by (auto simp: hlist_add_head_def Let_def hlist_def)
qed (auto simp: hlist_add_head_def Let_def hlist_def)

lemma hchain_mid:
  "hchain s slot (xs @ n # ys) \<Longrightarrow> lprev s n = last (slot # xs) \<and> lnext s (last (slot # xs)) = n \<and> n \<noteq> 0
    \<and> lnext s n = (if ys = [] then 0 else hd ys)"
  by (induction xs arbitrary: slot) (auto, (cases ys; auto)+)

lemma hchain_del:
  "distinct (slot # xs @ n # ys) \<Longrightarrow> hchain s slot (xs @ n # ys) \<Longrightarrow> hchain (hlist_del_node n s) slot (xs @ ys)"
proof (induction xs arbitrary: slot)
  case Nil
  show ?case
  proof (cases ys)
    case (Cons y zs)
    have "hchain (hlist_del_node n s) y zs = hchain s y zs"
      using Nil Cons by (intro hchain_cong) (auto simp: hlist_del_node_def Let_def)
    then show ?thesis using Nil Cons by (auto simp: hlist_del_node_def Let_def)
  qed (use Nil in \<open>auto simp: hlist_del_node_def Let_def\<close>)
next
  case (Cons x xs)
  have m: "lprev s n = last (x # xs)" "lnext s n = (if ys = [] then 0 else hd ys)"
    using hchain_mid [of s x xs n ys] Cons.prems(2) by simp_all
  have "last (x # xs) \<noteq> slot" using Cons.prems(1) last_in_set [of "x # xs"] by (auto split: if_splits)
  moreover have "ys \<noteq> [] \<Longrightarrow> hd ys \<noteq> x" using Cons.prems(1) hd_in_set [of ys] by auto
  ultimately have "lnext (hlist_del_node n s) slot = x" "lprev (hlist_del_node n s) x = slot"
    using m Cons.prems(2) by (auto simp: hlist_del_node_def Let_def)
  then show ?case using Cons by simp
qed

lemma hlist_delete:
  assumes "hlist s h xs" "n \<in> set xs"
  shows "hlist (hlist_del n s) h (remove1 n xs)"
proof -
  obtain as bs where xs: "xs = as @ n # bs" "n \<notin> set as" using assms(2) by (meson split_list_first)
  have d: "distinct (h # as @ n # bs)" "hchain s h (as @ n # bs)" using assms(1) xs(1) by (simp_all add: hlist_def)
  have "hchain (hlist_del n s) h (as @ bs) = hchain (hlist_del_node n s) h (as @ bs)"
    using d(1) by (intro hchain_cong) (auto simp: hlist_del_def)
  then show ?thesis using hchain_del [OF d] d(1) xs by (auto simp: hlist_def remove1_append)
qed

section \<open>The interface of a list\<close>

text \<open>What the clients of the lists rely on: a stack, and a stack that is also a queue.\<close>

locale stack_list =
  fixes rep :: "'s \<Rightarrow> 'p \<Rightarrow> 'p list \<Rightarrow> bool"
    and ok :: "'p \<Rightarrow> bool"
    and first :: "'p \<Rightarrow> 's \<Rightarrow> 'p"
    and add_first :: "'p \<Rightarrow> 'p \<Rightarrow> 's \<Rightarrow> 's"
    and remove :: "'p \<Rightarrow> 's \<Rightarrow> 's"
  assumes rep_distinct: "rep s h xs \<Longrightarrow> distinct (h # xs)"
    and first: "rep s h (x # xs) \<Longrightarrow> first h s = x"
    and add_first: "rep s h xs \<Longrightarrow> n \<notin> set (h # xs) \<Longrightarrow> ok n \<Longrightarrow> rep (add_first n h s) h (n # xs)"
    and remove: "rep s h xs \<Longrightarrow> x \<in> set xs \<Longrightarrow> rep (remove x s) h (remove1 x xs)"

locale queue_list = stack_list +
  fixes add_last :: "'b \<Rightarrow> 'b \<Rightarrow> 'a \<Rightarrow> 'a"
  assumes add_last: "rep s h xs \<Longrightarrow> n \<notin> set (h # xs) \<Longrightarrow> ok n \<Longrightarrow> rep (add_last n h s) h (xs @ [n])"

text \<open>Taking the first entry off a list, \<open>k\<close> times.\<close>

fun drain :: "('p \<Rightarrow> 's \<Rightarrow> 'p) \<Rightarrow> ('p \<Rightarrow> 's \<Rightarrow> 's) \<Rightarrow> nat \<Rightarrow> 'p \<Rightarrow> 's \<Rightarrow> 'p list \<times> 's" where
  "drain first remove 0 h s = ([], s)"
| "drain first remove (Suc k) h s =
    (case drain first remove k h (remove (first h s) s) of (ps, s') \<Rightarrow> (first h s # ps, s'))"

context stack_list
begin

lemma drain_rep: "rep s h (xs @ ys) \<Longrightarrow> \<exists>s'. drain first remove (length xs) h s = (xs, s') \<and> rep s' h ys"
proof (induction xs arbitrary: s)
  case (Cons x xs)
  have f: "first h s = x" using Cons.prems first by simp
  have "rep (remove x s) h (xs @ ys)" using remove [OF Cons.prems, of x] by simp
  from Cons.IH [OF this] show ?case by (auto simp: f)
qed simp

lemma push_all:
  "rep s h xs \<Longrightarrow> distinct (h # ns) \<Longrightarrow> set ns \<inter> set xs = {} \<Longrightarrow> \<forall>n\<in>set ns. ok n \<Longrightarrow>
   rep (fold (\<lambda>n. add_first n h) ns s) h (rev ns @ xs)"
proof (induction ns arbitrary: s xs)
  case (Cons n ns)
  have "rep (add_first n h s) h (n # xs)" using Cons.prems by (intro add_first) auto
  from Cons.IH [OF this] Cons.prems show ?case by auto
qed simp

lemma lifo:
  assumes "rep s h []" "distinct (h # ns)" "\<forall>n\<in>set ns. ok n"
  shows "\<exists>s'. drain first remove (length ns) h (fold (\<lambda>n. add_first n h) ns s) = (rev ns, s') \<and> rep s' h []"
  using drain_rep [of _ h "rev ns" "[]"] push_all [OF assms(1,2) _ assms(3)] by simp

end

context queue_list
begin

lemma append_all:
  "rep s h xs \<Longrightarrow> distinct (h # ns) \<Longrightarrow> set ns \<inter> set xs = {} \<Longrightarrow> \<forall>n\<in>set ns. ok n \<Longrightarrow>
   rep (fold (\<lambda>n. add_last n h) ns s) h (xs @ ns)"
proof (induction ns arbitrary: s xs)
  case (Cons n ns)
  have "rep (add_last n h s) h (xs @ [n])" using Cons.prems by (intro add_last) auto
  from Cons.IH [OF this] Cons.prems show ?case by auto
qed simp

lemma fifo:
  assumes "rep s h []" "distinct (h # ns)" "\<forall>n\<in>set ns. ok n"
  shows "\<exists>s'. drain first remove (length ns) h (fold (\<lambda>n. add_last n h) ns s) = (ns, s') \<and> rep s' h []"
  using drain_rep [of _ h ns "[]"] append_all [OF assms(1,2) _ assms(3)] by simp

end

interpretation hl: stack_list hlist "\<lambda>n. n \<noteq> 0" "\<lambda>h s. lnext s h" hlist_add_head hlist_del
  by unfold_locales (auto simp: hlist_add hlist_delete, auto simp: hlist_def)

interpretation dl: queue_list dlist "\<lambda>_. True" "\<lambda>h s. lnext s h" list_add list_del list_add_tail
  by unfold_locales (simp_all add: dlist_ends dlist_add dlist_add_tail dlist_del, auto simp: dlist_def)

end
