(* ===== verification/Quest_List_Props.thy ===== *)
theory Quest_List_Props
  imports Quest_List_Lemmas
begin

text \<open>
  Properties of the lists: the operations refine operations on lists of addresses, and the
  order in which entries come off.
\<close>

section \<open>Properties\<close>

text \<open>
  C36. The doubly linked list implements a list of addresses. If the list with head \<open>h\<close> holds \<open>xs\<close>,
  then iterating visits exactly \<open>xs\<close> and ends, the count is its length, and each operation on the
  pointers does what its name says to \<open>xs\<close>: adding in front and at the end, deleting, moving to
  the end, rotating, and, for a second list with other entries, joining the two. Removing
  entries inside the safe loop leaves the entries that were kept, in order.
\<close>

theorem list_ops_refine:
  assumes "dlist s h xs"
  shows "list_for_each h s = Some xs \<and> list_count_nodes h s = Some (word_of_nat (length xs))
    \<and> (list_empty h s \<longleftrightarrow> xs = [])
    \<and> (\<forall>n. n \<notin> set (h # xs) \<longrightarrow> dlist (list_add n h s) h (n # xs) \<and> dlist (list_add_tail n h s) h (xs @ [n]))
    \<and> (\<forall>x\<in>set xs. dlist (list_del x s) h (remove1 x xs) \<and> dlist (list_move_tail x h s) h (remove1 x xs @ [x]))
    \<and> dlist (list_rotate_left h s) h (rotate1 xs)
    \<and> (\<forall>l ys. dlist s l ys \<and> set (h # xs) \<inter> set (l # ys) = {} \<longrightarrow>
         dlist (list_splice_tail_init l h s) h (xs @ ys) \<and> dlist (list_splice_tail_init l h s) l [])
    \<and> (\<forall>P. \<exists>s'. list_for_each_safe (\<lambda>p s. if P p then list_del p s else s) h s = Some s'
         \<and> dlist s' h (filter (\<lambda>p. \<not> P p) xs))"
proof (intro conjI allI ballI impI)
  fix P :: "ptr \<Rightarrow> bool"
  show "\<exists>s'. list_for_each_safe (\<lambda>p s. if P p then list_del p s else s) h s = Some s'
         \<and> dlist s' h (filter (\<lambda>p. \<not> P p) xs)"
    using list_for_each_safe_from_delete [of s h "[]" xs "lnext s (behind xs h)" P] assms
    by (simp add: list_for_each_safe_def dlist_ends)
next
  fix l ys assume "dlist s l ys \<and> set (h # xs) \<inter> set (l # ys) = {}"
  then show "dlist (list_splice_tail_init l h s) h (xs @ ys)" "dlist (list_splice_tail_init l h s) l []"
    using dlist_splice_init(3,4) [OF assms] by blast+
qed (use assms in \<open>blast intro: dlist_iterate dlist_add dlist_add_tail dlist_del
  dlist_move_tail dlist_rotate_left dest: dlist_empty\<close>)+

definition sample_list :: list_store where
  "sample_list = list_add_tail 0x300 0x100 (list_add_tail 0x200 0x100 (INIT_LIST_HEAD 0x100 \<lparr>lnext = (\<lambda>_. 0), lprev = (\<lambda>_. 0)\<rparr>))"

lemma sample_list: "dlist sample_list 0x100 [0x200, 0x300]"
proof -
  let ?s = "INIT_LIST_HEAD 0x100 \<lparr>lnext = (\<lambda>_. 0), lprev = (\<lambda>_. 0)\<rparr>"
  have "dlist (list_add_tail 0x200 0x100 ?s) 0x100 ([] @ [0x200])"
    by (rule dlist_add_tail [OF dlist_INIT]) simp
  then have "dlist sample_list 0x100 (([] @ [0x200]) @ [0x300])"
    unfolding sample_list_def by (rule dlist_add_tail) simp
  then show ?thesis by simp
qed

theorem list_ops_refine_witness:
  "list_for_each 0x100 sample_list = Some [0x200, 0x300] \<and> dlist (list_rotate_left 0x100 sample_list) 0x100 [0x300, 0x200]"
  using list_ops_refine [OF sample_list] by simp

text \<open>
  C37. Entries appended to an empty list with \<open>list_add_tail\<close> come off its front in the order they
  were added, and entries pushed onto an empty \<open>hlist\<close> come off in the reverse order; both lists
  are empty afterwards.
\<close>

theorem list_fifo_hlist_lifo:
  assumes "distinct (h # ns)" "0 \<notin> set ns"
  shows "(dlist s h [] \<longrightarrow> (\<exists>s'. drain (\<lambda>h s. lnext s h) list_del (length ns) h
             (fold (\<lambda>n. list_add_tail n h) ns s) = (ns, s') \<and> dlist s' h []))
    \<and> (hlist s h [] \<longrightarrow> (\<exists>s'. drain (\<lambda>h s. lnext s h) hlist_del (length ns) h
             (fold (\<lambda>n. hlist_add_head n h) ns s) = (rev ns, s') \<and> hlist s' h []))"
proof (intro conjI impI)
  assume "dlist s h []"
  then show "\<exists>s'. drain (\<lambda>h s. lnext s h) list_del (length ns) h
             (fold (\<lambda>n. list_add_tail n h) ns s) = (ns, s') \<and> dlist s' h []"
    using assms(1) by (rule dl.fifo) simp
next
  assume "hlist s h []"
  then show "\<exists>s'. drain (\<lambda>h s. lnext s h) hlist_del (length ns) h
             (fold (\<lambda>n. hlist_add_head n h) ns s) = (rev ns, s') \<and> hlist s' h []"
    using assms(1) by (rule hl.lifo) (use assms(2) in auto)
qed

theorem list_fifo_hlist_lifo_witness:
  "\<exists>s'. drain (\<lambda>h s. lnext s h) list_del 2 0x100 (fold (\<lambda>n. list_add_tail n 0x100) [0x200, 0x300]
     (INIT_LIST_HEAD 0x100 sample_list)) = ([0x200, 0x300], s') \<and> dlist s' 0x100 []"
proof -
  have "length [0x200, 0x300 :: ptr] = 2" "distinct (0x100 # [0x200, 0x300 :: ptr])" "(0 :: ptr) \<notin> set [0x200, 0x300]"
    by simp_all
  then show ?thesis
    using list_fifo_hlist_lifo [of "0x100" "[0x200, 0x300]" "INIT_LIST_HEAD 0x100 sample_list"] dlist_INIT [of "0x100" sample_list]
    by metis
qed

end
