(* ===== verification/Quest_Bitmap.thy ===== *)
theory Quest_Bitmap
  imports Memblock_Alloc
begin

text \<open>
  The bit searches of \<open>src/linux_porting/lib/find_bit.c\<close> and the bitmaps of
  \<open>src/linux_porting/lib/bitmap.c\<close>. A bitmap is the sequence of its 64-bit words; bit and word
  numbers are natural numbers (an array with \<open>2 ^ 64\<close> bits cannot exist). The operations with a
  source and a destination read a word before they write the same word, so they are given for
  separate arrays; where the code returns at once for equal pointers, the argument \<open>same\<close> tells
  whether they are equal. Assembly-level helpers of the compiler (\<open>__ffs\<close>, \<open>__fls\<close>, \<open>hweight_long\<close>)
  are defined by the value they return.
\<close>

unbundle bit_operations_syntax

type_synonym bmap = "nat \<Rightarrow> u64"

section \<open>Words\<close>

definition FIRST_WORD_MASK :: "nat \<Rightarrow> u64" where
  "FIRST_WORD_MASK start = push_bit (start mod 64) (NOT 0)"

text \<open>\<open>~0UL >> (-nbits & 63)\<close>\<close>

definition LAST_WORD_MASK :: "nat \<Rightarrow> u64" where
  "LAST_WORD_MASK nbits = drop_bit ((64 - nbits mod 64) mod 64) (NOT 0)"

definition BITS_TO_LONGS :: "nat \<Rightarrow> nat" where
  "BITS_TO_LONGS nr = (nr + 63) div 64"

text \<open>The number of the lowest and of the highest set bit of a word that is not 0.\<close>

definition ffs :: "u64 \<Rightarrow> nat" where
  "ffs w = length (takeWhile (\<lambda>i. \<not> bit w i) [0..<64])"

definition fls_word :: "u64 \<Rightarrow> nat" where
  "fls_word w = 63 - length (takeWhile (\<lambda>i. \<not> bit w i) (rev [0..<64]))"

definition hweight_long :: "u64 \<Rightarrow> nat" where
  "hweight_long w = length (filter (bit w) [0..<64])"

text \<open>\<open>fns\<close>: the number of the \<open>n\<close>-th set bit, 64 if there are fewer.\<close>

fun fns :: "u64 \<Rightarrow> nat \<Rightarrow> nat" where
  "fns word 0 = (if word \<noteq> 0 then ffs word else 64)"
| "fns word (Suc n) = (if word \<noteq> 0 then fns (word AND (word - 1)) n else 64)"

section \<open>Searching\<close>

text \<open>The macros; \<open>fetch\<close> gives the pre-processed word with index \<open>idx\<close>.\<close>

function find_first_loop :: "(nat \<Rightarrow> u64) \<Rightarrow> nat \<Rightarrow> nat \<Rightarrow> nat" where
  "find_first_loop fetch idx sz =
    (if idx * 64 < sz then
       if fetch idx \<noteq> 0 then min (idx * 64 + ffs (fetch idx)) sz
       else find_first_loop fetch (idx + 1) sz
     else sz)"
  by pat_completeness auto
termination
  by (relation "measure (\<lambda>(f, idx, sz). sz - idx * 64)") auto

definition FIND_FIRST_BIT :: "(nat \<Rightarrow> u64) \<Rightarrow> nat \<Rightarrow> nat" where
  "FIND_FIRST_BIT fetch size' = find_first_loop fetch 0 size'"

function find_next_loop :: "(nat \<Rightarrow> u64) \<Rightarrow> nat \<Rightarrow> u64 \<Rightarrow> nat \<Rightarrow> nat" where
  "find_next_loop fetch idx tmp sz =
    (if tmp \<noteq> 0 then min (idx * 64 + ffs tmp) sz
     else if (idx + 1) * 64 \<ge> sz then sz
     else find_next_loop fetch (idx + 1) (fetch (idx + 1)) sz)"
  by pat_completeness auto
termination
  by (relation "measure (\<lambda>(f, idx, tmp, sz). sz - idx * 64)") auto

definition FIND_NEXT_BIT :: "(nat \<Rightarrow> u64) \<Rightarrow> nat \<Rightarrow> nat \<Rightarrow> nat" where
  "FIND_NEXT_BIT fetch size' start =
    (if start \<ge> size' then size'
     else find_next_loop fetch (start div 64) (fetch (start div 64) AND FIRST_WORD_MASK start) size')"

function find_nth_loop :: "(nat \<Rightarrow> u64) \<Rightarrow> nat \<Rightarrow> nat \<Rightarrow> u64 \<Rightarrow> nat \<Rightarrow> nat" where
  "find_nth_loop fetch idx nr tmp sz =
    (if (idx + 1) * 64 \<le> sz then
       if idx * 64 + nr \<ge> sz then sz
       else if hweight_long (fetch idx) > nr then idx * 64 + fns (fetch idx) nr
       else find_nth_loop fetch (idx + 1) (nr - hweight_long (fetch idx)) (fetch idx) sz
     else
       idx * 64 + fns (if sz mod 64 \<noteq> 0 then fetch idx AND LAST_WORD_MASK sz else tmp) nr)"
  by pat_completeness auto
termination
  by (relation "measure (\<lambda>(f, idx, nr, tmp, sz). sz - idx * 64)") auto

definition FIND_NTH_BIT :: "(nat \<Rightarrow> u64) \<Rightarrow> nat \<Rightarrow> nat \<Rightarrow> nat" where
  "FIND_NTH_BIT fetch size' num = find_nth_loop fetch 0 num 0 size'"

definition find_first_bit :: "bmap \<Rightarrow> nat \<Rightarrow> nat" where
  "find_first_bit a size' = FIND_FIRST_BIT a size'"

definition find_first_and_bit :: "bmap \<Rightarrow> bmap \<Rightarrow> nat \<Rightarrow> nat" where
  "find_first_and_bit a b size' = FIND_FIRST_BIT (\<lambda>i. a i AND b i) size'"

definition find_first_andnot_bit :: "bmap \<Rightarrow> bmap \<Rightarrow> nat \<Rightarrow> nat" where
  "find_first_andnot_bit a b size' = FIND_FIRST_BIT (\<lambda>i. a i AND NOT (b i)) size'"

definition find_first_and_and_bit :: "bmap \<Rightarrow> bmap \<Rightarrow> bmap \<Rightarrow> nat \<Rightarrow> nat" where
  "find_first_and_and_bit a b c size' = FIND_FIRST_BIT (\<lambda>i. a i AND b i AND c i) size'"

definition find_first_zero_bit :: "bmap \<Rightarrow> nat \<Rightarrow> nat" where
  "find_first_zero_bit a size' = FIND_FIRST_BIT (\<lambda>i. NOT (a i)) size'"

definition find_next_bit :: "bmap \<Rightarrow> nat \<Rightarrow> nat \<Rightarrow> nat" where
  "find_next_bit a nbits start = FIND_NEXT_BIT a nbits start"

definition find_next_and_bit :: "bmap \<Rightarrow> bmap \<Rightarrow> nat \<Rightarrow> nat \<Rightarrow> nat" where
  "find_next_and_bit a b nbits start = FIND_NEXT_BIT (\<lambda>i. a i AND b i) nbits start"

definition find_next_andnot_bit :: "bmap \<Rightarrow> bmap \<Rightarrow> nat \<Rightarrow> nat \<Rightarrow> nat" where
  "find_next_andnot_bit a b nbits start = FIND_NEXT_BIT (\<lambda>i. a i AND NOT (b i)) nbits start"

definition find_next_or_bit :: "bmap \<Rightarrow> bmap \<Rightarrow> nat \<Rightarrow> nat \<Rightarrow> nat" where
  "find_next_or_bit a b nbits start = FIND_NEXT_BIT (\<lambda>i. a i OR b i) nbits start"

definition find_next_zero_bit :: "bmap \<Rightarrow> nat \<Rightarrow> nat \<Rightarrow> nat" where
  "find_next_zero_bit a nbits start = FIND_NEXT_BIT (\<lambda>i. NOT (a i)) nbits start"

definition find_nth_bit :: "bmap \<Rightarrow> nat \<Rightarrow> nat \<Rightarrow> nat" where
  "find_nth_bit a size' n = FIND_NTH_BIT a size' n"

definition find_nth_and_bit :: "bmap \<Rightarrow> bmap \<Rightarrow> nat \<Rightarrow> nat \<Rightarrow> nat" where
  "find_nth_and_bit a b size' n = FIND_NTH_BIT (\<lambda>i. a i AND b i) size' n"

definition find_nth_andnot_bit :: "bmap \<Rightarrow> bmap \<Rightarrow> nat \<Rightarrow> nat \<Rightarrow> nat" where
  "find_nth_andnot_bit a b size' n = FIND_NTH_BIT (\<lambda>i. a i AND NOT (b i)) size' n"

definition find_nth_and_andnot_bit :: "bmap \<Rightarrow> bmap \<Rightarrow> bmap \<Rightarrow> nat \<Rightarrow> nat \<Rightarrow> nat" where
  "find_nth_and_andnot_bit a b c size' n = FIND_NTH_BIT (\<lambda>i. a i AND b i AND NOT (c i)) size' n"

text \<open>The loop counts \<open>idx\<close> down from the last word; \<open>val\<close> is the mask of the current word.\<close>

fun find_last_loop :: "bmap \<Rightarrow> nat \<Rightarrow> u64 \<Rightarrow> nat \<Rightarrow> nat" where
  "find_last_loop a 0 val size' = (if val AND a 0 \<noteq> 0 then fls_word (val AND a 0) else size')"
| "find_last_loop a (Suc idx) val size' =
    (if val AND a (Suc idx) \<noteq> 0 then Suc idx * 64 + fls_word (val AND a (Suc idx))
     else find_last_loop a idx (NOT 0) size')"

definition find_last_bit :: "bmap \<Rightarrow> nat \<Rightarrow> nat" where
  "find_last_bit a size' =
    (if size' \<noteq> 0 then find_last_loop a ((size' - 1) div 64) (LAST_WORD_MASK size') size' else size')"

text \<open>\<open>bitmap_get_value8\<close> is the argument \<open>get8\<close>; the result is the offset and the clump.\<close>

definition find_next_clump8 :: "(bmap \<Rightarrow> nat \<Rightarrow> u64) \<Rightarrow> u64 \<Rightarrow> bmap \<Rightarrow> nat \<Rightarrow> nat \<Rightarrow> nat \<times> u64" where
  "find_next_clump8 get8 clump a size' offset =
    (let i = find_next_bit a size' offset in
     if i = size' then (size', clump) else (i div 8 * 8, get8 a (i div 8 * 8)))"

section \<open>Comparing\<close>

fun words_all :: "(nat \<Rightarrow> bool) \<Rightarrow> nat \<Rightarrow> nat \<Rightarrow> bool" where
  "words_all ok k 0 = True"
| "words_all ok k (Suc n) = (if \<not> ok k then False else words_all ok (Suc k) n)"

definition bitmap_equal :: "bmap \<Rightarrow> bmap \<Rightarrow> nat \<Rightarrow> bool" where
  "bitmap_equal a b bits =
    (let lim = bits div 64 in
     if \<not> words_all (\<lambda>k. a k = b k) 0 lim then False
     else if bits mod 64 \<noteq> 0 \<and> (a lim XOR b lim) AND LAST_WORD_MASK bits \<noteq> 0 then False
     else True)"

definition bitmap_or_equal :: "bmap \<Rightarrow> bmap \<Rightarrow> bmap \<Rightarrow> nat \<Rightarrow> bool" where
  "bitmap_or_equal a b c bits =
    (let lim = bits div 64 in
     if \<not> words_all (\<lambda>k. a k OR b k = c k) 0 lim then False
     else if bits mod 64 = 0 then True
     else ((a lim OR b lim) XOR c lim) AND LAST_WORD_MASK bits = 0)"

definition bitmap_intersects :: "bmap \<Rightarrow> bmap \<Rightarrow> nat \<Rightarrow> bool" where
  "bitmap_intersects a b bits =
    (let lim = bits div 64 in
     if \<not> words_all (\<lambda>k. a k AND b k = 0) 0 lim then True
     else if bits mod 64 \<noteq> 0 \<and> (a lim AND b lim) AND LAST_WORD_MASK bits \<noteq> 0 then True
     else False)"

definition bitmap_subset :: "bmap \<Rightarrow> bmap \<Rightarrow> nat \<Rightarrow> bool" where
  "bitmap_subset a b bits =
    (let lim = bits div 64 in
     if \<not> words_all (\<lambda>k. a k AND NOT (b k) = 0) 0 lim then False
     else if bits mod 64 \<noteq> 0 \<and> (a lim AND NOT (b lim)) AND LAST_WORD_MASK bits \<noteq> 0 then False
     else True)"

section \<open>Combining\<close>

text \<open>\<open>for (k = 0; k < n; k++) dst[k] = f (k)\<close>\<close>

fun words_loop :: "(nat \<Rightarrow> u64) \<Rightarrow> bmap \<Rightarrow> nat \<Rightarrow> nat \<Rightarrow> bmap" where
  "words_loop f dst k 0 = dst"
| "words_loop f dst k (Suc n) = words_loop f (dst(k := f k)) (Suc k) n"

text \<open>The same with the disjunction of all words written.\<close>

fun words_loop_or :: "(nat \<Rightarrow> u64) \<Rightarrow> bmap \<Rightarrow> u64 \<Rightarrow> nat \<Rightarrow> nat \<Rightarrow> u64 \<times> bmap" where
  "words_loop_or f dst result k 0 = (result, dst)"
| "words_loop_or f dst result k (Suc n) = words_loop_or f (dst(k := f k)) (result OR f k) (Suc k) n"

definition bitmap_complement :: "bmap \<Rightarrow> bmap \<Rightarrow> nat \<Rightarrow> bmap" where
  "bitmap_complement dst src bits = words_loop (\<lambda>k. NOT (src k)) dst 0 (BITS_TO_LONGS bits)"

definition combine_last :: "(nat \<Rightarrow> u64) \<Rightarrow> bmap \<Rightarrow> nat \<Rightarrow> bool \<times> bmap" where
  "combine_last f dst bits =
    (let lim = bits div 64 in
     case words_loop_or f dst 0 0 lim of
       (result, dst1) \<Rightarrow>
         if bits mod 64 \<noteq> 0 then
           (result OR (f lim AND LAST_WORD_MASK bits) \<noteq> 0, dst1(lim := f lim AND LAST_WORD_MASK bits))
         else (result \<noteq> 0, dst1))"

definition bitmap_and :: "bmap \<Rightarrow> bmap \<Rightarrow> bmap \<Rightarrow> nat \<Rightarrow> bool \<times> bmap" where
  "bitmap_and dst a b bits = combine_last (\<lambda>k. a k AND b k) dst bits"

definition bitmap_or :: "bmap \<Rightarrow> bmap \<Rightarrow> bmap \<Rightarrow> nat \<Rightarrow> bmap" where
  "bitmap_or dst a b bits = words_loop (\<lambda>k. a k OR b k) dst 0 (BITS_TO_LONGS bits)"

definition bitmap_xor :: "bmap \<Rightarrow> bmap \<Rightarrow> bmap \<Rightarrow> nat \<Rightarrow> bmap" where
  "bitmap_xor dst a b bits = words_loop (\<lambda>k. a k XOR b k) dst 0 (BITS_TO_LONGS bits)"

definition bitmap_andnot :: "bmap \<Rightarrow> bmap \<Rightarrow> bmap \<Rightarrow> nat \<Rightarrow> bool \<times> bmap" where
  "bitmap_andnot dst a b bits = combine_last (\<lambda>k. a k AND NOT (b k)) dst bits"

definition bitmap_replace :: "bmap \<Rightarrow> bmap \<Rightarrow> bmap \<Rightarrow> bmap \<Rightarrow> nat \<Rightarrow> bmap" where
  "bitmap_replace dst old new msk nbits =
    words_loop (\<lambda>k. (old k AND NOT (msk k)) OR (new k AND msk k)) dst 0 (BITS_TO_LONGS nbits)"

section \<open>Counting\<close>

fun weight_loop :: "(nat \<Rightarrow> u64) \<Rightarrow> nat \<Rightarrow> nat \<Rightarrow> nat \<Rightarrow> nat" where
  "weight_loop fetch idx 0 w = w"
| "weight_loop fetch idx (Suc n) w = weight_loop fetch (Suc idx) n (w + hweight_long (fetch idx))"

definition BITMAP_WEIGHT :: "(nat \<Rightarrow> u64) \<Rightarrow> nat \<Rightarrow> nat" where
  "BITMAP_WEIGHT fetch bits =
    (let w = weight_loop fetch 0 (bits div 64) 0 in
     if bits mod 64 \<noteq> 0 then w + hweight_long (fetch (bits div 64) AND LAST_WORD_MASK bits) else w)"

definition bitmap_weight :: "bmap \<Rightarrow> nat \<Rightarrow> nat" where
  "bitmap_weight a bits = BITMAP_WEIGHT a bits"

definition bitmap_weight_and :: "bmap \<Rightarrow> bmap \<Rightarrow> nat \<Rightarrow> nat" where
  "bitmap_weight_and a b bits = BITMAP_WEIGHT (\<lambda>i. a i AND b i) bits"

definition bitmap_weight_andnot :: "bmap \<Rightarrow> bmap \<Rightarrow> nat \<Rightarrow> nat" where
  "bitmap_weight_andnot a b bits = BITMAP_WEIGHT (\<lambda>i. a i AND NOT (b i)) bits"

text \<open>\<open>get_random_u32_below\<close> is the argument \<open>random\<close>.\<close>

definition find_random_bit :: "(nat \<Rightarrow> nat) \<Rightarrow> bmap \<Rightarrow> nat \<Rightarrow> nat" where
  "find_random_bit random a size' =
    (let w = bitmap_weight a size' in
     if w = 0 then size'
     else if w = 1 then find_first_bit a size'
     else find_nth_bit a size' (random w))"

section \<open>Setting and clearing ranges\<close>

function set_loop :: "(u64 \<Rightarrow> u64 \<Rightarrow> u64) \<Rightarrow> bmap \<Rightarrow> nat \<Rightarrow> nat \<Rightarrow> nat \<Rightarrow> nat \<Rightarrow> u64 \<Rightarrow> bmap" where
  "set_loop upd bm p len bits_to_set size' msk =
    (if bits_to_set \<le> len \<and> 0 < bits_to_set then
       set_loop upd (bm(p := upd (bm p) msk)) (p + 1) (len - bits_to_set) 64 size' (NOT 0)
     else if len \<noteq> 0 then bm(p := upd (bm p) (msk AND LAST_WORD_MASK size'))
     else bm)"
  by pat_completeness auto
termination
  by (relation "measure (\<lambda>(upd, bm, p, len, rest). len)") auto

definition bitmap_set :: "bmap \<Rightarrow> nat \<Rightarrow> nat \<Rightarrow> bmap" where
  "bitmap_set bm start len =
    set_loop (\<lambda>w m. w OR m) bm (start div 64) len (64 - start mod 64) (start + len) (FIRST_WORD_MASK start)"

definition bitmap_clear :: "bmap \<Rightarrow> nat \<Rightarrow> nat \<Rightarrow> bmap" where
  "bitmap_clear bm start len =
    set_loop (\<lambda>w m. w AND NOT m) bm (start div 64) len (64 - start mod 64) (start + len) (FIRST_WORD_MASK start)"

section \<open>Shifting\<close>

definition shift_right_word :: "bmap \<Rightarrow> nat \<Rightarrow> nat \<Rightarrow> nat \<Rightarrow> u64" where
  "shift_right_word src shift nbits k =
    (let lim = BITS_TO_LONGS nbits; off = shift div 64; rem = shift mod 64; msk = LAST_WORD_MASK nbits;
         upper = (if rem = 0 \<or> off + k + 1 \<ge> lim then 0
                  else push_bit (64 - rem) (if off + k + 1 = lim - 1 then src (off + k + 1) AND msk else src (off + k + 1)));
         lower = drop_bit rem (if off + k = lim - 1 then src (off + k) AND msk else src (off + k))
     in lower OR upper)"

text \<open>
  The final \<open>memset\<close> starts at word \<open>lim - off\<close>; a shift beyond the bitmap gives it an address
  before the array, which is a \<open>Bug\<close>.
\<close>

definition bitmap_shift_right :: "bmap \<Rightarrow> bmap \<Rightarrow> nat \<Rightarrow> nat \<Rightarrow> bmap outcome" where
  "bitmap_shift_right dst src shift nbits =
    (let lim = BITS_TO_LONGS nbits; off = shift div 64;
         dst1 = words_loop (shift_right_word src shift nbits) dst 0 (lim - off) in
     if off = 0 then Ret dst1
     else if off > lim then Bug
     else Ret (words_loop (\<lambda>k. 0) dst1 (lim - off) off))"

definition shift_left_word :: "bmap \<Rightarrow> nat \<Rightarrow> nat \<Rightarrow> u64" where
  "shift_left_word src shift k =
    (let rem = shift mod 64;
         lower = (if rem \<noteq> 0 \<and> k > 0 then drop_bit (64 - rem) (src (k - 1)) else 0);
         upper = push_bit rem (src k)
     in lower OR upper)"

fun shift_left_loop :: "bmap \<Rightarrow> nat \<Rightarrow> bmap \<Rightarrow> nat \<Rightarrow> bmap" where
  "shift_left_loop src shift dst 0 = dst"
| "shift_left_loop src shift dst (Suc k) =
    shift_left_loop src shift (dst(k + shift div 64 := shift_left_word src shift k)) k"

text \<open>The \<open>memset\<close> clears \<open>off\<close> words from the start, past the bitmap when \<open>off\<close> is larger.\<close>

definition bitmap_shift_left :: "bmap \<Rightarrow> bmap \<Rightarrow> nat \<Rightarrow> nat \<Rightarrow> bmap outcome" where
  "bitmap_shift_left dst src shift nbits =
    (let lim = BITS_TO_LONGS nbits; off = shift div 64 in
     if off > lim then Bug
     else Ret (words_loop (\<lambda>k. 0) (shift_left_loop src shift dst (lim - off)) 0 off))"

fun cut_pass :: "bmap \<Rightarrow> nat \<Rightarrow> nat \<Rightarrow> nat \<Rightarrow> bmap" where
  "cut_pass dst len i 0 = dst"
| "cut_pass dst len i (Suc n) =
    (let carry = (if i < len - 1 then dst (i + 1) AND 1 else 0) in
     cut_pass (dst(i := drop_bit 1 (dst i) OR push_bit 63 carry)) len (Suc i) n)"

fun cut_passes :: "bmap \<Rightarrow> nat \<Rightarrow> nat \<Rightarrow> nat \<Rightarrow> bmap" where
  "cut_passes dst first len 0 = dst"
| "cut_passes dst first len (Suc ncut) =
    cut_passes (cut_pass dst len (first div 64) (len - first div 64)) first len ncut"

definition bitmap_cut :: "bmap \<Rightarrow> bmap \<Rightarrow> nat \<Rightarrow> nat \<Rightarrow> nat \<Rightarrow> bmap" where
  "bitmap_cut dst src first ncut nbits =
    (let len = BITS_TO_LONGS nbits;
         keep = (if first mod 64 \<noteq> 0 then src (first div 64) AND drop_bit (64 - first mod 64) (NOT 0) else 0);
         dst1 = words_loop src dst 0 len;
         dst2 = cut_passes dst1 first len ncut;
         f = first div 64
     in dst2(f := (dst2 f AND push_bit (first mod 64) (NOT 0)) OR keep))"

section \<open>Free areas\<close>

text \<open>
  The search for a run of clear bits. It jumps back to its start after every set bit it meets,
  so the loop has fuel; \<open>size' + 1\<close> rounds are enough because each moves the start up.
\<close>

text \<open>\<open>__ALIGN_MASK(x, mask)\<close>: \<open>(x + mask) & ~mask\<close>.\<close>

definition align_mask_up :: "nat \<Rightarrow> nat \<Rightarrow> nat" where
  "align_mask_up x msk = (x + msk) - ((x + msk) AND msk)"

fun zero_area_loop :: "nat \<Rightarrow> bmap \<Rightarrow> nat \<Rightarrow> nat \<Rightarrow> nat \<Rightarrow> nat \<Rightarrow> nat \<Rightarrow> nat option" where
  "zero_area_loop 0 bm size' start nr align_mask align_offset = None"
| "zero_area_loop (Suc fuel) bm size' start nr align_mask align_offset =
    (let index = align_mask_up (find_next_zero_bit bm size' start + align_offset) align_mask - align_offset;
         end' = index + nr in
     if end' > size' then Some end'
     else
       let i = find_next_bit bm end' index in
       if i < end' then zero_area_loop fuel bm size' (i + 1) nr align_mask align_offset
       else Some index)"

definition bitmap_find_next_zero_area_off :: "bmap \<Rightarrow> nat \<Rightarrow> nat \<Rightarrow> nat \<Rightarrow> nat \<Rightarrow> nat \<Rightarrow> nat option" where
  "bitmap_find_next_zero_area_off bm size' start nr align_mask align_offset =
    zero_area_loop (size' + 2) bm size' start nr align_mask align_offset"

section \<open>Mapping positions\<close>

definition test_bit :: "nat \<Rightarrow> bmap \<Rightarrow> bool" where
  "test_bit i a = bit (a (i div 64)) (i mod 64)"

definition set_bit_in :: "nat \<Rightarrow> bmap \<Rightarrow> bmap" where
  "set_bit_in i a = a(i div 64 := a (i div 64) OR push_bit (i mod 64) 1)"

definition bitmap_zero :: "bmap \<Rightarrow> nat \<Rightarrow> bmap" where
  "bitmap_zero a nbits = words_loop (\<lambda>k. 0) a 0 (BITS_TO_LONGS nbits)"

definition bitmap_pos_to_ord :: "bmap \<Rightarrow> nat \<Rightarrow> nat \<Rightarrow> int" where
  "bitmap_pos_to_ord buf pos nbits =
    (if pos \<ge> nbits \<or> \<not> test_bit pos buf then -1 else int (bitmap_weight buf pos))"

text \<open>\<open>for_each_set_bit\<close>: the set bits from \<open>start\<close> on, in the order of the loop.\<close>

function set_bits_from :: "bmap \<Rightarrow> nat \<Rightarrow> nat \<Rightarrow> nat list" where
  "set_bits_from a size' start =
    (let b = find_next_bit a size' start in
     if b < size' \<and> start \<le> b then b # set_bits_from a size' (b + 1) else [])"
  by pat_completeness auto
termination
  by (relation "measure (\<lambda>(a, sz, start). sz - start)") auto

definition remap_bit :: "bmap \<Rightarrow> bmap \<Rightarrow> nat \<Rightarrow> nat \<Rightarrow> nat \<Rightarrow> nat" where
  "remap_bit old new nbits w oldbit =
    (let n = bitmap_pos_to_ord old oldbit nbits in
     if n < 0 \<or> w = 0 then oldbit else find_nth_bit new nbits (nat n mod w))"

definition bitmap_remap :: "bool \<Rightarrow> bmap \<Rightarrow> bmap \<Rightarrow> bmap \<Rightarrow> bmap \<Rightarrow> nat \<Rightarrow> bmap" where
  "bitmap_remap same dst src old new nbits =
    (if same then dst
     else fold (\<lambda>oldbit d. set_bit_in (remap_bit old new nbits (bitmap_weight new nbits) oldbit) d)
            (set_bits_from src nbits 0) (bitmap_zero dst nbits))"

definition bitmap_bitremap :: "nat \<Rightarrow> bmap \<Rightarrow> bmap \<Rightarrow> nat \<Rightarrow> nat" where
  "bitmap_bitremap oldbit old new bits = remap_bit old new bits (bitmap_weight new bits) oldbit"

fun onto_loop :: "bmap \<Rightarrow> nat \<Rightarrow> nat list \<Rightarrow> bmap \<Rightarrow> bmap" where
  "onto_loop orig m [] dst = dst"
| "onto_loop orig m (n # ns) dst =
    onto_loop orig (m + 1) ns (if test_bit m orig then set_bit_in n dst else dst)"

definition bitmap_onto :: "bool \<Rightarrow> bmap \<Rightarrow> bmap \<Rightarrow> bmap \<Rightarrow> nat \<Rightarrow> bmap" where
  "bitmap_onto same dst orig relmap bits =
    (if same then dst else onto_loop orig 0 (set_bits_from relmap bits 0) (bitmap_zero dst bits))"

text \<open>A size of 0 is a division by 0 as soon as a bit is set.\<close>

definition bitmap_fold :: "bool \<Rightarrow> bmap \<Rightarrow> bmap \<Rightarrow> nat \<Rightarrow> nat \<Rightarrow> bmap outcome" where
  "bitmap_fold same dst orig sz nbits =
    (if same then Ret dst
     else if sz = 0 \<and> set_bits_from orig nbits 0 \<noteq> [] then Bug
     else Ret (fold (\<lambda>oldbit d. set_bit_in (oldbit mod sz) d) (set_bits_from orig nbits 0) (bitmap_zero dst nbits)))"

section \<open>Allocation and conversion\<close>

definition bitmap_alloc :: "u32 \<Rightarrow> u32 \<Rightarrow> kheap \<Rightarrow> (kheap \<times> u64) outcome" where
  "bitmap_alloc nbits flags h = kmalloc_array (word_of_nat (BITS_TO_LONGS (unat nbits))) 8 flags h"

definition bitmap_zalloc :: "u32 \<Rightarrow> u32 \<Rightarrow> kheap \<Rightarrow> (kheap \<times> u64) outcome" where
  "bitmap_zalloc nbits flags h = bitmap_alloc nbits (flags OR GFP_ZERO) h"

definition bitmap_free :: "u64 \<Rightarrow> kheap \<Rightarrow> kheap outcome" where
  "bitmap_free bitmap h = kfree bitmap h"

function from_arr32_loop :: "bmap \<Rightarrow> (nat \<Rightarrow> u32) \<Rightarrow> nat \<Rightarrow> nat \<Rightarrow> bmap" where
  "from_arr32_loop bm buf i halfwords =
    (if i < halfwords then
       let w = ucast (buf i) :: u64;
           w1 = (if i + 1 < halfwords then w OR push_bit 32 (ucast (buf (i + 1))) else w)
       in from_arr32_loop (bm(i div 2 := w1)) buf (i + 2) halfwords
     else bm)"
  by pat_completeness auto
termination
  by (relation "measure (\<lambda>(bm, buf, i, hw). hw - i)") auto

definition bitmap_from_arr32 :: "bmap \<Rightarrow> (nat \<Rightarrow> u32) \<Rightarrow> nat \<Rightarrow> bmap" where
  "bitmap_from_arr32 bm buf nbits =
    (let halfwords = (nbits + 31) div 32; bm1 = from_arr32_loop bm buf 0 halfwords; l = (halfwords - 1) div 2 in
     if nbits mod 64 \<noteq> 0 then bm1(l := bm1 l AND LAST_WORD_MASK nbits) else bm1)"

function to_arr32_loop :: "(nat \<Rightarrow> u32) \<Rightarrow> bmap \<Rightarrow> nat \<Rightarrow> nat \<Rightarrow> nat \<Rightarrow> u32" where
  "to_arr32_loop buf bm i halfwords =
    (if i < halfwords then
       let buf1 = buf(i := ucast (bm (i div 2) AND 0xffffffff));
           buf2 = (if i + 1 < halfwords then buf1(i + 1 := ucast (drop_bit 32 (bm ((i + 1) div 2)))) else buf1)
       in to_arr32_loop buf2 bm (i + 2) halfwords
     else buf)"
  by pat_completeness auto
termination
  by (relation "measure (\<lambda>(buf, bm, i, hw). hw - i)") auto

definition bitmap_to_arr32 :: "(nat \<Rightarrow> u32) \<Rightarrow> bmap \<Rightarrow> nat \<Rightarrow> nat \<Rightarrow> u32" where
  "bitmap_to_arr32 buf bm nbits =
    (let halfwords = (nbits + 31) div 32; buf1 = to_arr32_loop buf bm 0 halfwords; l = halfwords - 1 in
     if nbits mod 64 \<noteq> 0 then buf1(l := buf1 l AND drop_bit ((32 - nbits mod 32) mod 32) (NOT 0)) else buf1)"

end
