(* ===== verification/Spec2Isabelle.thy ===== *)
theory Spec2Isabelle
  imports Memblock_Props Quest_String_Props Quest_Printk_Props Quest_Sched_Props Quest_Table_Props Quest_List_Props Quest_Bitmap_Props
begin

text \<open>
  \<^bold>\<open>QuestOS, a small kernel for 64-bit Arm: a verification library.\<close>

  \<^bold>\<open>The program and its parts.\<close> At boot \<open>physmem_init\<close> hands the memory of the machine to the
  early allocator \<open>memblock\<close>; \<open>kmalloc\<close> allocates from it. The process loader of
  \<open>src/schedule/process.c\<close> checks a package of user programs, builds a process for every image,
  allocates its stack, heap and page directory with \<open>kmalloc\<close>, and writes the first stack frame.
  The loaded processes are registered with the scheduler class, and every CPU picks and enters
  processes from its idle loop. \<open>printk\<close> and the string library are used everywhere.

  \<^bold>\<open>Conventions.\<close> A C integer is a word of its width (\<open>u8\<close>, \<open>u16\<close>, \<open>u32\<close>, \<open>u64\<close>), so that
  arithmetic wraps as in C; loop counters that stay far below the limit are \<open>nat\<close>. A structure
  is a record, an array a list, a pointer an address. A routine that cannot fail is a function;
  one that can hit \<open>BUG_ON\<close>, loop forever or run outside its objects returns an \<open>outcome\<close>: \<open>Ret\<close>
  a result, \<open>Bug\<close>, or \<open>NoFuel\<close>. Error codes are negative integers as in C. State is passed
  explicitly. Where the code calls something that is not in the sources (or is assembly), the
  model takes it as an argument.

  \<^bold>\<open>Theories.\<close>

  \<^item> \<open>Quest_Prelude\<close>: types, \<open>outcome\<close>, rounding (\<open>include/linux_modify\<close> macros), array moves.

  \<^item> \<open>Memblock_Regions\<close>, \<open>Memblock_Iter\<close>, \<open>Memblock_Alloc\<close> model \<open>src/mm/memblock.c\<close>,
    \<open>src/mm/kmalloc.c\<close> and \<open>src/mm/pm.c\<close>: region arrays and their insertion, merging,
    isolation and removal; the two iterators over free memory; search, growth of the arrays,
    allocation, release; the heap \<open>kheap\<close> of \<open>kmalloc\<close>. \<open>Memblock_Region_Lemmas\<close>,
    \<open>Memblock_Add\<close>, \<open>Memblock_Isolate\<close>, \<open>Memblock_Find\<close>, \<open>Memblock_Ops\<close>, \<open>Memblock_Heap\<close> hold
    the lemmas, with a region array abstracted to the map from addresses to attributes
    (\<open>mt_attr\<close>); the interface locale \<open>addr_store\<close> is interpreted for both arrays.
    \<open>Memblock_Props\<close> states the properties.

  \<^item> \<open>Quest_String\<close> models \<open>src/uboot_modified/lib/string.c\<close> on a byte memory and \<open>Quest_Strto\<close>
    models \<open>strto.c\<close>; \<open>Quest_String_Lemmas\<close> relates the word-at-a-time loops to byte-wise
    reference operations and the string routines to list operations; \<open>Quest_String_Props\<close>.

  \<^item> \<open>Quest_Printk\<close> models \<open>src/kernel/printk.c\<close>: the formatter, the number conversion and the
    log that is replayed when the console becomes ready; \<open>Quest_Printk_Lemmas\<close>,
    \<open>Quest_Printk_Props\<close>.

  \<^item> \<open>Quest_Process\<close>, \<open>Quest_Process_Init\<close> model \<open>src/schedule/process.c\<close>: package, ELF and
    metadata checks, loading, mapping, the initial stack, destruction. The routine that enters
    a range into a page table is the argument \<open>vmap\<close>. \<open>Quest_Process_Props\<close> and
    \<open>Quest_Table_Props\<close> state what the checks establish, the stack layout and the table
    operations.

  \<^item> \<open>Quest_Sched\<close> models \<open>src/schedule/sched.c\<close> and the round-robin class; \<open>Quest_Sched_Props\<close>
    has the step relation of a CPU, its invariant, and fairness.

  \<^item> \<open>Quest_List\<close> models \<open>include/linux_modify/list.h\<close> on a store of next and previous pointers;
    \<open>Quest_List_Lemmas\<close> abstracts a list to the sequence of its entries and has the interface
    locales \<open>stack_list\<close> and \<open>queue_list\<close>, interpreted for both kinds of list;
    \<open>Quest_List_Props\<close>.

  \<^item> \<open>Quest_Bitmap\<close> models \<open>src/linux_porting/lib/find_bit.c\<close> and \<open>bitmap.c\<close>;
    \<open>Quest_Bitmap_Props\<close> shows that the searches find the first bit, that range updates change
    exactly their range, and what the comparisons decide.

  \<^bold>\<open>Fuel.\<close> The loops of \<open>memblock\<close> that may grow an array run with fuel: \<open>GROW_FUEL\<close> 64 doublings
  (a 64-bit size cannot double more often), \<open>RESIZE_FUEL\<close> 8 nested resizes, the isolation loop
  with \<open>cnt + 6\<close> rounds (each round moves on or splits one of two boundaries), and the iterator
  loops with the sum of both counts plus 3; the search for a free area in a bitmap runs \<open>size + 2\<close>
  rounds, each of which starts at a higher bit. The properties prove that the fuel is never used
  up. String loops that end only at a NUL are \<open>partial_function\<close> over \<open>option\<close> and are proved to
  return on terminated strings.

  \<^bold>\<open>Not modelled.\<close> Assembly (context switch, exception entry, atomics) and device registers (serial
  port, firmware configuration, interrupt controller) have no model of the machine here to be
  stated against. Page tables and \<open>vmap\<close>, system calls and user access, start-up of further CPUs,
  the device tree library, radix trees, red-black trees and the boot loader are not covered.
  Generated configuration headers are constants.
\<close>

end
